theory Spec2Isabelle
  imports Main "HOL-Library.AList"
begin

section \<open>Translation units of XLIFF 1.2 and XLIFF 2.0 files\<close>

text \<open>
  A shallow embedding of \<^verbatim>\<open>xliff-trans-unit.ts\<close> (class \<^verbatim>\<open>XliffTransUnit\<close>, XLIFF 1.2)
  and \<^verbatim>\<open>xliff2-trans-unit.ts\<close> (class \<^verbatim>\<open>Xliff2TransUnit\<close>, XLIFF 2.0). Both classes
  have methods of the same names; the embedding prefixes them with \<open>xliff_\<close> and
  \<open>xliff2_\<close>. A JavaScript value that may be \<^verbatim>\<open>null\<close> is an \<open>option\<close>.
\<close>

subsection \<open>Errors\<close>

text \<open>
  Every \<^verbatim>\<open>throw\<close> of the source is a value. \<open>InvalidStateError\<close> is the
  \<^verbatim>\<open>Error('unknown state ' + state)\<close> of \<^verbatim>\<open>mapStateToNativeState\<close> and carries the message.
  \<open>ValidationError\<close> is the error of \<^verbatim>\<open>checkNotes\<close>; \<open>MarkupError\<close> is the error of the
  message parser and carries the message.
  \<open>TypeError\<close> is JavaScript's error for reading a property of \<^verbatim>\<open>null\<close>.
\<close>

datatype error =
    InvalidStateError string
  | ValidationError
  | MarkupError string
  | TypeError

subsection \<open>Translation states\<close>

text \<open>
  Modelled from the spec: the constants \<^verbatim>\<open>STATE_NEW\<close>, \<^verbatim>\<open>STATE_TRANSLATED\<close> and
  \<^verbatim>\<open>STATE_FINAL\<close> are imported from \<^verbatim>\<open>../api/constants\<close>, which is not among the sources.
  They are three different strings; the documentation comment of
  \<^verbatim>\<open>mapStateToNativeState\<close> names the abstract states new, translated and final.
\<close>

definition STATE_NEW :: string where
  "STATE_NEW = ''new''"

definition STATE_TRANSLATED :: string where
  "STATE_TRANSLATED = ''translated''"

definition STATE_FINAL :: string where
  "STATE_FINAL = ''final''"

text \<open>
  \<^verbatim>\<open>mapStateToNativeState\<close>: a \<^verbatim>\<open>switch\<close> whose default branch throws.
  The cases are tried in the order of the source.
\<close>

definition xliff_mapStateToNativeState :: "string \<Rightarrow> error + string" where
  "xliff_mapStateToNativeState state =
     (if state = STATE_NEW then Inr ''new''
      else if state = STATE_TRANSLATED then Inr ''translated''
      else if state = STATE_FINAL then Inr ''final''
      else Inl (InvalidStateError (''unknown state '' @ state)))"

definition xliff2_mapStateToNativeState :: "string \<Rightarrow> error + string" where
  "xliff2_mapStateToNativeState state =
     (if state = STATE_NEW then Inr ''initial''
      else if state = STATE_TRANSLATED then Inr ''translated''
      else if state = STATE_FINAL then Inr ''final''
      else Inl (InvalidStateError (''unknown state '' @ state)))"

text \<open>
  \<^verbatim>\<open>mapNativeStateToState\<close>: a \<^verbatim>\<open>switch\<close> with a default branch, so it never throws.
  The argument is what \<^verbatim>\<open>getAttribute('state')\<close> returned: \<open>None\<close> is \<^verbatim>\<open>null\<close>
  (no target or segment element, or no state attribute).
\<close>

definition xliff_mapNativeStateToState :: "string option \<Rightarrow> string" where
  "xliff_mapNativeStateToState nativeState =
     (if nativeState = Some ''new'' then STATE_NEW
      else if nativeState = Some ''needs-translation'' then STATE_NEW
      else if nativeState = Some ''translated'' then STATE_TRANSLATED
      else if nativeState = Some ''needs-adaptation'' then STATE_TRANSLATED
      else if nativeState = Some ''needs-l10n'' then STATE_TRANSLATED
      else if nativeState = Some ''needs-review-adaptation'' then STATE_TRANSLATED
      else if nativeState = Some ''needs-review-l10n'' then STATE_TRANSLATED
      else if nativeState = Some ''needs-review-translation'' then STATE_TRANSLATED
      else if nativeState = Some ''final'' then STATE_FINAL
      else if nativeState = Some ''signed-off'' then STATE_FINAL
      else STATE_NEW)"

definition xliff2_mapNativeStateToState :: "string option \<Rightarrow> string" where
  "xliff2_mapNativeStateToState nativeState =
     (if nativeState = Some ''initial'' then STATE_NEW
      else if nativeState = Some ''translated'' then STATE_TRANSLATED
      else if nativeState = Some ''reviewed'' then STATE_TRANSLATED
      else if nativeState = Some ''final'' then STATE_FINAL
      else STATE_NEW)"

subsection \<open>The document tree\<close>

text \<open>
  A trans-unit holds an \<^verbatim>\<open>Element\<close> of an XML document. The tree below it is a value:
  a text node, or an element with its tag name, its attributes in document order and
  its child nodes.
\<close>

datatype node =
    TextNode string
  | Element (tagName: string) (attributes: "(string \<times> string) list") (childNodes: "node list")
where
  "tagName (TextNode s) = []"
| "attributes (TextNode s) = []"
| "childNodes (TextNode s) = []"

text \<open>
  The elements below a list of sibling nodes, in document order (each element before
  its own descendants): the order of the collection that \<^verbatim>\<open>getElementsByTagName\<close> returns.
\<close>

fun descendantElements :: "node list \<Rightarrow> node list" where
  "descendantElements [] = []"
| "descendantElements (TextNode s # ns) = descendantElements ns"
| "descendantElements (Element n a cs # ns) =
     Element n a cs # descendantElements cs @ descendantElements ns"

definition getElementsByTagName :: "node \<Rightarrow> string \<Rightarrow> node list" where
  "getElementsByTagName el t = filter (\<lambda>e. tagName e = t) (descendantElements (childNodes el))"

definition getAttribute :: "node \<Rightarrow> string \<Rightarrow> string option" where
  "getAttribute e k = map_of (attributes e) k"

fun setAttribute :: "string \<Rightarrow> string \<Rightarrow> node \<Rightarrow> node" where
  "setAttribute k v (Element n a cs) = Element n (AList.update k v a) cs"
| "setAttribute k v (TextNode s) = TextNode s"

definition createElement :: "string \<Rightarrow> node" where
  "createElement t = Element t [] []"

fun appendChild :: "node \<Rightarrow> node \<Rightarrow> node" where
  "appendChild c (Element n a cs) = Element n a (cs @ [c])"
| "appendChild c (TextNode s) = TextNode s"

text \<open>
  The source keeps a reference to an element it found with
  \<^verbatim>\<open>getFirstElementByTagName(this._element, t)\<close> and writes through it. That element is the
  first one named \<open>t\<close> in document order, so a write through the reference is a function
  on the tree that rewrites the node at that position. \<open>hasElement\<close> tells whether
  there is such an element below a list of siblings; \<open>updateFirst\<close> applies a
  function to it; \<open>insertAfterFirst\<close> puts a new node directly after it
  (\<^verbatim>\<open>createFollowingSibling\<close>); \<open>appendToParentOfFirst\<close> appends a new node to the children
  of its parent (\<^verbatim>\<open>source.parentNode.appendChild\<close>); \<open>onChildren\<close> rewrites the children
  of the unit's own element.
\<close>

definition hasElement :: "string \<Rightarrow> node list \<Rightarrow> bool" where
  "hasElement t ns = (t \<in> set (map tagName (descendantElements ns)))"

fun updateFirst :: "string \<Rightarrow> (node \<Rightarrow> node) \<Rightarrow> node list \<Rightarrow> node list" where
  "updateFirst t f [] = []"
| "updateFirst t f (TextNode s # ns) = TextNode s # updateFirst t f ns"
| "updateFirst t f (Element n a cs # ns) =
     (if n = t then f (Element n a cs) # ns
      else if hasElement t cs then Element n a (updateFirst t f cs) # ns
      else Element n a cs # updateFirst t f ns)"

fun insertAfterFirst :: "string \<Rightarrow> node \<Rightarrow> node list \<Rightarrow> node list" where
  "insertAfterFirst t new [] = []"
| "insertAfterFirst t new (TextNode s # ns) = TextNode s # insertAfterFirst t new ns"
| "insertAfterFirst t new (Element n a cs # ns) =
     (if n = t then Element n a cs # new # ns
      else if hasElement t cs then Element n a (insertAfterFirst t new cs) # ns
      else Element n a cs # insertAfterFirst t new ns)"

fun appendToParentOfFirst :: "string \<Rightarrow> node \<Rightarrow> node list \<Rightarrow> node list" where
  "appendToParentOfFirst t new [] = []"
| "appendToParentOfFirst t new (TextNode s # ns) = TextNode s # appendToParentOfFirst t new ns"
| "appendToParentOfFirst t new (Element n a cs # ns) =
     (if n = t then Element n a cs # ns @ [new]
      else if hasElement t cs then Element n a (appendToParentOfFirst t new cs) # ns
      else Element n a cs # appendToParentOfFirst t new ns)"

fun onChildren :: "(node list \<Rightarrow> node list) \<Rightarrow> node \<Rightarrow> node" where
  "onChildren g (Element n a cs) = Element n a (g cs)"
| "onChildren g (TextNode s) = TextNode s"

definition onFirst :: "string \<Rightarrow> (node \<Rightarrow> node) \<Rightarrow> node \<Rightarrow> node" where
  "onFirst t f el = onChildren (updateFirst t f) el"

subsection \<open>What the classes use and the sources do not hold\<close>

text \<open>
  Modelled from the spec: \<^verbatim>\<open>DOMUtilities\<close> (\<^verbatim>\<open>./dom-utilities\<close>) and \<^verbatim>\<open>AbstractTransUnit\<close>
  (\<^verbatim>\<open>./abstract-trans-unit\<close>) are not among the sources. What they compute from text is a
  parameter of the model, a record of functions:
  \<^item> \<open>getXMLContent\<close>: the markup of an element's content as a string
    (\<^verbatim>\<open>DOMUtilities.getXMLContent\<close> on an element);
  \<^item> \<open>parseXMLContent\<close>: the nodes that \<^verbatim>\<open>DOMUtilities.replaceContentWithXMLContent\<close> puts
    into an element for a string (\<open>None\<close> is \<^verbatim>\<open>null\<close>);
  \<^item> \<open>getPCDATA\<close>: the text of an element (\<^verbatim>\<open>DOMUtilities.getPCDATA\<close>), possibly \<^verbatim>\<open>null\<close>;
  \<^item> \<open>isICUMessage\<close>: the ICU detector of \<^verbatim>\<open>AbstractTransUnit\<close>;
  \<^item> \<open>parseInt\<close> and \<open>numberToString\<close>: JavaScript's \<^verbatim>\<open>Number.parseInt(s, 10)\<close> and
    \<^verbatim>\<open>n.toString(10)\<close>; a number is an integer or \<^verbatim>\<open>NaN\<close>.
  No property below assumes anything about these functions that is not written in its
  statement.
\<close>

datatype number = Number int | NaN

record helpers =
  getXMLContent :: "node \<Rightarrow> string"
  parseXMLContent :: "string option \<Rightarrow> node list"
  getPCDATA :: "node \<Rightarrow> string option"
  isICUMessage :: "string option \<Rightarrow> bool"
  parseInt :: "string \<Rightarrow> number"
  numberToString :: "number \<Rightarrow> string"

text \<open>
  The owning \<^verbatim>\<open>ITranslationMessagesFile\<close>, as far as a trans-unit reads it: the prefix and
  the suffix of a new target.
\<close>

record translationMessagesFile =
  getNewTransUnitTargetPraefix :: string
  getNewTransUnitTargetSuffix :: string

text \<open>
  Modelled from the spec: \<^verbatim>\<open>DOMUtilities.getFirstElementByTagName\<close>, the first element of
  \<^verbatim>\<open>getElementsByTagName\<close> or \<^verbatim>\<open>null\<close>; \<^verbatim>\<open>DOMUtilities.replaceContentWithXMLContent\<close>,
  which replaces the children of an element by the parsed content.
\<close>

definition getFirstElementByTagName :: "node \<Rightarrow> string \<Rightarrow> node option" where
  "getFirstElementByTagName el t =
     (case getElementsByTagName el t of [] \<Rightarrow> None | e # _ \<Rightarrow> Some e)"

fun replaceContentWithXMLContent :: "helpers \<Rightarrow> string option \<Rightarrow> node \<Rightarrow> node" where
  "replaceContentWithXMLContent lib content (Element n a cs) = Element n a (parseXMLContent lib content)"
| "replaceContentWithXMLContent lib content (TextNode s) = TextNode s"

text \<open>JavaScript's string concatenation writes \<^verbatim>\<open>null\<close> as the string \<open>null\<close>.\<close>

definition jsString :: "string option \<Rightarrow> string" where
  "jsString s = (case s of None \<Rightarrow> ''null'' | Some x \<Rightarrow> x)"

subsection \<open>Source and target content\<close>

text \<open>
  \<^verbatim>\<open>sourceContent()\<close> and \<^verbatim>\<open>targetContent()\<close>, the same in both classes. An absent element has
  no content (\<^verbatim>\<open>null\<close>).
\<close>

definition sourceContent :: "helpers \<Rightarrow> node \<Rightarrow> string option" where
  "sourceContent lib el = map_option (getXMLContent lib) (getFirstElementByTagName el ''source'')"

definition targetContent :: "helpers \<Rightarrow> node \<Rightarrow> string option" where
  "targetContent lib el = map_option (getXMLContent lib) (getFirstElementByTagName el ''target'')"

subsection \<open>The stored state\<close>

text \<open>
  XLIFF 1.2 keeps the state in the \<open>state\<close> attribute of the target element, XLIFF 2.0
  in the \<open>state\<close> attribute of the segment element. \<^verbatim>\<open>nativeTargetState\<close> and
  \<^verbatim>\<open>setNativeTargetState\<close> are in the sources.
\<close>

definition xliff_nativeTargetState :: "node \<Rightarrow> string option" where
  "xliff_nativeTargetState el =
     (case getFirstElementByTagName el ''target'' of
        Some targetElement \<Rightarrow> getAttribute targetElement ''state''
      | None \<Rightarrow> None)"

definition xliff_setNativeTargetState :: "string \<Rightarrow> node \<Rightarrow> node" where
  "xliff_setNativeTargetState nativeState el =
     (case getFirstElementByTagName el ''target'' of
        Some targetElement \<Rightarrow> onFirst ''target'' (setAttribute ''state'' nativeState) el
      | None \<Rightarrow> el)"

definition xliff2_nativeTargetState :: "node \<Rightarrow> string option" where
  "xliff2_nativeTargetState el =
     (case getFirstElementByTagName el ''segment'' of
        Some segmentElement \<Rightarrow> getAttribute segmentElement ''state''
      | None \<Rightarrow> None)"

definition xliff2_setNativeTargetState :: "string \<Rightarrow> node \<Rightarrow> node" where
  "xliff2_setNativeTargetState nativeState el =
     (case getFirstElementByTagName el ''segment'' of
        Some segmentElement \<Rightarrow> onFirst ''segment'' (setAttribute ''state'' nativeState) el
      | None \<Rightarrow> el)"

text \<open>
  Modelled from the spec: \<^verbatim>\<open>targetState()\<close> and \<^verbatim>\<open>setTargetState(state)\<close> of
  \<^verbatim>\<open>AbstractTransUnit\<close>, which is not among the sources. The state of a unit is the
  native token mapped to an abstract state; setting a state maps it to the native token
  (which throws for an unknown state) and stores the token. A method that can throw
  returns the error, if any, and the tree as it is when the method ends.
\<close>

definition xliff_targetState :: "node \<Rightarrow> string" where
  "xliff_targetState el = xliff_mapNativeStateToState (xliff_nativeTargetState el)"

definition xliff2_targetState :: "node \<Rightarrow> string" where
  "xliff2_targetState el = xliff2_mapNativeStateToState (xliff2_nativeTargetState el)"

definition xliff_setTargetState :: "string \<Rightarrow> node \<Rightarrow> error option \<times> node" where
  "xliff_setTargetState newState el =
     (case xliff_mapStateToNativeState newState of
        Inl e \<Rightarrow> (Some e, el)
      | Inr nativeState \<Rightarrow> (None, xliff_setNativeTargetState nativeState el))"

definition xliff2_setTargetState :: "string \<Rightarrow> node \<Rightarrow> error option \<times> node" where
  "xliff2_setTargetState newState el =
     (case xliff2_mapStateToNativeState newState of
        Inl e \<Rightarrow> (Some e, el)
      | Inr nativeState \<Rightarrow> (None, xliff2_setNativeTargetState nativeState el))"

subsection \<open>Translating, and using the source as target\<close>

text \<open>
  Both \<^verbatim>\<open>translateNative\<close> and \<^verbatim>\<open>useSourceAsTarget\<close> start by looking for the target element
  and creating it when there is none: XLIFF 1.2 as the following sibling of the source
  element, XLIFF 2.0 as the last child of the parent of the source element. With neither a
  target nor a source element there is nothing to insert after or append to: reading
  \<^verbatim>\<open>source.parentNode\<close> of \<^verbatim>\<open>null\<close> is a \<open>TypeError\<close>.
\<close>

definition xliff_targetOrCreate :: "node \<Rightarrow> error option \<times> node" where
  "xliff_targetOrCreate el =
     (case getFirstElementByTagName el ''target'' of
        Some target \<Rightarrow> (None, el)
      | None \<Rightarrow>
         (case getFirstElementByTagName el ''source'' of
            None \<Rightarrow> (Some TypeError, el)
          | Some source \<Rightarrow>
              (None, onChildren (insertAfterFirst ''source'' (createElement ''target'')) el)))"

definition xliff2_targetOrCreate :: "node \<Rightarrow> error option \<times> node" where
  "xliff2_targetOrCreate el =
     (case getFirstElementByTagName el ''target'' of
        Some target \<Rightarrow> (None, el)
      | None \<Rightarrow>
         (case getFirstElementByTagName el ''source'' of
            None \<Rightarrow> (Some TypeError, el)
          | Some source \<Rightarrow>
              (None, onChildren (appendToParentOfFirst ''source'' (createElement ''target'')) el)))"

definition xliff_translateNative :: "helpers \<Rightarrow> string \<Rightarrow> node \<Rightarrow> error option \<times> node" where
  "xliff_translateNative lib translation el =
     (case xliff_targetOrCreate el of
        (Some e, el1) \<Rightarrow> (Some e, el1)
      | (None, el1) \<Rightarrow>
          xliff_setTargetState STATE_TRANSLATED
            (onFirst ''target'' (replaceContentWithXMLContent lib (Some translation)) el1))"

definition xliff2_translateNative :: "helpers \<Rightarrow> string \<Rightarrow> node \<Rightarrow> error option \<times> node" where
  "xliff2_translateNative lib translation el =
     (case xliff2_targetOrCreate el of
        (Some e, el1) \<Rightarrow> (Some e, el1)
      | (None, el1) \<Rightarrow>
          xliff2_setTargetState STATE_TRANSLATED
            (onFirst ''target'' (replaceContentWithXMLContent lib (Some translation)) el1))"

text \<open>
  \<^verbatim>\<open>useSourceAsTarget(isDefaultLang, copyContent)\<close>. The ICU test is inside the branch
  \<^verbatim>\<open>if (isDefaultLang || copyContent)\<close>; the other branch writes the empty string.
  XLIFF 1.2 then sets the state attribute of the target; XLIFF 2.0 sets it on the segment
  element, \<^verbatim>\<open>if (segment)\<close>.
\<close>

definition xliff_useSourceAsTarget ::
  "helpers \<Rightarrow> translationMessagesFile \<Rightarrow> bool \<Rightarrow> bool \<Rightarrow> node \<Rightarrow> error option \<times> node" where
  "xliff_useSourceAsTarget lib file isDefaultLang copyContent el =
     (let source = getFirstElementByTagName el ''source'' in
      case xliff_targetOrCreate el of
        (Some e, el1) \<Rightarrow> (Some e, el1)
      | (None, el1) \<Rightarrow>
          let el2 =
            (if isDefaultLang \<or> copyContent then
               let sourceString = map_option (getXMLContent lib) source;
                   newTargetString =
                     (if \<not> isICUMessage lib sourceString
                      then Some (getNewTransUnitTargetPraefix file @ jsString sourceString
                                 @ getNewTransUnitTargetSuffix file)
                      else sourceString)
               in onFirst ''target'' (replaceContentWithXMLContent lib newTargetString) el1
             else onFirst ''target'' (replaceContentWithXMLContent lib (Some [])) el1)
          in case xliff_mapStateToNativeState (if isDefaultLang then STATE_FINAL else STATE_NEW) of
               Inl e \<Rightarrow> (Some e, el2)
             | Inr nativeState \<Rightarrow> (None, onFirst ''target'' (setAttribute ''state'' nativeState) el2))"

definition xliff2_useSourceAsTarget ::
  "helpers \<Rightarrow> translationMessagesFile \<Rightarrow> bool \<Rightarrow> bool \<Rightarrow> node \<Rightarrow> error option \<times> node" where
  "xliff2_useSourceAsTarget lib file isDefaultLang copyContent el =
     (let source = getFirstElementByTagName el ''source'' in
      case xliff2_targetOrCreate el of
        (Some e, el1) \<Rightarrow> (Some e, el1)
      | (None, el1) \<Rightarrow>
          let el2 =
            (if isDefaultLang \<or> copyContent then
               let sourceString = map_option (getXMLContent lib) source;
                   newTargetString =
                     (if \<not> isICUMessage lib sourceString
                      then Some (getNewTransUnitTargetPraefix file @ jsString sourceString
                                 @ getNewTransUnitTargetSuffix file)
                      else sourceString)
               in onFirst ''target'' (replaceContentWithXMLContent lib newTargetString) el1
             else onFirst ''target'' (replaceContentWithXMLContent lib (Some [])) el1)
          in case getFirstElementByTagName el2 ''segment'' of
               None \<Rightarrow> (None, el2)
             | Some segment \<Rightarrow>
                (case xliff2_mapStateToNativeState (if isDefaultLang then STATE_FINAL else STATE_NEW) of
                   Inl e \<Rightarrow> (Some e, el2)
                 | Inr nativeState \<Rightarrow>
                     (None, onFirst ''segment'' (setAttribute ''state'' nativeState) el2)))"

subsection \<open>Trans-units and the documents that hold their elements\<close>

text \<open>
  A trans-unit object has the fields \<^verbatim>\<open>_element\<close>, \<^verbatim>\<open>_id\<close> and \<^verbatim>\<open>_translationMessagesFile\<close>.
  \<^verbatim>\<open>_element\<close> is a reference: the store maps an address to the tree of the element at that
  address, and a method of a unit reads and writes the store at the address of its
  element. \<^verbatim>\<open>cloneNode(true)\<close> is the DOM's deep copy: it allocates a new element that shares
  no node with the original, here a new address that holds the same tree.
  \<^verbatim>\<open>cloneWithSourceAsTarget\<close> returns the clone, or the error that \<^verbatim>\<open>useSourceAsTarget\<close>
  raised, and the store.
\<close>

record transUnit =
  unitElement :: nat
  unitId :: string
  unitFile :: translationMessagesFile

type_synonym store = "node list"

definition xliff_useSourceAsTarget_at ::
  "helpers \<Rightarrow> transUnit \<Rightarrow> bool \<Rightarrow> bool \<Rightarrow> store \<Rightarrow> error option \<times> store" where
  "xliff_useSourceAsTarget_at lib this isDefaultLang copyContent h =
     (case xliff_useSourceAsTarget lib (unitFile this) isDefaultLang copyContent (h ! unitElement this) of
        (e, el') \<Rightarrow> (e, h[unitElement this := el']))"

definition xliff2_useSourceAsTarget_at ::
  "helpers \<Rightarrow> transUnit \<Rightarrow> bool \<Rightarrow> bool \<Rightarrow> store \<Rightarrow> error option \<times> store" where
  "xliff2_useSourceAsTarget_at lib this isDefaultLang copyContent h =
     (case xliff2_useSourceAsTarget lib (unitFile this) isDefaultLang copyContent (h ! unitElement this) of
        (e, el') \<Rightarrow> (e, h[unitElement this := el']))"

definition xliff_cloneWithSourceAsTarget ::
  "helpers \<Rightarrow> transUnit \<Rightarrow> bool \<Rightarrow> bool \<Rightarrow> translationMessagesFile \<Rightarrow> store
     \<Rightarrow> (error + transUnit) \<times> store" where
  "xliff_cloneWithSourceAsTarget lib this isDefaultLang copyContent targetFile h =
     (let element = length h;
          h1 = h @ [h ! unitElement this];
          clone = \<lparr> unitElement = element, unitId = unitId this, unitFile = targetFile \<rparr>
      in case xliff_useSourceAsTarget_at lib clone isDefaultLang copyContent h1 of
           (Some e, h2) \<Rightarrow> (Inl e, h2)
         | (None, h2) \<Rightarrow> (Inr clone, h2))"

definition xliff2_cloneWithSourceAsTarget ::
  "helpers \<Rightarrow> transUnit \<Rightarrow> bool \<Rightarrow> bool \<Rightarrow> translationMessagesFile \<Rightarrow> store
     \<Rightarrow> (error + transUnit) \<times> store" where
  "xliff2_cloneWithSourceAsTarget lib this isDefaultLang copyContent targetFile h =
     (let element = length h;
          h1 = h @ [h ! unitElement this];
          clone = \<lparr> unitElement = element, unitId = unitId this, unitFile = targetFile \<rparr>
      in case xliff2_useSourceAsTarget_at lib clone isDefaultLang copyContent h1 of
           (Some e, h2) \<Rightarrow> (Inl e, h2)
         | (None, h2) \<Rightarrow> (Inr clone, h2))"

subsection \<open>Notes, description and meaning\<close>

text \<open>
  An \<^verbatim>\<open>INote\<close> has the fields \<^verbatim>\<open>from\<close> and \<^verbatim>\<open>text\<close>; \<^verbatim>\<open>notes()\<close> fills \<^verbatim>\<open>from\<close> with what
  \<^verbatim>\<open>getAttribute\<close> returns and \<^verbatim>\<open>text\<close> with what \<^verbatim>\<open>getPCDATA\<close> returns, so both may be
  \<^verbatim>\<open>null\<close>. \<open>truthy\<close> is JavaScript's test \<^verbatim>\<open>if (s)\<close> on a string: neither \<^verbatim>\<open>null\<close> nor empty.
\<close>

record INote =
  noteFrom :: "string option"
  noteText :: "string option"

definition truthy :: "string option \<Rightarrow> bool" where
  "truthy s = (s \<noteq> None \<and> s \<noteq> Some [])"

text \<open>
  Modelled from the spec: \<^verbatim>\<open>checkNotes\<close> of \<^verbatim>\<open>AbstractTransUnit\<close>, which is not among the
  sources. The spec: \<^verbatim>\<open>setNotes\<close> fails with \<open>ValidationError\<close> if any supplied note's origin
  collides with a reserved key; the documentation comment of \<^verbatim>\<open>XliffTransUnit.setNotes\<close>:
  throws an Error if any note contains description or meaning as from attribute.
\<close>

definition checkNotes :: "INote list \<Rightarrow> error option" where
  "checkNotes newNotes =
     (if \<exists>n \<in> set newNotes. noteFrom n = Some ''description'' \<or> noteFrom n = Some ''meaning''
      then Some ValidationError else None)"

text \<open>
  XLIFF 1.2: a note is a \<open>note\<close> element anywhere below the unit's element; its origin
  is the attribute \<open>from\<close>. A new note element is appended to the unit's element.
\<close>

definition xliff_findNoteElementWithFromAttribute :: "string \<Rightarrow> node \<Rightarrow> node option" where
  "xliff_findNoteElementWithFromAttribute attrValue el =
     find (\<lambda>noteElem. getAttribute noteElem ''from'' = Some attrValue) (getElementsByTagName el ''note'')"

definition xliff_findAllAdditionalNoteElements :: "node \<Rightarrow> node list" where
  "xliff_findAllAdditionalNoteElements el =
     filter (\<lambda>noteElem. getAttribute noteElem ''from'' \<noteq> Some ''description''
                        \<and> getAttribute noteElem ''from'' \<noteq> Some ''meaning'')
       (getElementsByTagName el ''note'')"

definition xliff_description :: "helpers \<Rightarrow> node \<Rightarrow> string option" where
  "xliff_description lib el =
     (case xliff_findNoteElementWithFromAttribute ''description'' el of
        Some noteElem \<Rightarrow> getPCDATA lib noteElem | None \<Rightarrow> None)"

definition xliff_meaning :: "helpers \<Rightarrow> node \<Rightarrow> string option" where
  "xliff_meaning lib el =
     (case xliff_findNoteElementWithFromAttribute ''meaning'' el of
        Some noteElem \<Rightarrow> getPCDATA lib noteElem | None \<Rightarrow> None)"

definition xliff_notes :: "helpers \<Rightarrow> node \<Rightarrow> INote list" where
  "xliff_notes lib el =
     map (\<lambda>elem. \<lparr> noteFrom = getAttribute elem ''from'', noteText = getPCDATA lib elem \<rparr>)
       (xliff_findAllAdditionalNoteElements el)"

text \<open>
  \<^verbatim>\<open>createNoteElementWithFromAttribute\<close>: \<open>xliff_noteElement\<close> is the element it builds.
\<close>

definition xliff_noteElement :: "helpers \<Rightarrow> string option \<Rightarrow> string option \<Rightarrow> node" where
  "xliff_noteElement lib fromAttrValue content =
     (let noteElement = createElement ''note'';
          noteElement = (if truthy fromAttrValue
                         then setAttribute ''from'' (the fromAttrValue) noteElement else noteElement);
          noteElement = setAttribute ''priority'' ''1'' noteElement
      in if truthy content then replaceContentWithXMLContent lib content noteElement
         else noteElement)"

definition xliff_createNoteElementWithFromAttribute ::
  "helpers \<Rightarrow> string option \<Rightarrow> string option \<Rightarrow> node \<Rightarrow> node" where
  "xliff_createNoteElementWithFromAttribute lib fromAttrValue content el =
     appendChild (xliff_noteElement lib fromAttrValue content) el"

text \<open>
  \<^verbatim>\<open>removeAllAdditionalNoteElements\<close> of XLIFF 1.2 collects the additional note elements
  among all descendants of the unit's element and calls \<^verbatim>\<open>this._element.removeChild\<close> for
  each of them, in document order. For a child of the unit's element that removes it. A
  note element that lies deeper (inside an \<^verbatim>\<open>alt-trans\<close> element, say) is not a child of
  \<^verbatim>\<open>this._element\<close>: the call is then outside what \<^verbatim>\<open>removeChild\<close> is specified for, and what
  it does is decided by the DOM library, which is not among the sources (a library that
  checks its argument raises an error and removes nothing; one that does not check
  rewires child links as if the note were a child of the unit's element). The
  model does not follow the document past such a call: the result is then \<open>None\<close>.
  \<open>removeEachChild\<close> is the loop, over the children of the unit's element: a child that
  is an additional note is removed, and an additional note below a child ends the loop
  with \<open>None\<close>. \<^verbatim>\<open>setNotes\<close> of XLIFF 1.2 is \<open>None\<close> in that case too.
\<close>

definition xliff_isAdditionalNote :: "node \<Rightarrow> bool" where
  "xliff_isAdditionalNote e =
     (tagName e = ''note'' \<and> getAttribute e ''from'' \<noteq> Some ''description''
      \<and> getAttribute e ''from'' \<noteq> Some ''meaning'')"

fun removeEachChild :: "(node \<Rightarrow> bool) \<Rightarrow> node list \<Rightarrow> node list option" where
  "removeEachChild P [] = Some []"
| "removeEachChild P (c # cs) =
     (if filter P (descendantElements (childNodes c)) \<noteq> [] then None
      else if P c then removeEachChild P cs
      else map_option (Cons c) (removeEachChild P cs))"

definition xliff_removeAllAdditionalNoteElements :: "node \<Rightarrow> node option" where
  "xliff_removeAllAdditionalNoteElements el =
     map_option (\<lambda>cs. onChildren (\<lambda>_. cs) el)
       (removeEachChild xliff_isAdditionalNote (childNodes el))"

definition xliff_setNotes ::
  "helpers \<Rightarrow> INote list option \<Rightarrow> node \<Rightarrow> (error option \<times> node) option" where
  "xliff_setNotes lib newNotes el =
     (case (case newNotes of None \<Rightarrow> None | Some ns \<Rightarrow> checkNotes ns) of
        Some e \<Rightarrow> Some (Some e, el)
      | None \<Rightarrow>
         (case xliff_removeAllAdditionalNoteElements el of
            None \<Rightarrow> None
          | Some el1 \<Rightarrow>
             Some (None, case newNotes of
                           None \<Rightarrow> el1
                         | Some ns \<Rightarrow>
                             fold (\<lambda>note. xliff_createNoteElementWithFromAttribute lib
                                             (noteFrom note) (noteText note)) ns el1)))"

text \<open>
  XLIFF 2.0: the origin of a note is the attribute \<open>category\<close>; a new note element is
  appended to the first \<open>notes\<close> element, which is created at the end of the unit's element
  when there is none. Every additional note element is removed from its own parent
  (\<open>removeWhere\<close>), and a \<open>notes\<close> element is removed (\<open>removeFirst\<close>) when no \<open>note\<close>
  element is left.
\<close>

fun removeWhere :: "(node \<Rightarrow> bool) \<Rightarrow> node list \<Rightarrow> node list" where
  "removeWhere P [] = []"
| "removeWhere P (TextNode s # ns) = TextNode s # removeWhere P ns"
| "removeWhere P (Element n a cs # ns) =
     (if P (Element n a cs) then removeWhere P ns
      else Element n a (removeWhere P cs) # removeWhere P ns)"

fun removeFirst :: "string \<Rightarrow> node list \<Rightarrow> node list" where
  "removeFirst t [] = []"
| "removeFirst t (TextNode s # ns) = TextNode s # removeFirst t ns"
| "removeFirst t (Element n a cs # ns) =
     (if n = t then ns
      else if hasElement t cs then Element n a (removeFirst t cs) # ns
      else Element n a cs # removeFirst t ns)"

definition xliff2_findNoteElementWithCategoryAttribute :: "string \<Rightarrow> node \<Rightarrow> node option" where
  "xliff2_findNoteElementWithCategoryAttribute attrValue el =
     find (\<lambda>noteElem. getAttribute noteElem ''category'' = Some attrValue)
       (getElementsByTagName el ''note'')"

definition xliff2_isAdditionalNote :: "node \<Rightarrow> bool" where
  "xliff2_isAdditionalNote e =
     (tagName e = ''note'' \<and> getAttribute e ''category'' \<noteq> Some ''description''
      \<and> getAttribute e ''category'' \<noteq> Some ''meaning'')"

definition xliff2_findAllAdditionalNoteElements :: "node \<Rightarrow> node list" where
  "xliff2_findAllAdditionalNoteElements el =
     filter (\<lambda>noteElem. getAttribute noteElem ''category'' \<noteq> Some ''description''
                        \<and> getAttribute noteElem ''category'' \<noteq> Some ''meaning'')
       (getElementsByTagName el ''note'')"

definition xliff2_description :: "helpers \<Rightarrow> node \<Rightarrow> string option" where
  "xliff2_description lib el =
     (case xliff2_findNoteElementWithCategoryAttribute ''description'' el of
        Some noteElem \<Rightarrow> getPCDATA lib noteElem | None \<Rightarrow> None)"

definition xliff2_meaning :: "helpers \<Rightarrow> node \<Rightarrow> string option" where
  "xliff2_meaning lib el =
     (case xliff2_findNoteElementWithCategoryAttribute ''meaning'' el of
        Some noteElem \<Rightarrow> getPCDATA lib noteElem | None \<Rightarrow> None)"

definition xliff2_notes :: "helpers \<Rightarrow> node \<Rightarrow> INote list" where
  "xliff2_notes lib el =
     map (\<lambda>elem. \<lparr> noteFrom = getAttribute elem ''category'', noteText = getPCDATA lib elem \<rparr>)
       (xliff2_findAllAdditionalNoteElements el)"

definition xliff2_noteElement :: "helpers \<Rightarrow> string option \<Rightarrow> string option \<Rightarrow> node" where
  "xliff2_noteElement lib attrValue content =
     (let noteElement = createElement ''note'';
          noteElement = (if truthy attrValue
                         then setAttribute ''category'' (the attrValue) noteElement else noteElement)
      in if truthy content then replaceContentWithXMLContent lib content noteElement
         else noteElement)"

definition xliff2_createNoteElementWithCategoryAttribute ::
  "helpers \<Rightarrow> string option \<Rightarrow> string option \<Rightarrow> node \<Rightarrow> node" where
  "xliff2_createNoteElementWithCategoryAttribute lib attrValue content el =
     (let el1 = (case getFirstElementByTagName el ''notes'' of
                   None \<Rightarrow> appendChild (createElement ''notes'') el
                 | Some notesElement \<Rightarrow> el)
      in onFirst ''notes'' (appendChild (xliff2_noteElement lib attrValue content)) el1)"

definition xliff2_removeNotesElementIfEmpty :: "node \<Rightarrow> node" where
  "xliff2_removeNotesElementIfEmpty el =
     (case getFirstElementByTagName el ''notes'' of
        None \<Rightarrow> el
      | Some notesElement \<Rightarrow>
         (case getFirstElementByTagName el ''note'' of
            None \<Rightarrow> onChildren (removeFirst ''notes'') el
          | Some childNote \<Rightarrow> el))"

definition xliff2_removeAllAdditionalNoteElements :: "node \<Rightarrow> node" where
  "xliff2_removeAllAdditionalNoteElements el =
     xliff2_removeNotesElementIfEmpty (onChildren (removeWhere xliff2_isAdditionalNote) el)"

definition xliff2_setNotes :: "helpers \<Rightarrow> INote list option \<Rightarrow> node \<Rightarrow> error option \<times> node" where
  "xliff2_setNotes lib newNotes el =
     (case (case newNotes of None \<Rightarrow> None | Some ns \<Rightarrow> checkNotes ns) of
        Some e \<Rightarrow> (Some e, el)
      | None \<Rightarrow>
         (let el1 = xliff2_removeAllAdditionalNoteElements el
          in (None, case newNotes of
                      None \<Rightarrow> el1
                    | Some ns \<Rightarrow>
                        fold (\<lambda>note. xliff2_createNoteElementWithCategoryAttribute lib
                                        (noteFrom note) (noteText note)) ns el1)))"

subsection \<open>Source references of XLIFF 2.0\<close>

text \<open>
  A source reference is a \<open>note\<close> element of category \<open>location\<close> whose text is
  \<^verbatim>\<open>file:line\<close>. \<^verbatim>\<open>lastIndexOf\<close> is \<open>None\<close> where JavaScript returns \<open>-1\<close>. Reading
  \<^verbatim>\<open>sourceAndPos.lastIndexOf\<close> of a \<^verbatim>\<open>null\<close> text is a \<open>TypeError\<close>.
  \<^verbatim>\<open>setSourceReferences\<close> removes all location notes, removes an empty \<open>notes\<close> element when
  no reference is given, creates the \<open>notes\<close> element as first child when there is none,
  and appends one location note for each reference.
\<close>

record sourceRef =
  sourcefile :: string
  linenumber :: number

definition lastIndexOf :: "char \<Rightarrow> string \<Rightarrow> nat option" where
  "lastIndexOf c s =
     (if c \<in> set s then Some (length s - 1 - length (takeWhile (\<lambda>x. x \<noteq> c) (rev s))) else None)"

definition xliff2_parseSourceAndPos :: "helpers \<Rightarrow> string \<Rightarrow> sourceRef" where
  "xliff2_parseSourceAndPos lib sourceAndPos =
     (case lastIndexOf CHR '':'' sourceAndPos of
        None \<Rightarrow> \<lparr> sourcefile = sourceAndPos, linenumber = Number 0 \<rparr>
      | Some index \<Rightarrow>
          \<lparr> sourcefile = take index sourceAndPos,
            linenumber = parseInt lib (drop (index + 1) sourceAndPos) \<rparr>)"

definition xliff2_isLocationNote :: "node \<Rightarrow> bool" where
  "xliff2_isLocationNote e = (tagName e = ''note'' \<and> getAttribute e ''category'' = Some ''location'')"

fun parseEach :: "helpers \<Rightarrow> node list \<Rightarrow> error + sourceRef list" where
  "parseEach lib [] = Inr []"
| "parseEach lib (noteElem # es) =
     (case getPCDATA lib noteElem of
        None \<Rightarrow> Inl TypeError
      | Some sourceAndPos \<Rightarrow>
         (case parseEach lib es of
            Inl e \<Rightarrow> Inl e
          | Inr refs \<Rightarrow> Inr (xliff2_parseSourceAndPos lib sourceAndPos # refs)))"

definition xliff2_sourceReferences :: "helpers \<Rightarrow> node \<Rightarrow> error + sourceRef list" where
  "xliff2_sourceReferences lib el =
     parseEach lib (filter (\<lambda>noteElem. getAttribute noteElem ''category'' = Some ''location'')
                      (getElementsByTagName el ''note''))"

definition xliff2_removeAllSourceReferences :: "node \<Rightarrow> node" where
  "xliff2_removeAllSourceReferences el = onChildren (removeWhere xliff2_isLocationNote) el"

definition xliff2_locationNote :: "helpers \<Rightarrow> sourceRef \<Rightarrow> node" where
  "xliff2_locationNote lib ref =
     appendChild (TextNode (sourcefile ref @ '':'' @ numberToString lib (linenumber ref)))
       (setAttribute ''category'' ''location'' (createElement ''note''))"

definition xliff2_setSourceReferences :: "helpers \<Rightarrow> sourceRef list \<Rightarrow> node \<Rightarrow> node" where
  "xliff2_setSourceReferences lib sourceRefs el =
     (let el1 = xliff2_removeAllSourceReferences el;
          notesElement = getFirstElementByTagName el1 ''notes''
      in if sourceRefs = [] \<and> notesElement \<noteq> None \<and> childNodes (the notesElement) = []
         then onChildren (removeFirst ''notes'') el1
         else
           let el2 = (if notesElement = None
                      then onChildren (\<lambda>cs. createElement ''notes'' # cs) el1 else el1)
           in fold (\<lambda>ref. onFirst ''notes'' (appendChild (xliff2_locationNote lib ref))) sourceRefs el2)"

subsection \<open>Words for the statements\<close>

text \<open>
  \<open>targetNodes\<close> is the content of the target element, as nodes. \<open>precedes s t\<close> says
  that an element named \<open>s\<close> comes before every element named \<open>t\<close> in document order.
  \<open>segmentFirst\<close> is the shape of an XLIFF 2.0 unit: its segment element comes before
  its source and target elements (it encloses them). \<open>readsBack lib X\<close> says that the
  XML library returns the string \<open>X\<close> as the content of an element whose children are
  the parse of \<open>X\<close>.
\<close>

definition targetNodes :: "node \<Rightarrow> node list option" where
  "targetNodes el = map_option childNodes (getFirstElementByTagName el ''target'')"

definition precedes :: "string \<Rightarrow> string \<Rightarrow> node list \<Rightarrow> bool" where
  "precedes s t ns = (s \<in> set (takeWhile (\<lambda>x. x \<noteq> t) (map tagName (descendantElements ns))))"

definition segmentFirst :: "node \<Rightarrow> bool" where
  "segmentFirst el = (precedes ''segment'' ''source'' (childNodes el)
                      \<and> precedes ''segment'' ''target'' (childNodes el))"

definition readsBack :: "helpers \<Rightarrow> string \<Rightarrow> bool" where
  "readsBack lib X = (\<forall>e. childNodes e = parseXMLContent lib (Some X) \<longrightarrow> getXMLContent lib e = X)"

text \<open>
  \<open>xliff_targetWritten st W\<close> and \<open>xliff2_targetWritten W\<close> are a unit after a write to
  its target and nothing else. The first target element has the content \<open>W\<close>, in
  XLIFF 1.2 also the state attribute \<open>st\<close>, and its other attributes as before. A unit
  without a target element has got one: in XLIFF 1.2 directly after its first source
  element, in XLIFF 2.0 as the last child of the parent of its first source element.
  Every other node is what it was.
\<close>

definition xliff_targetWritten :: "string \<Rightarrow> node list \<Rightarrow> node \<Rightarrow> node" where
  "xliff_targetWritten st W el =
     (if hasElement ''target'' (childNodes el)
      then onFirst ''target'' (\<lambda>e. Element ''target'' (AList.update ''state'' st (attributes e)) W) el
      else onChildren (insertAfterFirst ''source'' (Element ''target'' [(''state'', st)] W)) el)"

definition xliff2_targetWritten :: "node list \<Rightarrow> node \<Rightarrow> node" where
  "xliff2_targetWritten W el =
     (if hasElement ''target'' (childNodes el)
      then onFirst ''target'' (\<lambda>e. Element ''target'' (attributes e) W) el
      else onChildren (appendToParentOfFirst ''source'' (Element ''target'' [] W)) el)"

text \<open>
  \<open>reservedOrigin\<close>: the origin of a note is one of the reserved keys. \<open>directNotes\<close>:
  every additional note element of an XLIFF 1.2 unit is a child of the unit's element.
\<close>

definition reservedOrigin :: "INote \<Rightarrow> bool" where
  "reservedOrigin note = (noteFrom note = Some ''description'' \<or> noteFrom note = Some ''meaning'')"

definition directNotes :: "node \<Rightarrow> bool" where
  "directNotes el =
     list_all (\<lambda>c. filter xliff_isAdditionalNote (descendantElements (childNodes c)) = [])
       (childNodes el)"

subsection \<open>An instance of the helpers, for concrete inputs\<close>

text \<open>
  A small XML library for content without markup: a string is parsed to one text node
  (to nothing when it is empty), the content and the text of an element are the
  concatenation of its text children, a string that starts with a brace is an ICU
  message, and numbers are written in decimal.
\<close>

fun textOf :: "node list \<Rightarrow> string" where
  "textOf [] = []"
| "textOf (TextNode s # ns) = s @ textOf ns"
| "textOf (Element n a cs # ns) = textOf ns"

definition plainParse :: "string option \<Rightarrow> node list" where
  "plainParse s = (case s of None \<Rightarrow> [TextNode ''null'']
                   | Some x \<Rightarrow> if x = [] then [] else [TextNode x])"

definition digitOf :: "nat \<Rightarrow> char" where
  "digitOf d = ''0123456789'' ! d"

definition digitValue :: "char \<Rightarrow> nat" where
  "digitValue c = length (takeWhile (\<lambda>d. d \<noteq> c) ''0123456789'')"

fun natToString :: "nat \<Rightarrow> nat \<Rightarrow> string" where
  "natToString 0 n = []"
| "natToString (Suc fuel) n =
     (if n < 10 then [digitOf n] else natToString fuel (n div 10) @ [digitOf (n mod 10)])"

fun stringToNat :: "nat \<Rightarrow> string \<Rightarrow> nat" where
  "stringToNat acc [] = acc"
| "stringToNat acc (c # cs) = stringToNat (10 * acc + digitValue c) cs"

definition plainParseInt :: "string \<Rightarrow> number" where
  "plainParseInt s =
     (let ds = takeWhile (\<lambda>c. c \<in> set ''0123456789'') s
      in if ds = [] then NaN else Number (int (stringToNat 0 ds)))"

definition plainNumberToString :: "number \<Rightarrow> string" where
  "plainNumberToString n =
     (case n of NaN \<Rightarrow> ''NaN''
      | Number i \<Rightarrow> if i < 0 then CHR ''-'' # natToString (Suc (nat (- i))) (nat (- i))
                     else natToString (Suc (nat i)) (nat i))"

definition plainHelpers :: helpers where
  "plainHelpers =
     \<lparr> getXMLContent = (\<lambda>e. textOf (childNodes e)),
       parseXMLContent = plainParse,
       getPCDATA = (\<lambda>e. if textOf (childNodes e) = [] then None else Some (textOf (childNodes e))),
       isICUMessage = (\<lambda>s. case s of None \<Rightarrow> False | Some x \<Rightarrow> take 1 x = ''{''),
       parseInt = plainParseInt,
       numberToString = plainNumberToString \<rparr>"

definition bracketFile :: translationMessagesFile where
  "bracketFile = \<lparr> getNewTransUnitTargetPraefix = ''[[ '', getNewTransUnitTargetSuffix = '' ]]'' \<rparr>"

text \<open>
  Concrete units: the unit of the spec's synthesis scenarios (source \<open>Hello\<close>) in
  XLIFF 1.2 and in XLIFF 2.0, an XLIFF 2.0 unit with no segment element, and units whose
  source is an ICU message.
\<close>

definition helloUnit :: node where
  "helloUnit = Element ''trans-unit'' [(''id'', ''1'')] [Element ''source'' [] [TextNode ''Hello'']]"

definition helloUnit2 :: node where
  "helloUnit2 = Element ''unit'' [(''id'', ''1'')]
     [Element ''segment'' [] [Element ''source'' [] [TextNode ''Hello'']]]"

definition bareUnit2 :: node where
  "bareUnit2 = Element ''unit'' [(''id'', ''1'')] [Element ''source'' [] [TextNode ''Hello'']]"

definition icuUnit :: node where
  "icuUnit = Element ''trans-unit'' [(''id'', ''2'')]
     [Element ''source'' [] [TextNode ''{n, plural, =0 {none} other {some}}'']]"

definition icuUnit2 :: node where
  "icuUnit2 = Element ''unit'' [(''id'', ''2'')]
     [Element ''segment'' [] [Element ''source'' [] [TextNode ''{n, plural, =0 {none} other {some}}'']]]"

text \<open>
  An XLIFF 2.0 unit with no segment element whose source is an ICU message.
\<close>

definition icuBareUnit2 :: node where
  "icuBareUnit2 = Element ''unit'' [(''id'', ''2'')]
     [Element ''source'' [] [TextNode ''{n, plural, =0 {none} other {some}}'']]"

text \<open>
  An XLIFF 2.0 unit whose segment element is empty and follows the source element.
\<close>

definition looseUnit2 :: node where
  "looseUnit2 = Element ''unit'' [(''id'', ''1'')]
     [Element ''source'' [] [TextNode ''Hello''], Element ''segment'' [] []]"


text \<open>
  Units with notes: an XLIFF 1.2 unit with a description and one further note, the same
  in XLIFF 2.0 with a source reference, an XLIFF 2.0 unit whose only note is a source
  reference, and notes to set.
\<close>

definition notedUnit :: node where
  "notedUnit = Element ''trans-unit'' [(''id'', ''3'')]
     [Element ''source'' [] [TextNode ''Hello''],
      Element ''note'' [(''from'', ''description''), (''priority'', ''1'')] [TextNode ''a greeting''],
      Element ''note'' [(''from'', ''reviewer''), (''priority'', ''1'')] [TextNode ''old remark'']]"

definition notedUnit2 :: node where
  "notedUnit2 = Element ''unit'' [(''id'', ''3'')]
     [Element ''notes'' []
        [Element ''note'' [(''category'', ''description'')] [TextNode ''a greeting''],
         Element ''note'' [(''category'', ''location'')] [TextNode ''app/a.ts:7''],
         Element ''note'' [(''category'', ''reviewer'')] [TextNode ''old remark'']],
      Element ''segment'' [] [Element ''source'' [] [TextNode ''Hello'']]]"

definition locatedUnit2 :: node where
  "locatedUnit2 = Element ''unit'' [(''id'', ''4'')]
     [Element ''notes'' [] [Element ''note'' [(''category'', ''location'')] [TextNode ''app/a.ts:7'']],
      Element ''segment'' [] [Element ''source'' [] [TextNode ''Hello'']]]"

definition remark :: INote where
  "remark = \<lparr> noteFrom = Some ''translator'', noteText = Some ''new remark'' \<rparr>"

definition badNote :: INote where
  "badNote = \<lparr> noteFrom = Some ''meaning'', noteText = Some ''greeting'' \<rparr>"

definition locationRemark :: INote where
  "locationRemark = \<lparr> noteFrom = Some ''location'', noteText = Some ''lib/b.ts:3'' \<rparr>"

text \<open>A unit object for the element at address 0, with no prefix and suffix.\<close>

definition helloTransUnit :: transUnit where
  "helloTransUnit = \<lparr> unitElement = 0, unitId = ''1'',
                      unitFile = \<lparr> getNewTransUnitTargetPraefix = [], getNewTransUnitTargetSuffix = [] \<rparr> \<rparr>"

subsection \<open>Notions used in the proofs\<close>

text \<open>
  \<open>firstElement\<close> is \<^verbatim>\<open>getFirstElementByTagName\<close> on a list of siblings; \<open>tagsOf\<close> lists
  the tag names below a list of siblings in document order; \<open>keepsTag\<close> and
  \<open>attrsOnly\<close> describe the writes (a write keeps the tag of the element it is applied
  to; setting an attribute changes nothing else); \<open>newTargetString\<close> is the string
  that \<^verbatim>\<open>useSourceAsTarget\<close> writes into the target, the same expression in both classes.
\<close>

definition firstElement :: "string \<Rightarrow> node list \<Rightarrow> node option" where
  "firstElement t ns =
     (case filter (\<lambda>e. tagName e = t) (descendantElements ns) of [] \<Rightarrow> None | e # _ \<Rightarrow> Some e)"

definition keepsTag :: "(node \<Rightarrow> node) \<Rightarrow> bool" where
  "keepsTag f = (\<forall>n a cs. \<exists>a' cs'. f (Element n a cs) = Element n a' cs')"

definition tagsOf :: "node list \<Rightarrow> string list" where
  "tagsOf ns = map tagName (descendantElements ns)"

definition attrsOnly :: "(node \<Rightarrow> node) \<Rightarrow> bool" where
  "attrsOnly f = (\<forall>n a cs. \<exists>a'. f (Element n a cs) = Element n a' cs)"

definition newTargetString ::
  "helpers \<Rightarrow> translationMessagesFile \<Rightarrow> bool \<Rightarrow> bool \<Rightarrow> string option \<Rightarrow> string option" where
  "newTargetString lib file d c sourceString =
     (if d \<or> c then
        (if \<not> isICUMessage lib sourceString
         then Some (getNewTransUnitTargetPraefix file @ jsString sourceString
                    @ getNewTransUnitTargetSuffix file)
         else sourceString)
      else Some [])"

definition labelBased :: "(node \<Rightarrow> bool) \<Rightarrow> bool" where
  "labelBased P = (\<forall>n a cs cs'. P (Element n a cs) = P (Element n a cs'))"

fun outsideFirst :: "string \<Rightarrow> node list \<Rightarrow> node list" where
  "outsideFirst t [] = []"
| "outsideFirst t (TextNode s # ns) = outsideFirst t ns"
| "outsideFirst t (Element n a cs # ns) =
     (if n = t then Element n a cs # descendantElements ns
      else if hasElement t cs then Element n a cs # outsideFirst t cs @ descendantElements ns
      else Element n a cs # descendantElements cs @ outsideFirst t ns)"

section \<open>The message parser\<close>

text \<open>
  Modelled from the spec: the message parser (\<^verbatim>\<open>./xmb-message-parser\<close>, \<^verbatim>\<open>./parsed-message\<close>
  and the abstract parser they extend) is imported by the test cases at the end of
  \<^verbatim>\<open>xliff-trans-unit.ts\<close> and is not among the sources. The model follows the spec's
  description of the parser core and takes the marker vocabulary of the XMB dialect from
  those test cases.

  A normalized message is a list of parts. Its display string writes a text verbatim,
  a placeholder as \<^verbatim>\<open>{{n}}\<close>, the tags as \<^verbatim>\<open><name>\<close> and \<^verbatim>\<open></name>\<close>, and an ICU reference
  as \<^verbatim>\<open><ICU-Message-Ref_n/>\<close>.
\<close>

datatype part =
    Text string
  | Placeholder nat
  | TagStart string
  | TagEnd string
  | TagEmpty string
  | IcuRef nat

fun decimal :: "nat \<Rightarrow> string" where
  "decimal n = (if n < 10 then [digitOf n] else decimal (n div 10) @ [digitOf (n mod 10)])"

declare decimal.simps [simp del]

fun partDisplay :: "part \<Rightarrow> string" where
  "partDisplay (Text s) = s"
| "partDisplay (Placeholder n) = ''{{'' @ decimal n @ ''}}''"
| "partDisplay (TagStart name) = ''<'' @ name @ ''>''"
| "partDisplay (TagEnd name) = ''</'' @ name @ ''>''"
| "partDisplay (TagEmpty name) = ''<'' @ name @ ''>''"
| "partDisplay (IcuRef n) = ''<ICU-Message-Ref_'' @ decimal n @ ''/>''"

definition asDisplayString :: "part list \<Rightarrow> string" where
  "asDisplayString parts = concat (map partDisplay parts)"

text \<open>
  Modelled from the spec: the native encoding, as the children of the message element:
  a text, or a marker element \<^verbatim>\<open>ph\<close> with its name and the payload of its \<^verbatim>\<open>ex\<close> child
  (the payload unescaped: \<^verbatim>\<open>&lt;b>\<close> is \<^verbatim>\<open><b>\<close>). The symbolic names of the tags are those of
  the test cases (\<^verbatim>\<open>BOLD_TEXT\<close>, \<^verbatim>\<open>ITALIC_TEXT\<close>, \<^verbatim>\<open>LINE_BREAK\<close>, \<^verbatim>\<open>LINK\<close>, and \<^verbatim>\<open>TAG_\<close> with
  the upper-cased name for a tag outside the table).
\<close>

datatype nativeNode = NativeText string | Ph string string

definition upperChar :: "char \<Rightarrow> char" where
  "upperChar c =
     (if c \<in> set ''abcdefghijklmnopqrstuvwxyz''
      then ''ABCDEFGHIJKLMNOPQRSTUVWXYZ'' ! length (takeWhile (\<lambda>x. x \<noteq> c) ''abcdefghijklmnopqrstuvwxyz'')
      else c)"

definition symbolicNameFor :: "string \<Rightarrow> string" where
  "symbolicNameFor tag =
     (if tag = ''b'' then ''BOLD_TEXT''
      else if tag = ''i'' then ''ITALIC_TEXT''
      else if tag = ''br'' then ''LINE_BREAK''
      else if tag = ''a'' then ''LINK''
      else ''TAG_'' @ map upperChar tag)"

text \<open>
  Modelled from the spec: the serialize direction. A name is bare for the number 0 and
  has the suffix \<^verbatim>\<open>_k\<close> for the number \<open>k\<close>. A tag marker is numbered by the occurrences of
  its symbolic name emitted so far, and its payload is the tag as written. An
  interpolation and an ICU reference are numbered by the index of the part: the test
  case \<^verbatim>\<open>should parse text with 2 placeholders\<close> expects \<^verbatim>\<open>INTERPOLATION_1\<close> and then
  \<^verbatim>\<open>INTERPOLATION\<close> for \<^verbatim>\<open>{{1}}: a placeholder: {{0}}\<close>.
\<close>

definition numbered :: "string \<Rightarrow> nat \<Rightarrow> string" where
  "numbered name k = (if k = 0 then name else name @ ''_'' @ decimal k)"

fun emitMarker :: "string list \<Rightarrow> part \<Rightarrow> nativeNode \<times> string list" where
  "emitMarker seen (Text s) = (NativeText s, seen)"
| "emitMarker seen (Placeholder n) =
     (Ph (numbered ''INTERPOLATION'' n) (numbered ''INTERPOLATION'' n), seen)"
| "emitMarker seen (IcuRef n) = (Ph (numbered ''ICU'' n) ''ICU'', seen)"
| "emitMarker seen (TagStart name) =
     (let base = ''START_'' @ symbolicNameFor name
      in (Ph (numbered base (count_list seen base)) (''<'' @ name @ ''>''), base # seen))"
| "emitMarker seen (TagEnd name) =
     (let base = ''CLOSE_'' @ symbolicNameFor name
      in (Ph (numbered base (count_list seen base)) (''</'' @ name @ ''>''), base # seen))"
| "emitMarker seen (TagEmpty name) =
     (let base = symbolicNameFor name
      in (Ph (numbered base (count_list seen base)) (''<'' @ name @ ''>''), base # seen))"

fun emitAll :: "string list \<Rightarrow> part list \<Rightarrow> nativeNode list" where
  "emitAll seen [] = []"
| "emitAll seen (p # ps) = (case emitMarker seen p of (x, seen') \<Rightarrow> x # emitAll seen' ps)"

definition asNativeString :: "part list \<Rightarrow> nativeNode list" where
  "asNativeString parts = emitAll [] parts"

text \<open>
  Modelled from the spec: the parse direction. A marker is recognized by the prefix of
  its name; the index of an interpolation or ICU reference is the number of its name,
  and the name of a tag is read from the payload. Tag-start markers push the name on a
  stack, tag-end markers pop it and fail with \<^verbatim>\<open>unexpected close tag <name>\<close> when the
  popped name is not the marker's name or nothing is open; tag-empty markers leave the
  stack alone; a stack that is not empty at the end is an error too.
\<close>

fun startsWith :: "string \<Rightarrow> string \<Rightarrow> bool" where
  "startsWith [] s = True"
| "startsWith (p # ps) [] = False"
| "startsWith (p # ps) (c # cs) = (p = c \<and> startsWith ps cs)"

definition indexFromName :: "string \<Rightarrow> string \<Rightarrow> nat" where
  "indexFromName base name =
     (if name = base then 0 else stringToNat 0 (drop (length base + 1) name))"

datatype markerKind = StartTag | EndTag | EmptyTag

datatype recognized =
    Interpolation nat
  | IcuReference nat
  | TagMarker markerKind string

definition recognizePlaceholderElement :: "string \<Rightarrow> string \<Rightarrow> recognized" where
  "recognizePlaceholderElement name ex =
     (if startsWith ''INTERPOLATION'' name then Interpolation (indexFromName ''INTERPOLATION'' name)
      else if startsWith ''ICU'' name then IcuReference (indexFromName ''ICU'' name)
      else if startsWith ''START_'' name then TagMarker StartTag (butlast (drop 1 ex))
      else if startsWith ''CLOSE_'' name then TagMarker EndTag (butlast (drop 2 ex))
      else TagMarker EmptyTag (butlast (drop 1 ex)))"

fun parseNodes :: "string list \<Rightarrow> nativeNode list \<Rightarrow> error + part list" where
  "parseNodes stack [] = (if stack = [] then Inr [] else Inl (MarkupError ''unterminated tag''))"
| "parseNodes stack (NativeText s # ns) = map_sum id (Cons (Text s)) (parseNodes stack ns)"
| "parseNodes stack (Ph name ex # ns) =
     (case recognizePlaceholderElement name ex of
        Interpolation n \<Rightarrow> map_sum id (Cons (Placeholder n)) (parseNodes stack ns)
      | IcuReference n \<Rightarrow> map_sum id (Cons (IcuRef n)) (parseNodes stack ns)
      | TagMarker StartTag tag \<Rightarrow> map_sum id (Cons (TagStart tag)) (parseNodes (tag # stack) ns)
      | TagMarker EndTag tag \<Rightarrow>
          (case stack of
             [] \<Rightarrow> Inl (MarkupError (''unexpected close tag '' @ tag))
           | opened # rest \<Rightarrow>
               if opened = tag then map_sum id (Cons (TagEnd tag)) (parseNodes rest ns)
               else Inl (MarkupError (''unexpected close tag '' @ tag)))
      | TagMarker EmptyTag tag \<Rightarrow> map_sum id (Cons (TagEmpty tag)) (parseNodes stack ns))"

definition createNormalizedMessageFromXML :: "nativeNode list \<Rightarrow> error + part list" where
  "createNormalizedMessageFromXML children = parseNodes [] children"

text \<open>
  Modelled from the spec: the native string read back as XML, as \<^verbatim>\<open>checkToXmlAndBack\<close>
  does. Texts that follow each other are one text node of the document, and an empty
  text is no node.
\<close>

fun xmlNodes :: "nativeNode list \<Rightarrow> nativeNode list" where
  "xmlNodes [] = []"
| "xmlNodes (NativeText s # ns) =
     (if s = [] then xmlNodes ns
      else case xmlNodes ns of
             NativeText t # r \<Rightarrow> NativeText (s @ t) # r
           | r \<Rightarrow> NativeText s # r)"
| "xmlNodes (Ph name ex # ns) = Ph name ex # xmlNodes ns"

definition displayOf :: "error + part list \<Rightarrow> error + string" where
  "displayOf r = map_sum id asDisplayString r"

subsection \<open>Words for the statements about the parser\<close>

text \<open>
  \<open>nested stack parts\<close>: the tags of the parts are properly nested and fully matched,
  with the tags of \<open>stack\<close> open at the start (the invariant of a normalized message).
  \<open>openTags stack ns\<close> is the stack of open tags after the markers \<open>ns\<close>;
  \<open>closedName x\<close> is the tag name of a tag-end marker; \<open>closesWrongly stack x\<close>: the
  marker \<open>x\<close> closes a tag while none is open, or while the most recently opened tag has
  another name; \<open>noWrongClose stack ns\<close>: no marker of \<open>ns\<close> does so at its place.
\<close>

fun nested :: "string list \<Rightarrow> part list \<Rightarrow> bool" where
  "nested stack [] = (stack = [])"
| "nested stack (TagStart name # ps) = nested (name # stack) ps"
| "nested stack (TagEnd name # ps) =
     (case stack of [] \<Rightarrow> False | opened # rest \<Rightarrow> opened = name \<and> nested rest ps)"
| "nested stack (p # ps) = nested stack ps"

fun openTags :: "string list \<Rightarrow> nativeNode list \<Rightarrow> string list" where
  "openTags stack [] = stack"
| "openTags stack (NativeText s # ns) = openTags stack ns"
| "openTags stack (Ph name ex # ns) =
     (case recognizePlaceholderElement name ex of
        TagMarker StartTag tag \<Rightarrow> openTags (tag # stack) ns
      | TagMarker EndTag tag \<Rightarrow> openTags (tl stack) ns
      | _ \<Rightarrow> openTags stack ns)"

definition closedName :: "nativeNode \<Rightarrow> string option" where
  "closedName x =
     (case x of
        NativeText s \<Rightarrow> None
      | Ph name ex \<Rightarrow>
          (case recognizePlaceholderElement name ex of
             TagMarker EndTag tag \<Rightarrow> Some tag
           | _ \<Rightarrow> None))"

definition closesWrongly :: "string list \<Rightarrow> nativeNode \<Rightarrow> bool" where
  "closesWrongly stack x =
     (case closedName x of
        None \<Rightarrow> False
      | Some tag \<Rightarrow> (case stack of [] \<Rightarrow> True | opened # rest \<Rightarrow> opened \<noteq> tag))"

fun noWrongClose :: "string list \<Rightarrow> nativeNode list \<Rightarrow> bool" where
  "noWrongClose stack [] = True"
| "noWrongClose stack (x # ns) = (\<not> closesWrongly stack x \<and> noWrongClose (openTags stack [x]) ns)"

text \<open>
  Concrete messages of the test cases: the markers of
  \<^verbatim>\<open>should throw an error due to not well formed elements\<close> up to the wrong close marker,
  that marker, and the messages of \<^verbatim>\<open>should parse embedded tags with placeholder inside\<close>
  and \<^verbatim>\<open>should parse text with 2 placeholders\<close>.
\<close>

definition boldStrange :: "nativeNode list" where
  "boldStrange =
     [NativeText ''Diese Nachricht ist falsch geschachtelt: '',
      Ph ''START_BOLD_TEXT'' ''<b>'',
      Ph ''START_TAG_STRANGE'' ''<strange>'',
      NativeText ''FALSCH'']"

definition closeBold :: nativeNode where
  "closeBold = Ph ''CLOSE_BOLD_TEXT'' ''</b>''"

definition nestedSample :: "part list" where
  "nestedSample =
     [TagStart ''b'', TagStart ''i'', TagStart ''strange'', Text ''Placeholder '', Placeholder 0,
      TagEnd ''strange'', TagEnd ''i'', TagEnd ''b'']"

definition swappedSample :: "part list" where
  "swappedSample = [Placeholder 1, Text '': a placeholder: '', Placeholder 0]"

section \<open>Properties\<close>

subsection \<open>The state constants\<close>

lemma STATE_distinct:
  "STATE_NEW \<noteq> STATE_TRANSLATED" "STATE_NEW \<noteq> STATE_FINAL" "STATE_TRANSLATED \<noteq> STATE_FINAL"
  "STATE_TRANSLATED \<noteq> STATE_NEW" "STATE_FINAL \<noteq> STATE_NEW" "STATE_FINAL \<noteq> STATE_TRANSLATED"
  by (simp_all add: STATE_NEW_def STATE_TRANSLATED_def STATE_FINAL_def)

subsection \<open>Native state to abstract state\<close>

text \<open>
  C4, as stated, fails for XLIFF 1.2: the token \<open>signed-off\<close> is neither \<open>new\<close>,
  \<open>translated\<close> nor \<open>final\<close>, and it maps to FINAL, not to NEW.
\<close>

theorem C4_signed_off_is_not_NEW:
  "xliff_mapNativeStateToState (Some ''signed-off'') \<noteq> STATE_NEW"
  by (simp add: xliff_mapNativeStateToState_def STATE_distinct)

text \<open>
  C4, amended: the native-to-abstract mapping is a total function into
  \<open>{NEW, TRANSLATED, FINAL}\<close>. In XLIFF 1.2 \<open>new\<close> and \<open>needs-translation\<close> map to NEW;
  \<open>translated\<close>, \<open>needs-adaptation\<close>, \<open>needs-l10n\<close>, \<open>needs-review-adaptation\<close>,
  \<open>needs-review-l10n\<close> and \<open>needs-review-translation\<close> map to TRANSLATED; \<open>final\<close> and
  \<open>signed-off\<close> map to FINAL; every other token and the absent token map to NEW.
  In XLIFF 2.0 \<open>initial\<close> maps to NEW, \<open>translated\<close> and \<open>reviewed\<close> to TRANSLATED,
  \<open>final\<close> to FINAL, every other token and the absent token to NEW.
\<close>

theorem C4_mapNativeStateToState_table:
  "xliff_mapNativeStateToState tok =
     (if tok \<in> {Some ''new'', Some ''needs-translation''} then STATE_NEW
      else if tok \<in> {Some ''translated'', Some ''needs-adaptation'', Some ''needs-l10n'',
                      Some ''needs-review-adaptation'', Some ''needs-review-l10n'',
                      Some ''needs-review-translation''} then STATE_TRANSLATED
      else if tok \<in> {Some ''final'', Some ''signed-off''} then STATE_FINAL
      else STATE_NEW)
   \<and> xliff2_mapNativeStateToState tok =
     (if tok = Some ''initial'' then STATE_NEW
      else if tok \<in> {Some ''translated'', Some ''reviewed''} then STATE_TRANSLATED
      else if tok = Some ''final'' then STATE_FINAL
      else STATE_NEW)
   \<and> xliff_mapNativeStateToState tok \<in> {STATE_NEW, STATE_TRANSLATED, STATE_FINAL}
   \<and> xliff2_mapNativeStateToState tok \<in> {STATE_NEW, STATE_TRANSLATED, STATE_FINAL}"
  by (simp add: xliff_mapNativeStateToState_def xliff2_mapNativeStateToState_def)

theorem C4_mapNativeStateToState_table_witness:
  "xliff_mapNativeStateToState (Some ''needs-l10n'') = STATE_TRANSLATED
   \<and> xliff_mapNativeStateToState (Some ''draft'') = STATE_NEW
   \<and> xliff_mapNativeStateToState None = STATE_NEW
   \<and> xliff2_mapNativeStateToState (Some ''reviewed'') = STATE_TRANSLATED
   \<and> xliff2_mapNativeStateToState (Some ''new'') = STATE_NEW
   \<and> xliff2_mapNativeStateToState None = STATE_NEW"
  using C4_mapNativeStateToState_table [of "Some ''needs-l10n''"]
    C4_mapNativeStateToState_table [of "Some ''draft''"]
    C4_mapNativeStateToState_table [of None]
    C4_mapNativeStateToState_table [of "Some ''reviewed''"]
    C4_mapNativeStateToState_table [of "Some ''new''"]
  by simp

subsection \<open>Abstract state to native state\<close>

text \<open>
  C5: the abstract-to-native mapping sends NEW, TRANSLATED, FINAL to \<open>new\<close>,
  \<open>translated\<close>, \<open>final\<close> in XLIFF 1.2 and to \<open>initial\<close>, \<open>translated\<close>, \<open>final\<close> in
  XLIFF 2.0; within each dialect two of the three states that have the same token are
  the same state; every other value raises the error with the message
  \<open>unknown state\<close> followed by the value.
\<close>

theorem C5_mapStateToNativeState:
  "xliff_mapStateToNativeState STATE_NEW = Inr ''new''
   \<and> xliff_mapStateToNativeState STATE_TRANSLATED = Inr ''translated''
   \<and> xliff_mapStateToNativeState STATE_FINAL = Inr ''final''
   \<and> xliff2_mapStateToNativeState STATE_NEW = Inr ''initial''
   \<and> xliff2_mapStateToNativeState STATE_TRANSLATED = Inr ''translated''
   \<and> xliff2_mapStateToNativeState STATE_FINAL = Inr ''final''
   \<and> (\<forall>s \<in> {STATE_NEW, STATE_TRANSLATED, STATE_FINAL}.
        \<forall>t \<in> {STATE_NEW, STATE_TRANSLATED, STATE_FINAL}.
          (xliff_mapStateToNativeState s = xliff_mapStateToNativeState t \<longrightarrow> s = t)
          \<and> (xliff2_mapStateToNativeState s = xliff2_mapStateToNativeState t \<longrightarrow> s = t))
   \<and> (state \<notin> {STATE_NEW, STATE_TRANSLATED, STATE_FINAL} \<longrightarrow>
        xliff_mapStateToNativeState state = Inl (InvalidStateError (''unknown state '' @ state))
        \<and> xliff2_mapStateToNativeState state = Inl (InvalidStateError (''unknown state '' @ state)))"
  by (simp add: xliff_mapStateToNativeState_def xliff2_mapStateToNativeState_def STATE_distinct)

theorem C5_mapStateToNativeState_witness:
  "''reviewed'' \<notin> {STATE_NEW, STATE_TRANSLATED, STATE_FINAL}
   \<and> xliff_mapStateToNativeState ''reviewed'' = Inl (InvalidStateError ''unknown state reviewed'')
   \<and> xliff2_mapStateToNativeState ''reviewed'' = Inl (InvalidStateError ''unknown state reviewed'')
   \<and> xliff_mapStateToNativeState STATE_NEW \<noteq> xliff_mapStateToNativeState STATE_FINAL
   \<and> xliff2_mapStateToNativeState STATE_NEW \<noteq> xliff2_mapStateToNativeState STATE_TRANSLATED"
proof -
  have out: "''reviewed'' \<notin> {STATE_NEW, STATE_TRANSLATED, STATE_FINAL}"
    by (simp add: STATE_NEW_def STATE_TRANSLATED_def STATE_FINAL_def)
  note t = C5_mapStateToNativeState [of "''reviewed''"]
  from t out have e:
    "xliff_mapStateToNativeState ''reviewed'' = Inl (InvalidStateError (''unknown state '' @ ''reviewed''))
     \<and> xliff2_mapStateToNativeState ''reviewed'' = Inl (InvalidStateError (''unknown state '' @ ''reviewed''))"
    by blast
  from t have i1:
    "xliff_mapStateToNativeState STATE_NEW = xliff_mapStateToNativeState STATE_FINAL
       \<longrightarrow> STATE_NEW = STATE_FINAL"
    by blast
  from t have i2:
    "xliff2_mapStateToNativeState STATE_NEW = xliff2_mapStateToNativeState STATE_TRANSLATED
       \<longrightarrow> STATE_NEW = STATE_TRANSLATED"
    by blast
  from i1 i2 have
    "xliff_mapStateToNativeState STATE_NEW \<noteq> xliff_mapStateToNativeState STATE_FINAL
     \<and> xliff2_mapStateToNativeState STATE_NEW \<noteq> xliff2_mapStateToNativeState STATE_TRANSLATED"
    using STATE_distinct by blast
  with out e show ?thesis by simp
qed

subsection \<open>Reading and writing the first element of a name\<close>

lemma descendantElements_append:
  "descendantElements (xs @ ys) = descendantElements xs @ descendantElements ys"
  by (induction xs rule: descendantElements.induct) simp_all

lemma firstElement_simps [simp]:
  "firstElement t [] = None"
  "firstElement t (TextNode s # ns) = firstElement t ns"
  "firstElement t (Element n a cs # ns) =
     (if n = t then Some (Element n a cs)
      else case firstElement t cs of Some e \<Rightarrow> Some e | None \<Rightarrow> firstElement t ns)"
  by (auto simp: firstElement_def split: list.splits)

lemma hasElement_simps [simp]:
  "hasElement t [] = False"
  "hasElement t (TextNode s # ns) = hasElement t ns"
  "hasElement t (Element n a cs # ns) = (n = t \<or> hasElement t cs \<or> hasElement t ns)"
  by (auto simp: hasElement_def)

lemma hasElement_firstElement: "hasElement t ns \<longleftrightarrow> firstElement t ns \<noteq> None"
  by (induction ns rule: descendantElements.induct) (auto split: option.splits)

lemma firstElement_tagName: "firstElement t ns = Some e \<Longrightarrow> tagName e = t"
  by (induction ns rule: descendantElements.induct) (auto split: option.splits if_splits)

lemma hasElement_updateFirst:
  "keepsTag f \<Longrightarrow> hasElement t (updateFirst t f ns) = hasElement t ns"
proof (induction ns rule: descendantElements.induct)
  case (3 n a cs ns)
  obtain a' cs' where "f (Element n a cs) = Element n a' cs'"
    using 3(3) unfolding keepsTag_def by blast
  with 3 show ?case by auto
qed simp_all

lemma firstElement_updateFirst:
  "keepsTag f \<Longrightarrow> firstElement t (updateFirst t f ns) = map_option f (firstElement t ns)"
proof (induction ns rule: descendantElements.induct)
  case (3 n a cs ns)
  obtain a' cs' where "f (Element n a cs) = Element n a' cs'"
    using 3(3) unfolding keepsTag_def by blast
  with 3 show ?case 
    by (auto simp: hasElement_firstElement split: option.splits)
qed simp_all

lemma tagsOf_simps [simp]:
  "tagsOf [] = []"
  "tagsOf (TextNode s # ns) = tagsOf ns"
  "tagsOf (Element n a cs # ns) = n # tagsOf cs @ tagsOf ns"
  by (simp_all add: tagsOf_def)

lemma hasElement_tagsOf: "hasElement t ns \<longleftrightarrow> t \<in> set (tagsOf ns)"
  by (simp add: hasElement_def tagsOf_def)

lemma precedes_tagsOf: "precedes s t ns \<longleftrightarrow> s \<in> set (takeWhile (\<lambda>x. x \<noteq> t) (tagsOf ns))"
  by (simp add: precedes_def tagsOf_def)

lemma takeWhile_append_if:
  "takeWhile P (xs @ ys) = (if \<forall>x\<in>set xs. P x then xs @ takeWhile P ys else takeWhile P xs)"
  by (induction xs) auto

lemma prefix_updateFirst:
  "keepsTag f \<Longrightarrow>
   takeWhile (\<lambda>x. x \<noteq> t) (tagsOf (updateFirst t f ns)) = takeWhile (\<lambda>x. x \<noteq> t) (tagsOf ns)"
proof (induction ns rule: descendantElements.induct)
  case (3 n a cs ns)
  obtain a' cs' where fe: "f (Element n a cs) = Element n a' cs'"
    using 3(3) unfolding keepsTag_def by blast
  have h: "hasElement t (updateFirst t f cs) = hasElement t cs"
    using 3(3) by (rule hasElement_updateFirst)
  show ?case
  proof (cases "n = t")
    case True
    with fe show ?thesis by simp
  next
    case False
    show ?thesis
    proof (cases "hasElement t cs")
      case True
      with False h 3 show ?thesis
        by (auto simp: takeWhile_append_if hasElement_tagsOf)
    next
      case False
      with \<open>n \<noteq> t\<close> h 3 show ?thesis
        by (auto simp: takeWhile_append_if hasElement_tagsOf)
    qed
  qed
qed simp_all

lemma precedes_updateFirst:
  "keepsTag f \<Longrightarrow> precedes s t (updateFirst t f ns) = precedes s t ns"
  by (simp add: precedes_tagsOf prefix_updateFirst)

lemma precedes_hasElement: "precedes s t ns \<Longrightarrow> hasElement s ns"
  unfolding precedes_tagsOf hasElement_tagsOf by (meson set_takeWhileD)

lemma attrsOnly_keepsTag: "attrsOnly f \<Longrightarrow> keepsTag f"
  unfolding attrsOnly_def keepsTag_def by metis

lemma tagsOf_updateFirst_attrs:
  "attrsOnly f \<Longrightarrow> tagsOf (updateFirst s f ns) = tagsOf ns"
proof (induction ns rule: descendantElements.induct)
  case (3 n a cs ns)
  obtain a' where fe: "f (Element n a cs) = Element n a' cs"
    using 3(3) unfolding attrsOnly_def by blast
  with 3 show ?case by auto
qed simp_all

lemma firstElement_None: "firstElement t ns = None \<longleftrightarrow> t \<notin> set (tagsOf ns)"
  using hasElement_firstElement hasElement_tagsOf by blast

lemma firstElement_updateFirst_other:
  "attrsOnly f \<Longrightarrow> s \<noteq> t \<Longrightarrow> precedes s t ns \<Longrightarrow>
   firstElement t (updateFirst s f ns) = firstElement t ns"
proof (induction ns rule: descendantElements.induct)
  case (3 n a cs ns)
  obtain a' where fe: "f (Element n a cs) = Element n a' cs"
    using 3(3) unfolding attrsOnly_def by blast
  have tg: "tagsOf (updateFirst s f cs) = tagsOf cs" "tagsOf (updateFirst s f ns) = tagsOf ns"
    using 3(3) by (simp_all add: tagsOf_updateFirst_attrs)
  show ?case
  proof (cases "n = s")
    case True
    with fe 3(4) show ?thesis by simp
  next
    case ns: False
    show ?thesis
    proof (cases "n = t")
      case True
      with 3(5) show ?thesis by (simp add: precedes_tagsOf)
    next
      case nt: False
      show ?thesis
      proof (cases "hasElement s cs")
        case True
        show ?thesis
        proof (cases "hasElement t cs")
          case True
          with \<open>hasElement s cs\<close> ns nt 3(5) have "precedes s t cs"
            by (auto simp: precedes_tagsOf takeWhile_append_if hasElement_tagsOf split: if_splits)
          with 3 have "firstElement t (updateFirst s f cs) = firstElement t cs" by simp
          with \<open>hasElement s cs\<close> ns nt show ?thesis by simp
        next
          case False
          then have "firstElement t cs = None" "firstElement t (updateFirst s f cs) = None"
            by (simp_all add: firstElement_None tg hasElement_tagsOf)
          with \<open>hasElement s cs\<close> ns nt show ?thesis by simp
        qed
      next
        case False
        with ns nt 3(5) have "precedes s t ns" "\<not> hasElement t cs"
          by (auto simp: precedes_tagsOf takeWhile_append_if hasElement_tagsOf
              split: if_splits dest: set_takeWhileD)
        then have "firstElement t cs = None"
          by (simp add: firstElement_None hasElement_tagsOf)
        with 3 False ns nt \<open>precedes s t ns\<close> show ?thesis
          by simp
      qed
    qed
  qed
qed (simp_all add: precedes_tagsOf)

lemma firstElement_append:
  "firstElement t (xs @ ys) = (case firstElement t xs of Some e \<Rightarrow> Some e | None \<Rightarrow> firstElement t ys)"
  by (induction xs rule: descendantElements.induct) (auto split: option.splits)

lemma firstElement_insertAfterFirst:
  "\<not> hasElement t ns \<Longrightarrow> hasElement src ns \<Longrightarrow>
   firstElement t (insertAfterFirst src (Element t a0 c0) ns) = Some (Element t a0 c0)"
proof (induction ns rule: descendantElements.induct)
  case (3 n a cs ns)
  then show ?case
    by (auto simp: hasElement_firstElement split: option.splits)
qed simp_all

lemma firstElement_appendToParentOfFirst:
  "\<not> hasElement t ns \<Longrightarrow> hasElement src ns \<Longrightarrow>
   firstElement t (appendToParentOfFirst src (Element t a0 c0) ns) = Some (Element t a0 c0)"
proof (induction ns rule: descendantElements.induct)
  case (3 n a cs ns)
  then show ?case
    by (auto simp: hasElement_firstElement firstElement_append split: option.splits)
qed simp_all

lemma tagsOf_append: "tagsOf (xs @ ys) = tagsOf xs @ tagsOf ys"
  by (simp add: tagsOf_def descendantElements_append)

lemma prefix_appendToParentOfFirst:
  "takeWhile (\<lambda>x. x \<noteq> src) (tagsOf (appendToParentOfFirst src new ns))
     = takeWhile (\<lambda>x. x \<noteq> src) (tagsOf ns)"
proof (induction ns rule: descendantElements.induct)
  case (3 n a cs ns)
  have "hasElement src (appendToParentOfFirst src new cs)" if "hasElement src cs"
    using that
    by (induction cs rule: descendantElements.induct) (auto simp: hasElement_tagsOf tagsOf_append)
  with 3 show ?case
    by (auto simp: takeWhile_append_if hasElement_tagsOf)
qed simp_all

lemma tagsOf_appendToParentOfFirst_subset:
  "set (tagsOf (appendToParentOfFirst src new ns)) \<subseteq> set (tagsOf ns) \<union> set (tagsOf [new])"
  by (induction ns rule: descendantElements.induct) (auto simp: tagsOf_append)

lemma in_takeWhile_weaken:
  "s \<in> set (takeWhile P xs) \<Longrightarrow> \<forall>x \<in> set (takeWhile P xs). Q x \<Longrightarrow> s \<in> set (takeWhile Q xs)"
  by (induction xs) (auto split: if_splits)

lemma precedes_appendToParentOfFirst:
  assumes "precedes s src ns" and "\<not> hasElement t ns"
  shows "precedes s t (appendToParentOfFirst src new ns)"
proof -
  let ?xs = "tagsOf (appendToParentOfFirst src new ns)"
  have p: "takeWhile (\<lambda>x. x \<noteq> src) ?xs = takeWhile (\<lambda>x. x \<noteq> src) (tagsOf ns)"
    by (rule prefix_appendToParentOfFirst)
  have "\<forall>x \<in> set (takeWhile (\<lambda>x. x \<noteq> src) ?xs). x \<noteq> t"
    using assms(2) unfolding p hasElement_tagsOf by (metis set_takeWhileD)
  moreover have "s \<in> set (takeWhile (\<lambda>x. x \<noteq> src) ?xs)"
    using assms(1) unfolding p precedes_tagsOf .
  ultimately show ?thesis
    unfolding precedes_tagsOf by (rule in_takeWhile_weaken [rotated])
qed

lemma getFirst_firstElement:
  "getFirstElementByTagName el t = firstElement t (childNodes el)"
  by (simp add: getFirstElementByTagName_def firstElement_def getElementsByTagName_def)

lemma keepsTag_replace [simp]: "keepsTag (replaceContentWithXMLContent lib s)"
  by (simp add: keepsTag_def)

lemma attrsOnly_setAttribute [simp]: "attrsOnly (setAttribute k v)"
  by (simp add: attrsOnly_def)

lemma keepsTag_setAttribute [simp]: "keepsTag (setAttribute k v)"
  by (simp add: keepsTag_def)

lemma firstElement_Element:
  "firstElement t ns = Some e \<Longrightarrow> \<exists>a cs. e = Element t a cs"
  by (induction ns rule: descendantElements.induct) (auto split: option.splits if_splits)

lemma xliff_targetOrCreate_ok:
  assumes "hasElement ''source'' cs \<or> hasElement ''target'' cs"
  shows "\<exists>cs1 a0 c0. xliff_targetOrCreate (Element n a cs) = (None, Element n a cs1)
           \<and> firstElement ''target'' cs1 = Some (Element ''target'' a0 c0)"
proof (cases "firstElement ''target'' cs")
  case None
  then have nt: "\<not> hasElement ''target'' cs" by (simp add: hasElement_firstElement)
  with assms have hs: "hasElement ''source'' cs" by simp
  then obtain s where s: "firstElement ''source'' cs = Some s"
    by (auto simp: hasElement_firstElement)
  have "firstElement ''target'' (insertAfterFirst ''source'' (Element ''target'' [] []) cs)
          = Some (Element ''target'' [] [])"
    using nt hs by (rule firstElement_insertAfterFirst)
  with None s show ?thesis
    by (simp add: xliff_targetOrCreate_def getFirst_firstElement createElement_def)
next
  case (Some e)
  then obtain a0 c0 where "e = Element ''target'' a0 c0"
    using firstElement_Element by blast
  with Some show ?thesis
    by (simp add: xliff_targetOrCreate_def getFirst_firstElement)
qed

lemma xliff2_targetOrCreate_ok:
  assumes "hasElement ''source'' cs \<or> hasElement ''target'' cs"
  shows "\<exists>cs1 a0 c0. xliff2_targetOrCreate (Element n a cs) = (None, Element n a cs1)
           \<and> firstElement ''target'' cs1 = Some (Element ''target'' a0 c0)
           \<and> (precedes s ''source'' cs \<and> precedes s ''target'' cs \<longrightarrow> precedes s ''target'' cs1)
           \<and> (\<not> hasElement ''segment'' cs \<longrightarrow> \<not> hasElement ''segment'' cs1)"
proof (cases "firstElement ''target'' cs")
  case None
  then have nt: "\<not> hasElement ''target'' cs" by (simp add: hasElement_firstElement)
  with assms have hs: "hasElement ''source'' cs" by simp
  then obtain src where s: "firstElement ''source'' cs = Some src"
    by (auto simp: hasElement_firstElement)
  let ?cs1 = "appendToParentOfFirst ''source'' (Element ''target'' [] []) cs"
  have "firstElement ''target'' ?cs1 = Some (Element ''target'' [] [])"
    using nt hs by (rule firstElement_appendToParentOfFirst)
  moreover have "precedes s ''source'' cs \<longrightarrow> precedes s ''target'' ?cs1"
    using nt by (simp add: precedes_appendToParentOfFirst)
  moreover have "\<not> hasElement ''segment'' cs \<longrightarrow> \<not> hasElement ''segment'' ?cs1"
    using tagsOf_appendToParentOfFirst_subset [of "''source''" "Element ''target'' [] []" cs]
    by (auto simp: hasElement_tagsOf)
  ultimately show ?thesis using None s
    by (simp add: xliff2_targetOrCreate_def getFirst_firstElement createElement_def)
next
  case (Some e)
  then obtain a0 c0 where "e = Element ''target'' a0 c0"
    using firstElement_Element by blast
  with Some show ?thesis
    by (simp add: xliff2_targetOrCreate_def getFirst_firstElement)
qed

text \<open>
  Writes that follow each other at the same element, a write to an element that was just
  created, and where the first element of one name is after a write to the first element
  of another name.
\<close>

lemma updateFirst_cong:
  "(\<And>a c. f (Element t a c) = g (Element t a c)) \<Longrightarrow> updateFirst t f ns = updateFirst t g ns"
  by (induction ns rule: descendantElements.induct) simp_all

lemma updateFirst_twice:
  "keepsTag f \<Longrightarrow> updateFirst t g (updateFirst t f ns) = updateFirst t (\<lambda>e. g (f e)) ns"
proof (induction ns rule: descendantElements.induct)
  case (3 n a cs ns)
  obtain a' cs' where "f (Element n a cs) = Element n a' cs'"
    using 3(3) unfolding keepsTag_def by blast
  with 3 show ?case by (auto simp: hasElement_updateFirst)
qed simp_all

lemma updateFirst_absent: "\<not> hasElement t ns \<Longrightarrow> updateFirst t f ns = ns"
  by (induction ns rule: descendantElements.induct) auto

lemma removeFirst_absent: "\<not> hasElement t ns \<Longrightarrow> removeFirst t ns = ns"
  by (induction ns rule: descendantElements.induct) auto

lemma updateFirst_snoc_new:
  "\<not> hasElement t ns \<Longrightarrow> updateFirst t f (ns @ [Element t a c]) = ns @ [f (Element t a c)]"
  by (induction ns rule: descendantElements.induct) (auto simp: hasElement_tagsOf tagsOf_append)

lemma hasElement_appendToParentOfFirst_new:
  "hasElement src ns \<Longrightarrow> hasElement t (appendToParentOfFirst src (Element t a c) ns)"
  by (induction ns rule: descendantElements.induct) (auto simp: hasElement_tagsOf tagsOf_append)

lemma hasElement_insertAfterFirst_new:
  "hasElement src ns \<Longrightarrow> hasElement t (insertAfterFirst src (Element t a c) ns)"
  by (induction ns rule: descendantElements.induct) (auto simp: hasElement_tagsOf tagsOf_append)

lemma updateFirst_insertAfterFirst:
  "\<not> hasElement t ns \<Longrightarrow>
   updateFirst t f (insertAfterFirst src (Element t a c) ns) = insertAfterFirst src (f (Element t a c)) ns"
proof (induction ns rule: descendantElements.induct)
  case (3 n b cs ns)
  then show ?case
    by (auto simp: hasElement_insertAfterFirst_new updateFirst_absent)
qed simp_all

lemma updateFirst_appendToParentOfFirst:
  "\<not> hasElement t ns \<Longrightarrow>
   updateFirst t f (appendToParentOfFirst src (Element t a c) ns)
     = appendToParentOfFirst src (f (Element t a c)) ns"
proof (induction ns rule: descendantElements.induct)
  case (3 n b cs ns)
  then show ?case
    by (auto simp: hasElement_appendToParentOfFirst_new updateFirst_snoc_new updateFirst_absent)
qed simp_all

lemma hasElement_replaced:
  assumes "\<And>a c. f (Element t a c) = Element t (g a) W" and "s \<noteq> t" and "hasElement t ns"
  shows "hasElement s (updateFirst t f ns) \<longleftrightarrow> hasElement s (removeFirst t ns) \<or> hasElement s W"
  using assms(3)
proof (induction ns rule: descendantElements.induct)
  case (3 n a cs ns)
  have kt: "keepsTag (\<lambda>e. if tagName e = t then f e else e)"
    using assms(1) by (auto simp: keepsTag_def)
  have ht: "hasElement t (updateFirst t f cs) = hasElement t cs"
    using hasElement_updateFirst [OF kt, where t = t and ns = cs]
      updateFirst_cong [where t = t and f = f and g = "\<lambda>e. if tagName e = t then f e else e" and ns = cs]
    by simp
  show ?case
  proof (cases "n = t")
    case True
    with assms(1,2) show ?thesis by auto
  next
    case False
    with 3 assms(2) ht show ?thesis by auto
  qed
qed simp_all

lemma firstElement_updateFirst_apart:
  "attrsOnly f \<Longrightarrow> s \<noteq> t \<Longrightarrow> firstElement t ns = Some e \<Longrightarrow> \<not> hasElement s (childNodes e) \<Longrightarrow>
   firstElement t (updateFirst s f ns) = Some e"
proof (induction ns rule: descendantElements.induct)
  case (3 n a cs ns)
  obtain a' where fe: "f (Element n a cs) = Element n a' cs"
    using 3(3) unfolding attrsOnly_def by blast
  have tg: "tagsOf (updateFirst s f cs) = tagsOf cs"
    using 3(3) by (simp add: tagsOf_updateFirst_attrs)
  have none: "firstElement t (updateFirst s f cs) = None" if "firstElement t cs = None"
    using that by (simp add: firstElement_None tg)
  show ?case
  proof (cases "n = s")
    case True
    with fe 3(4,5) show ?thesis by simp
  next
    case ns: False
    show ?thesis
    proof (cases "n = t")
      case True
      with 3(5,6) ns show ?thesis by (auto simp: updateFirst_absent)
    next
      case nt: False
      show ?thesis
      proof (cases "firstElement t cs")
        case None
        with 3 ns nt none show ?thesis by auto
      next
        case (Some e')
        with 3 ns nt show ?thesis by (auto simp: hasElement_firstElement)
      qed
    qed
  qed
qed simp_all

lemma hasElement_appendToParentOfFirst_iff:
  "hasElement src ns \<Longrightarrow> s \<noteq> t \<Longrightarrow>
   hasElement s (appendToParentOfFirst src (Element t a c) ns) \<longleftrightarrow> hasElement s ns \<or> hasElement s c"
  by (induction ns rule: descendantElements.induct) (auto simp: hasElement_tagsOf tagsOf_append)

lemma replace_as_fun:
  "updateFirst t (replaceContentWithXMLContent lib X) ns
     = updateFirst t (\<lambda>e. Element t (attributes e) (parseXMLContent lib X)) ns"
  by (rule updateFirst_cong) simp

lemma rewrite_as_keepsTag:
  "updateFirst t (\<lambda>e. Element t (g e) W) ns = updateFirst t (\<lambda>e. Element (tagName e) (g e) W) ns"
  by (rule updateFirst_cong) simp

lemma keepsTag_rewrite [simp]: "keepsTag (\<lambda>e. Element (tagName e) (g e) W)"
  by (simp add: keepsTag_def)

lemma firstElement_rewritten:
  "firstElement t ns = Some e \<Longrightarrow>
   firstElement t (updateFirst t (\<lambda>e. Element t (g e) W) ns) = Some (Element t (g e) W)"
  by (simp add: rewrite_as_keepsTag firstElement_updateFirst firstElement_tagName)

lemma precedes_rewritten:
  "precedes s t (updateFirst t (\<lambda>e. Element t (g e) W) ns) = precedes s t ns"
  by (simp add: rewrite_as_keepsTag precedes_updateFirst)

lemma hasElement_childNodes_firstElement:
  "firstElement t ns = Some e \<Longrightarrow> hasElement s (childNodes e) \<Longrightarrow> hasElement s ns"
  by (induction ns rule: descendantElements.induct) (auto split: option.splits if_splits)

lemma firstElement_updateFirst_inside:
  "keepsTag f \<Longrightarrow> s \<noteq> t \<Longrightarrow> firstElement t ns = Some (Element t a0 W) \<Longrightarrow>
   \<not> precedes s t ns \<Longrightarrow> hasElement s W \<Longrightarrow>
   firstElement t (updateFirst s f ns) = Some (Element t a0 (updateFirst s f W))"
proof (induction ns rule: descendantElements.induct)
  case (3 n a cs ns)
  have ns: "n \<noteq> s"
    using 3(4,6) by (auto simp: precedes_tagsOf)
  show ?case
  proof (cases "n = t")
    case True
    with 3(5,7) ns show ?thesis by auto
  next
    case nt: False
    show ?thesis
    proof (cases "firstElement t cs")
      case (Some e')
      with nt 3(5) have e': "firstElement t cs = Some (Element t a0 W)" by simp
      then have hs: "hasElement s cs"
        using 3(7) hasElement_childNodes_firstElement [of t cs "Element t a0 W" s] by simp
      have ht: "hasElement t cs" using e' by (simp add: hasElement_firstElement)
      have np: "\<not> precedes s t cs"
        using 3(6) nt ht
        by (auto simp: precedes_tagsOf takeWhile_append_if hasElement_tagsOf split: if_splits)
      from 3(1) [OF 3(3,4) e' np 3(7)] ns hs
      have "firstElement t (updateFirst s f cs) = Some (Element t a0 (updateFirst s f W))"
        by simp
      with ns nt hs show ?thesis by simp
    next
      case None
      with nt 3(5) have e': "firstElement t ns = Some (Element t a0 W)" by simp
      from None have nht: "\<not> hasElement t cs" by (simp add: hasElement_firstElement)
      have nhs: "\<not> hasElement s cs"
        using 3(6) nt nht
        by (auto simp: precedes_tagsOf takeWhile_append_if hasElement_tagsOf split: if_splits)
      have np: "\<not> precedes s t ns"
        using 3(6) nt nht nhs
        by (auto simp: precedes_tagsOf takeWhile_append_if hasElement_tagsOf split: if_splits)
      from 3(2) [OF 3(3,4) e' np 3(7)] ns nhs
      have "firstElement t (updateFirst s f ns) = Some (Element t a0 (updateFirst s f W))"
        by simp
      with ns nt nhs None show ?thesis by simp
    qed
  qed
qed (simp_all add: precedes_tagsOf)

lemma precedes_updateFirst_attrs:
  "attrsOnly f \<Longrightarrow> precedes s t (updateFirst u f ns) = precedes s t ns"
  by (simp add: precedes_tagsOf tagsOf_updateFirst_attrs)

lemma hasElement_removeFirst:
  "hasElement s (removeFirst t ns) \<Longrightarrow> hasElement s ns"
  by (induction ns rule: descendantElements.induct) (auto split: if_splits)

subsection \<open>What translateNative and useSourceAsTarget leave behind\<close>

lemma write_state_xliff:
  assumes "firstElement ''target'' cs1 = Some (Element ''target'' a0 c0)"
  shows "getFirstElementByTagName
           (onFirst ''target'' (setAttribute ''state'' st)
              (onFirst ''target'' (replaceContentWithXMLContent lib X) (Element n a cs1))) ''target''
         = Some (Element ''target'' (AList.update ''state'' st a0) (parseXMLContent lib X))"
  using assms by (simp add: onFirst_def getFirst_firstElement firstElement_updateFirst)

lemma xliff_useSourceAsTarget_result:
  assumes "hasElement ''source'' (childNodes el) \<or> hasElement ''target'' (childNodes el)"
  shows "\<exists>el'. xliff_useSourceAsTarget lib file d c el = (None, el')
     \<and> targetNodes el' = Some (parseXMLContent lib
          (newTargetString lib file d c (sourceContent lib el)))
     \<and> xliff_nativeTargetState el' = Some (if d then ''final'' else ''new'')"
proof -
  obtain n a cs where el: "el = Element n a cs"
    using assms by (cases el) (auto)
  with assms obtain cs1 a0 c0 where
    1: "xliff_targetOrCreate el = (None, Element n a cs1)"
    and 2: "firstElement ''target'' cs1 = Some (Element ''target'' a0 c0)"
    using xliff_targetOrCreate_ok [of cs n a] by auto
  note ws = write_state_xliff [OF 2, where lib = lib and n = n and a = a]
  show ?thesis
    using 1
    by (cases d; cases c)
       (simp_all add: xliff_useSourceAsTarget_def Let_def newTargetString_def sourceContent_def
         xliff_mapStateToNativeState_def STATE_distinct ws targetNodes_def
         xliff_nativeTargetState_def getAttribute_def update_conv')
qed

lemma xliff_translateNative_result:
  assumes "hasElement ''source'' (childNodes el) \<or> hasElement ''target'' (childNodes el)"
  shows "\<exists>el'. xliff_translateNative lib translation el = (None, el')
     \<and> targetNodes el' = Some (parseXMLContent lib (Some translation))
     \<and> xliff_nativeTargetState el' = Some ''translated''"
proof -
  obtain n a cs where el: "el = Element n a cs"
    using assms by (cases el) (auto)
  with assms obtain cs1 a0 c0 where
    1: "xliff_targetOrCreate el = (None, Element n a cs1)"
    and 2: "firstElement ''target'' cs1 = Some (Element ''target'' a0 c0)"
    using xliff_targetOrCreate_ok [of cs n a] by auto
  note ws = write_state_xliff [OF 2, where lib = lib and n = n and a = a]
  have t2: "getFirstElementByTagName
      (onFirst ''target'' (replaceContentWithXMLContent lib (Some translation)) (Element n a cs1)) ''target''
      = Some (Element ''target'' a0 (parseXMLContent lib (Some translation)))"
    using 2 by (simp add: onFirst_def getFirst_firstElement firstElement_updateFirst)
  show ?thesis
    using 1 t2
    by (simp add: xliff_translateNative_def xliff_setTargetState_def xliff_setNativeTargetState_def
         xliff_mapStateToNativeState_def STATE_distinct ws targetNodes_def
         xliff_nativeTargetState_def getAttribute_def update_conv')
qed

lemma xliff2_state_written:
  fixes cs2 :: "node list" and st :: string
  defines "cs3 \<equiv> (if hasElement ''segment'' cs2
                  then updateFirst ''segment'' (setAttribute ''state'' st) cs2 else cs2)"
  assumes "firstElement ''target'' cs2 = Some (Element ''target'' a0 W)"
  shows "hasElement ''segment'' cs3 = hasElement ''segment'' cs2"
    and "xliff2_nativeTargetState (Element n a cs3) = (if hasElement ''segment'' cs3 then Some st else None)"
    and "\<not> hasElement ''segment'' W \<or> precedes ''segment'' ''target'' cs2
         \<Longrightarrow> firstElement ''target'' cs3 = Some (Element ''target'' a0 W)"
proof -
  show h: "hasElement ''segment'' cs3 = hasElement ''segment'' cs2"
    by (simp add: cs3_def hasElement_updateFirst)
  show "xliff2_nativeTargetState (Element n a cs3) = (if hasElement ''segment'' cs3 then Some st else None)"
  proof (cases "hasElement ''segment'' cs2")
    case True
    then obtain sg where sg: "firstElement ''segment'' cs2 = Some sg"
      by (auto simp: hasElement_firstElement)
    then obtain sa sc where "sg = Element ''segment'' sa sc"
      using firstElement_Element by blast
    with True sg h show ?thesis
      by (simp add: cs3_def xliff2_nativeTargetState_def getFirst_firstElement firstElement_updateFirst
            getAttribute_def update_conv')
  next
    case False
    then have "firstElement ''segment'' cs2 = None" by (simp add: hasElement_firstElement)
    with False show ?thesis
      by (simp add: cs3_def xliff2_nativeTargetState_def getFirst_firstElement)
  qed
  show "firstElement ''target'' cs3 = Some (Element ''target'' a0 W)"
    if "\<not> hasElement ''segment'' W \<or> precedes ''segment'' ''target'' cs2"
  proof (cases "hasElement ''segment'' cs2")
    case False
    with assms(2) show ?thesis by (simp add: cs3_def)
  next
    case True
    from that show ?thesis
    proof
      assume "\<not> hasElement ''segment'' W"
      then have "firstElement ''target'' (updateFirst ''segment'' (setAttribute ''state'' st) cs2)
                   = Some (Element ''target'' a0 W)"
        using assms(2) by (intro firstElement_updateFirst_apart) simp_all
      with True show ?thesis by (simp add: cs3_def)
    next
      assume "precedes ''segment'' ''target'' cs2"
      then have "firstElement ''target'' (updateFirst ''segment'' (setAttribute ''state'' st) cs2)
                   = firstElement ''target'' cs2"
        by (intro firstElement_updateFirst_other) simp_all
      with True assms(2) show ?thesis by (simp add: cs3_def)
    qed
  qed
qed

text \<open>
  What XLIFF 2.0 leaves behind when it has written the content \<open>W\<close> into the target and
  the state \<open>st\<close> on the segment element, if there is one.
\<close>

lemma xliff2_written_state:
  fixes lib :: helpers and W :: "node list" and st :: string
  assumes "hasElement ''source'' (childNodes el) \<or> hasElement ''target'' (childNodes el)"
  defines "el' \<equiv> xliff2_setNativeTargetState st (xliff2_targetWritten W el)"
  shows "targetNodes el'
           = Some (if precedes ''segment'' ''target'' (childNodes el') \<or> \<not> hasElement ''segment'' W
                   then W else updateFirst ''segment'' (setAttribute ''state'' st) W)"
    and "xliff2_nativeTargetState el' = (if hasElement ''segment'' (childNodes el') then Some st else None)"
    and "hasElement ''segment'' (childNodes el')
           \<longleftrightarrow> hasElement ''segment'' (removeFirst ''target'' (childNodes el)) \<or> hasElement ''segment'' W"
    and "segmentFirst el \<Longrightarrow> precedes ''segment'' ''target'' (childNodes el')"
proof -
  obtain n a cs where el: "el = Element n a cs"
    using assms(1) by (cases el) auto
  define cs2 where "cs2 = (if hasElement ''target'' cs
                  then updateFirst ''target'' (\<lambda>e. Element ''target'' (attributes e) W) cs
                  else appendToParentOfFirst ''source'' (Element ''target'' [] W) cs)"
  define cs3 where "cs3 = (if hasElement ''segment'' cs2
                  then updateFirst ''segment'' (setAttribute ''state'' st) cs2 else cs2)"
  have hs: "hasElement ''source'' cs \<or> hasElement ''target'' cs"
    using assms(1) el by simp
  have w: "xliff2_targetWritten W el = Element n a cs2"
    by (simp add: xliff2_targetWritten_def el cs2_def onFirst_def)
  have e3: "el' = Element n a cs3"
    by (simp add: el'_def w xliff2_setNativeTargetState_def getFirst_firstElement cs3_def onFirst_def
          hasElement_firstElement split: option.splits)
  have t2: "\<exists>a0. firstElement ''target'' cs2 = Some (Element ''target'' a0 W)"
  proof (cases "hasElement ''target'' cs")
    case True
    then obtain e where "firstElement ''target'' cs = Some e"
      by (auto simp: hasElement_firstElement)
    with True show ?thesis by (simp add: cs2_def firstElement_rewritten)
  next
    case False
    with hs show ?thesis by (simp add: cs2_def firstElement_appendToParentOfFirst)
  qed
  then obtain a0 where a0: "firstElement ''target'' cs2 = Some (Element ''target'' a0 W)" by blast
  note sw1 = xliff2_state_written(1) [OF a0, where st = st, folded cs3_def]
  note sw2 = xliff2_state_written(2) [OF a0, where st = st and n = n and a = a, folded cs3_def]
  note sw3 = xliff2_state_written(3) [OF a0, where st = st, folded cs3_def]
  have p3: "precedes ''segment'' ''target'' cs3 = precedes ''segment'' ''target'' cs2"
    by (simp add: cs3_def precedes_updateFirst_attrs)
  show "xliff2_nativeTargetState el' = (if hasElement ''segment'' (childNodes el') then Some st else None)"
    using sw2 by (simp add: e3)
  have s2: "hasElement ''segment'' cs2
         \<longleftrightarrow> hasElement ''segment'' (removeFirst ''target'' cs) \<or> hasElement ''segment'' W"
  proof (cases "hasElement ''target'' cs")
    case True
    have "hasElement ''segment'' (updateFirst ''target'' (\<lambda>e. Element ''target'' (attributes e) W) cs)
        \<longleftrightarrow> hasElement ''segment'' (removeFirst ''target'' cs) \<or> hasElement ''segment'' W"
      by (rule hasElement_replaced [where g = "\<lambda>a. a"]) (simp_all add: True)
    with True show ?thesis by (simp add: cs2_def)
  next
    case False
    with hs show ?thesis
      by (simp add: cs2_def hasElement_appendToParentOfFirst_iff removeFirst_absent)
  qed
  with sw1 show "hasElement ''segment'' (childNodes el')
           \<longleftrightarrow> hasElement ''segment'' (removeFirst ''target'' (childNodes el)) \<or> hasElement ''segment'' W"
    by (simp add: e3 el)
  show "precedes ''segment'' ''target'' (childNodes el')" if "segmentFirst el"
  proof (cases "hasElement ''target'' cs")
    case True
    with that show ?thesis
      by (simp add: e3 p3 cs2_def precedes_rewritten segmentFirst_def el)
  next
    case False
    with that show ?thesis
      by (simp add: e3 p3 cs2_def precedes_appendToParentOfFirst segmentFirst_def el)
  qed
  show "targetNodes el'
           = Some (if precedes ''segment'' ''target'' (childNodes el') \<or> \<not> hasElement ''segment'' W
                   then W else updateFirst ''segment'' (setAttribute ''state'' st) W)"
  proof (cases "precedes ''segment'' ''target'' cs2 \<or> \<not> hasElement ''segment'' W")
    case True
    then have "firstElement ''target'' cs3 = Some (Element ''target'' a0 W)"
      using sw3 by blast
    with True show ?thesis
      by (auto simp: e3 p3 targetNodes_def getFirst_firstElement)
  next
    case False
    then have np: "\<not> precedes ''segment'' ''target'' cs2" and hw: "hasElement ''segment'' W" by simp_all
    from hw a0 have "hasElement ''segment'' cs2"
      using hasElement_childNodes_firstElement [of "''target''" cs2 "Element ''target'' a0 W" "''segment''"]
      by simp
    then have c3: "cs3 = updateFirst ''segment'' (setAttribute ''state'' st) cs2"
      by (simp add: cs3_def)
    have "firstElement ''target'' cs3
            = Some (Element ''target'' a0 (updateFirst ''segment'' (setAttribute ''state'' st) W))"
      unfolding c3 using a0 np hw by (intro firstElement_updateFirst_inside) simp_all
    with False show ?thesis
      by (auto simp: e3 p3 targetNodes_def getFirst_firstElement)
  qed
qed

lemma xliff2_targetOrCreate_write:
  assumes "hasElement ''source'' (childNodes el) \<or> hasElement ''target'' (childNodes el)"
  shows "\<exists>el1. xliff2_targetOrCreate el = (None, el1)
           \<and> (\<forall>X. onFirst ''target'' (replaceContentWithXMLContent lib X) el1
                     = xliff2_targetWritten (parseXMLContent lib X) el)"
proof -
  obtain n a cs where el: "el = Element n a cs"
    using assms by (cases el) auto
  show ?thesis
  proof (cases "hasElement ''target'' cs")
    case True
    then obtain e where "firstElement ''target'' cs = Some e"
      by (auto simp: hasElement_firstElement)
    with True show ?thesis
      by (simp add: el xliff2_targetOrCreate_def getFirst_firstElement xliff2_targetWritten_def
            onFirst_def replace_as_fun)
  next
    case False
    with assms el have "hasElement ''source'' cs" by simp
    then obtain e where s: "firstElement ''source'' cs = Some e"
      by (auto simp: hasElement_firstElement)
    from False have n: "firstElement ''target'' cs = None"
      by (simp add: hasElement_firstElement)
    from False s n show ?thesis
      by (simp add: el xliff2_targetOrCreate_def getFirst_firstElement xliff2_targetWritten_def
            onFirst_def createElement_def updateFirst_appendToParentOfFirst)
  qed
qed

lemma xliff2_translateNative_exact:
  assumes "hasElement ''source'' (childNodes el) \<or> hasElement ''target'' (childNodes el)"
  shows "xliff2_translateNative lib translation el
           = (None, xliff2_setNativeTargetState ''translated''
                      (xliff2_targetWritten (parseXMLContent lib (Some translation)) el))"
proof -
  from xliff2_targetOrCreate_write [OF assms, of lib]
  obtain el1 where 1: "xliff2_targetOrCreate el = (None, el1)"
    and 2: "\<And>X. onFirst ''target'' (replaceContentWithXMLContent lib X) el1
                     = xliff2_targetWritten (parseXMLContent lib X) el"
    by blast
  show ?thesis
    by (simp add: xliff2_translateNative_def 1 2 xliff2_setTargetState_def
          xliff2_mapStateToNativeState_def STATE_distinct)
qed

lemma xliff2_useSourceAsTarget_exact:
  assumes "hasElement ''source'' (childNodes el) \<or> hasElement ''target'' (childNodes el)"
  shows "xliff2_useSourceAsTarget lib file d c el
           = (None, xliff2_setNativeTargetState (if d then ''final'' else ''initial'')
                      (xliff2_targetWritten
                         (parseXMLContent lib (newTargetString lib file d c (sourceContent lib el))) el))"
proof -
  from xliff2_targetOrCreate_write [OF assms, of lib]
  obtain el1 where 1: "xliff2_targetOrCreate el = (None, el1)"
    and 2: "\<And>X. onFirst ''target'' (replaceContentWithXMLContent lib X) el1
                     = xliff2_targetWritten (parseXMLContent lib X) el"
    by blast
  show ?thesis
    by (cases d; cases c)
       (simp_all add: xliff2_useSourceAsTarget_def Let_def 1 2 newTargetString_def sourceContent_def
          xliff2_mapStateToNativeState_def STATE_distinct xliff2_setNativeTargetState_def
          split: option.splits)
qed

lemma xliff_translateNative_exact:
  assumes "hasElement ''source'' (childNodes el) \<or> hasElement ''target'' (childNodes el)"
  shows "xliff_translateNative lib translation el
           = (None, xliff_targetWritten ''translated'' (parseXMLContent lib (Some translation)) el)"
proof -
  obtain n a cs where el: "el = Element n a cs"
    using assms by (cases el) auto
  with assms have hs: "hasElement ''source'' cs \<or> hasElement ''target'' cs" by simp
  let ?W = "parseXMLContent lib (Some translation)"
  show ?thesis
  proof (cases "hasElement ''target'' cs")
    case True
    then obtain e where e: "firstElement ''target'' cs = Some e"
      by (auto simp: hasElement_firstElement)
    have "updateFirst ''target'' (setAttribute ''state'' ''translated'')
            (updateFirst ''target'' (replaceContentWithXMLContent lib (Some translation)) cs)
          = updateFirst ''target'' (\<lambda>e. Element ''target'' (AList.update ''state'' ''translated'' (attributes e)) ?W) cs"
      unfolding updateFirst_twice [OF keepsTag_replace]
      by (rule updateFirst_cong) simp
    with True e show ?thesis
      by (simp add: el xliff_translateNative_def xliff_targetOrCreate_def getFirst_firstElement
            xliff_setTargetState_def xliff_setNativeTargetState_def xliff_mapStateToNativeState_def
            STATE_distinct onFirst_def xliff_targetWritten_def firstElement_updateFirst)
  next
    case False
    with hs have s: "hasElement ''source'' cs" by simp
    then obtain e where e: "firstElement ''source'' cs = Some e"
      by (auto simp: hasElement_firstElement)
    from False have n: "firstElement ''target'' cs = None" by (simp add: hasElement_firstElement)
    have f: "firstElement ''target'' (insertAfterFirst ''source'' (Element ''target'' [] ?W) cs)
          = Some (Element ''target'' [] ?W)"
      using False s by (rule firstElement_insertAfterFirst)
    from False e n f show ?thesis
      by (simp add: el xliff_translateNative_def xliff_targetOrCreate_def getFirst_firstElement
            xliff_setTargetState_def xliff_setNativeTargetState_def xliff_mapStateToNativeState_def
            STATE_distinct onFirst_def xliff_targetWritten_def createElement_def
            updateFirst_insertAfterFirst)
  qed
qed

lemma xliff2_targetState_written:
  "xliff2_nativeTargetState el' = (if b then Some st else None) \<Longrightarrow>
   st = ''final'' \<or> st = ''initial'' \<or> st = ''translated'' \<Longrightarrow>
   xliff2_targetState el'
     = (if b then (if st = ''final'' then STATE_FINAL
                   else if st = ''initial'' then STATE_NEW else STATE_TRANSLATED)
        else STATE_NEW)"
  by (auto simp: xliff2_targetState_def xliff2_mapNativeStateToState_def)

subsection \<open>useSourceAsTarget and translateNative: the claims\<close>

lemma targetContent_readsBack:
  "targetNodes el = Some (parseXMLContent lib (Some X)) \<Longrightarrow> readsBack lib X \<Longrightarrow>
   targetContent lib el = Some X"
  by (auto simp: targetNodes_def targetContent_def readsBack_def)

lemma sourceContent_hasElement:
  "sourceContent lib el = Some s \<Longrightarrow> hasElement ''source'' (childNodes el)"
  by (auto simp: sourceContent_def getFirst_firstElement hasElement_firstElement)

lemma getFirst_hasElement:
  "getFirstElementByTagName el t \<noteq> None \<longleftrightarrow> hasElement t (childNodes el)"
  by (simp add: getFirst_firstElement hasElement_firstElement)

lemma xliff_targetState_native:
  "xliff_nativeTargetState el = Some ''final'' \<Longrightarrow> xliff_targetState el = STATE_FINAL"
  "xliff_nativeTargetState el = Some ''new'' \<Longrightarrow> xliff_targetState el = STATE_NEW"
  "xliff_nativeTargetState el = Some ''translated'' \<Longrightarrow> xliff_targetState el = STATE_TRANSLATED"
  by (simp_all add: xliff_targetState_def xliff_mapNativeStateToState_def)

lemma xliff2_targetState_native:
  "xliff2_nativeTargetState el = Some ''final'' \<Longrightarrow> xliff2_targetState el = STATE_FINAL"
  "xliff2_nativeTargetState el = Some ''initial'' \<Longrightarrow> xliff2_targetState el = STATE_NEW"
  "xliff2_nativeTargetState el = Some ''translated'' \<Longrightarrow> xliff2_targetState el = STATE_TRANSLATED"
  "xliff2_nativeTargetState el = None \<Longrightarrow> xliff2_targetState el = STATE_NEW"
  by (simp_all add: xliff2_targetState_def xliff2_mapNativeStateToState_def)

text \<open>
  C3, amended: for every trans-unit whose source content \<open>s\<close> is not an ICU message,
  \<^verbatim>\<open>useSourceAsTarget\<close> returns without an error and writes prefix + \<open>s\<close> + suffix as the
  content of the target when \<open>isDefaultLang\<close> or \<open>copyContent\<close> is true, and the empty
  string otherwise: the target element's children are the parse of that string, and
  \<^verbatim>\<open>targetContent()\<close> is that string whenever the XML library reads it back. In XLIFF 1.2
  the state is afterwards FINAL if \<open>isDefaultLang\<close> and NEW otherwise. XLIFF 2.0 writes
  the state on the first segment element that the unit has once the target is written,
  and only if it has one: the state is afterwards FINAL if \<open>isDefaultLang\<close> is true and
  the unit has a segment element, and NEW otherwise. The unit has a segment element
  afterwards exactly when it had one outside its target element before or the written
  content holds one; a unit whose segment element comes before its source and target
  has one, before the target. One case is apart in XLIFF 2.0: when no segment element
  comes before the target and the written content itself holds a segment element, the
  state is written on that element, inside the target.
\<close>

theorem C3_useSourceAsTarget_not_ICU:
  assumes src: "sourceContent lib el = Some s"
    and icu: "\<not> isICUMessage lib (Some s)"
  shows
    "let X = (if d \<or> c then getNewTransUnitTargetPraefix file @ s @ getNewTransUnitTargetSuffix file
              else []);
         W = parseXMLContent lib (Some X)
     in (\<exists>el'. xliff_useSourceAsTarget lib file d c el = (None, el')
            \<and> targetNodes el' = Some W
            \<and> (readsBack lib X \<longrightarrow> targetContent lib el' = Some X)
            \<and> xliff_targetState el' = (if d then STATE_FINAL else STATE_NEW))
      \<and> (\<exists>el'. xliff2_useSourceAsTarget lib file d c el = (None, el')
            \<and> targetNodes el'
                = Some (if precedes ''segment'' ''target'' (childNodes el') \<or> \<not> hasElement ''segment'' W
                        then W
                        else updateFirst ''segment''
                               (setAttribute ''state'' (if d then ''final'' else ''initial'')) W)
            \<and> (readsBack lib X
                 \<and> (precedes ''segment'' ''target'' (childNodes el') \<or> \<not> hasElement ''segment'' W)
                \<longrightarrow> targetContent lib el' = Some X)
            \<and> xliff2_targetState el'
                = (if d \<and> hasElement ''segment'' (childNodes el') then STATE_FINAL else STATE_NEW)
            \<and> (hasElement ''segment'' (childNodes el')
                 \<longleftrightarrow> hasElement ''segment'' (removeFirst ''target'' (childNodes el))
                     \<or> hasElement ''segment'' W)
            \<and> (segmentFirst el \<longrightarrow>
                 precedes ''segment'' ''target'' (childNodes el')
                 \<and> xliff2_targetState el' = (if d then STATE_FINAL else STATE_NEW)))"
proof -
  let ?X = "if d \<or> c then getNewTransUnitTargetPraefix file @ s @ getNewTransUnitTargetSuffix file
            else []"
  let ?W = "parseXMLContent lib (Some ?X)"
  let ?st = "if d then ''final'' else ''initial''"
  have hs: "hasElement ''source'' (childNodes el) \<or> hasElement ''target'' (childNodes el)"
    using src by (simp add: sourceContent_hasElement)
  have X: "newTargetString lib file d c (sourceContent lib el) = Some ?X"
    using src icu by (simp add: newTargetString_def jsString_def)
  have A: "\<exists>el'. xliff_useSourceAsTarget lib file d c el = (None, el')
            \<and> targetNodes el' = Some ?W
            \<and> (readsBack lib ?X \<longrightarrow> targetContent lib el' = Some ?X)
            \<and> xliff_targetState el' = (if d then STATE_FINAL else STATE_NEW)"
    using xliff_useSourceAsTarget_result [OF hs, of lib "file" d c] unfolding X
    by (auto simp: targetContent_readsBack xliff_targetState_native)
  define el' where "el' = xliff2_setNativeTargetState ?st (xliff2_targetWritten ?W el)"
  note w = xliff2_written_state [OF hs, where W = ?W and st = ?st, folded el'_def]
  have r: "xliff2_useSourceAsTarget lib file d c el = (None, el')"
    using xliff2_useSourceAsTarget_exact [OF hs, of lib "file" d c] unfolding X el'_def .
  have st: "xliff2_targetState el'
              = (if d \<and> hasElement ''segment'' (childNodes el') then STATE_FINAL else STATE_NEW)"
    using xliff2_targetState_written [OF w(2)] by (auto simp: STATE_distinct)
  have tc: "targetContent lib el' = Some ?X"
    if "readsBack lib ?X \<and> (precedes ''segment'' ''target'' (childNodes el') \<or> \<not> hasElement ''segment'' ?W)"
    using that w(1) by (intro targetContent_readsBack) auto
  have sf: "precedes ''segment'' ''target'' (childNodes el')
            \<and> xliff2_targetState el' = (if d then STATE_FINAL else STATE_NEW)"
    if "segmentFirst el"
    using w(4) [OF that] st precedes_hasElement [of "''segment''" "''target''" "childNodes el'"]
    by auto
  have B: "\<exists>el'. xliff2_useSourceAsTarget lib file d c el = (None, el')
            \<and> targetNodes el'
                = Some (if precedes ''segment'' ''target'' (childNodes el') \<or> \<not> hasElement ''segment'' ?W
                        then ?W
                        else updateFirst ''segment'' (setAttribute ''state'' ?st) ?W)
            \<and> (readsBack lib ?X
                 \<and> (precedes ''segment'' ''target'' (childNodes el') \<or> \<not> hasElement ''segment'' ?W)
                \<longrightarrow> targetContent lib el' = Some ?X)
            \<and> xliff2_targetState el'
                = (if d \<and> hasElement ''segment'' (childNodes el') then STATE_FINAL else STATE_NEW)
            \<and> (hasElement ''segment'' (childNodes el')
                 \<longleftrightarrow> hasElement ''segment'' (removeFirst ''target'' (childNodes el))
                     \<or> hasElement ''segment'' ?W)
            \<and> (segmentFirst el \<longrightarrow>
                 precedes ''segment'' ''target'' (childNodes el')
                 \<and> xliff2_targetState el' = (if d then STATE_FINAL else STATE_NEW))"
    using r w(1) tc st w(3) sf by blast
  from A B show ?thesis unfolding Let_def by blast
qed

lemma readsBack_plainHelpers: "readsBack plainHelpers X"
  by (simp add: readsBack_def plainHelpers_def plainParse_def)

lemma helloUnit_source:
  "sourceContent plainHelpers helloUnit = Some ''Hello''"
  "sourceContent plainHelpers helloUnit2 = Some ''Hello''"
  "sourceContent plainHelpers bareUnit2 = Some ''Hello''"
  by (simp_all add: sourceContent_def getFirstElementByTagName_def getElementsByTagName_def
      helloUnit_def helloUnit2_def bareUnit2_def plainHelpers_def)

lemma hello_not_ICU: "\<not> isICUMessage plainHelpers (Some ''Hello'')"
  by (simp add: plainHelpers_def)

lemma segmentFirst_helloUnit2: "segmentFirst helloUnit2"
  by (simp add: segmentFirst_def precedes_def helloUnit2_def)

lemma bareUnit2_no_segment: "getFirstElementByTagName bareUnit2 ''segment'' = None"
  by (simp add: getFirstElementByTagName_def getElementsByTagName_def bareUnit2_def)

lemma plainParse_no_elements: "\<not> hasElement t (parseXMLContent plainHelpers X)"
  by (simp add: plainHelpers_def plainParse_def hasElement_def split: option.splits)

lemma looseUnit2_source: "sourceContent plainHelpers looseUnit2 = Some ''Hello''"
  by (simp add: sourceContent_def getFirstElementByTagName_def getElementsByTagName_def
      looseUnit2_def plainHelpers_def)

lemma looseUnit2_segment:
  "hasElement ''segment'' (removeFirst ''target'' (childNodes looseUnit2))"
  "\<not> segmentFirst looseUnit2"
  by (simp_all add: looseUnit2_def segmentFirst_def precedes_def)

lemma bareUnit2_no_segment_left:
  "\<not> hasElement ''segment'' (removeFirst ''target'' (childNodes bareUnit2))"
  by (simp add: bareUnit2_def)

theorem C3_useSourceAsTarget_not_ICU_witness:
  "sourceContent plainHelpers helloUnit = Some ''Hello''
   \<and> \<not> isICUMessage plainHelpers (Some ''Hello'')
   \<and> targetContent plainHelpers
        (snd (xliff_useSourceAsTarget plainHelpers bracketFile False True helloUnit)) = Some ''[[ Hello ]]''
   \<and> xliff_targetState
        (snd (xliff_useSourceAsTarget plainHelpers bracketFile False True helloUnit)) = STATE_NEW
   \<and> targetContent plainHelpers
        (snd (xliff_useSourceAsTarget plainHelpers bracketFile True False helloUnit)) = Some ''[[ Hello ]]''
   \<and> xliff_targetState
        (snd (xliff_useSourceAsTarget plainHelpers bracketFile True False helloUnit)) = STATE_FINAL
   \<and> targetContent plainHelpers
        (snd (xliff_useSourceAsTarget plainHelpers bracketFile False False helloUnit)) = Some []
   \<and> xliff_targetState
        (snd (xliff_useSourceAsTarget plainHelpers bracketFile False False helloUnit)) = STATE_NEW
   \<and> segmentFirst helloUnit2
   \<and> targetContent plainHelpers
        (snd (xliff2_useSourceAsTarget plainHelpers bracketFile True False helloUnit2)) = Some ''[[ Hello ]]''
   \<and> xliff2_targetState
        (snd (xliff2_useSourceAsTarget plainHelpers bracketFile True False helloUnit2)) = STATE_FINAL
   \<and> getFirstElementByTagName bareUnit2 ''segment'' = None
   \<and> targetContent plainHelpers
        (snd (xliff2_useSourceAsTarget plainHelpers bracketFile True False bareUnit2)) = Some ''[[ Hello ]]''
   \<and> xliff2_targetState
        (snd (xliff2_useSourceAsTarget plainHelpers bracketFile True False bareUnit2)) = STATE_NEW
   \<and> sourceContent plainHelpers looseUnit2 = Some ''Hello''
   \<and> targetContent plainHelpers
        (snd (xliff2_useSourceAsTarget plainHelpers bracketFile True False looseUnit2)) = Some ''[[ Hello ]]''
   \<and> xliff2_targetState
        (snd (xliff2_useSourceAsTarget plainHelpers bracketFile True False looseUnit2)) = STATE_FINAL"
proof -
  note rb = readsBack_plainHelpers
  note np = plainParse_no_elements
  note t1 = C3_useSourceAsTarget_not_ICU [OF helloUnit_source(1) hello_not_ICU, of _ _ bracketFile]
  note t2 = C3_useSourceAsTarget_not_ICU [OF helloUnit_source(2) hello_not_ICU, of True False bracketFile]
  note t3 = C3_useSourceAsTarget_not_ICU [OF helloUnit_source(3) hello_not_ICU, of True False bracketFile]
  note t4 = C3_useSourceAsTarget_not_ICU [OF looseUnit2_source hello_not_ICU, of True False bracketFile]
  have a: "targetContent plainHelpers
        (snd (xliff_useSourceAsTarget plainHelpers bracketFile False True helloUnit)) = Some ''[[ Hello ]]''
     \<and> xliff_targetState
        (snd (xliff_useSourceAsTarget plainHelpers bracketFile False True helloUnit)) = STATE_NEW"
    using t1 [of False True] rb by (auto simp: Let_def bracketFile_def)
  have b: "targetContent plainHelpers
        (snd (xliff_useSourceAsTarget plainHelpers bracketFile True False helloUnit)) = Some ''[[ Hello ]]''
     \<and> xliff_targetState
        (snd (xliff_useSourceAsTarget plainHelpers bracketFile True False helloUnit)) = STATE_FINAL"
    using t1 [of True False] rb by (auto simp: Let_def bracketFile_def)
  have c: "targetContent plainHelpers
        (snd (xliff_useSourceAsTarget plainHelpers bracketFile False False helloUnit)) = Some []
     \<and> xliff_targetState
        (snd (xliff_useSourceAsTarget plainHelpers bracketFile False False helloUnit)) = STATE_NEW"
    using t1 [of False False] rb by (auto simp: Let_def bracketFile_def)
  let ?X = "if True \<or> False
            then getNewTransUnitTargetPraefix bracketFile @ ''Hello'' @ getNewTransUnitTargetSuffix bracketFile
            else []"
  let ?W = "parseXMLContent plainHelpers (Some ?X)"
  have X: "?X = ''[[ Hello ]]''" by (simp add: bracketFile_def)
  from t2 [unfolded Let_def] obtain e2 where
    r2: "xliff2_useSourceAsTarget plainHelpers bracketFile True False helloUnit2 = (None, e2)"
    and c2: "readsBack plainHelpers ?X
         \<and> (precedes ''segment'' ''target'' (childNodes e2) \<or> \<not> hasElement ''segment'' ?W)
         \<longrightarrow> targetContent plainHelpers e2 = Some ?X"
    and s2: "segmentFirst helloUnit2 \<longrightarrow>
         precedes ''segment'' ''target'' (childNodes e2)
         \<and> xliff2_targetState e2 = (if True then STATE_FINAL else STATE_NEW)"
    by blast
  have d: "targetContent plainHelpers
        (snd (xliff2_useSourceAsTarget plainHelpers bracketFile True False helloUnit2)) = Some ''[[ Hello ]]''
     \<and> xliff2_targetState
        (snd (xliff2_useSourceAsTarget plainHelpers bracketFile True False helloUnit2)) = STATE_FINAL"
    using r2 c2 s2 rb np segmentFirst_helloUnit2 X by simp
  from t3 [unfolded Let_def] obtain e3 where
    r3: "xliff2_useSourceAsTarget plainHelpers bracketFile True False bareUnit2 = (None, e3)"
    and c3: "readsBack plainHelpers ?X
         \<and> (precedes ''segment'' ''target'' (childNodes e3) \<or> \<not> hasElement ''segment'' ?W)
         \<longrightarrow> targetContent plainHelpers e3 = Some ?X"
    and s3: "xliff2_targetState e3
              = (if True \<and> hasElement ''segment'' (childNodes e3) then STATE_FINAL else STATE_NEW)"
    and h3: "hasElement ''segment'' (childNodes e3)
              \<longleftrightarrow> hasElement ''segment'' (removeFirst ''target'' (childNodes bareUnit2))
                  \<or> hasElement ''segment'' ?W"
    by blast
  have e: "targetContent plainHelpers
        (snd (xliff2_useSourceAsTarget plainHelpers bracketFile True False bareUnit2)) = Some ''[[ Hello ]]''
     \<and> xliff2_targetState
        (snd (xliff2_useSourceAsTarget plainHelpers bracketFile True False bareUnit2)) = STATE_NEW"
    using r3 c3 s3 h3 rb np bareUnit2_no_segment_left X by simp
  from t4 [unfolded Let_def] obtain e4 where
    r4: "xliff2_useSourceAsTarget plainHelpers bracketFile True False looseUnit2 = (None, e4)"
    and c4: "readsBack plainHelpers ?X
         \<and> (precedes ''segment'' ''target'' (childNodes e4) \<or> \<not> hasElement ''segment'' ?W)
         \<longrightarrow> targetContent plainHelpers e4 = Some ?X"
    and s4: "xliff2_targetState e4
              = (if True \<and> hasElement ''segment'' (childNodes e4) then STATE_FINAL else STATE_NEW)"
    and h4: "hasElement ''segment'' (childNodes e4)
              \<longleftrightarrow> hasElement ''segment'' (removeFirst ''target'' (childNodes looseUnit2))
                  \<or> hasElement ''segment'' ?W"
    by blast
  have f: "targetContent plainHelpers
        (snd (xliff2_useSourceAsTarget plainHelpers bracketFile True False looseUnit2)) = Some ''[[ Hello ]]''
     \<and> xliff2_targetState
        (snd (xliff2_useSourceAsTarget plainHelpers bracketFile True False looseUnit2)) = STATE_FINAL"
    using r4 c4 s4 h4 rb np looseUnit2_segment(1) X by simp
  from a b c d e f helloUnit_source(1) hello_not_ICU segmentFirst_helloUnit2 bareUnit2_no_segment
    looseUnit2_source
  show ?thesis by blast
qed

text \<open>
  C3, as stated, fails for XLIFF 2.0: \<^verbatim>\<open>useSourceAsTarget\<close> writes the state only
  \<^verbatim>\<open>if (segment)\<close>. The unit \<^verbatim>\<open><unit id="1"><source>Hello</source></unit>\<close> has no segment
  element; its source is no ICU message; after \<^verbatim>\<open>useSourceAsTarget(true, false)\<close> its state is
  not FINAL.
\<close>

theorem C3_state_without_segment:
  "\<not> isICUMessage plainHelpers (sourceContent plainHelpers bareUnit2)
   \<and> xliff2_targetState
        (snd (xliff2_useSourceAsTarget plainHelpers bracketFile True False bareUnit2)) \<noteq> STATE_FINAL"
  by (simp add: bareUnit2_def plainHelpers_def bracketFile_def plainParse_def
      sourceContent_def getFirstElementByTagName_def getElementsByTagName_def
      xliff2_useSourceAsTarget_def xliff2_targetOrCreate_def createElement_def onFirst_def
      hasElement_def jsString_def xliff2_targetState_def xliff2_nativeTargetState_def
      xliff2_mapNativeStateToState_def STATE_distinct)

text \<open>
  C2, as stated, fails: the ICU test is inside the branch for
  \<^verbatim>\<open>isDefaultLang || copyContent\<close>. With both flags false the target of a unit whose source
  is an ICU message is the empty string, not the source content.
\<close>

theorem C2_ICU_not_copied_when_both_flags_false:
  "isICUMessage plainHelpers (sourceContent plainHelpers icuUnit)
   \<and> targetContent plainHelpers
        (snd (xliff_useSourceAsTarget plainHelpers bracketFile False False icuUnit))
       \<noteq> sourceContent plainHelpers icuUnit"
  by (simp add: icuUnit_def plainHelpers_def bracketFile_def plainParse_def
      sourceContent_def targetContent_def getFirstElementByTagName_def getElementsByTagName_def
      xliff_useSourceAsTarget_def xliff_targetOrCreate_def createElement_def onFirst_def
      hasElement_def xliff_mapStateToNativeState_def STATE_distinct)

text \<open>
  C2, amended: for every trans-unit whose source content \<open>s\<close> is recognized as an ICU
  message, \<^verbatim>\<open>useSourceAsTarget\<close> returns without an error and writes \<open>s\<close> itself, with no
  prefix and no suffix, as the content of the target when \<open>isDefaultLang\<close> or
  \<open>copyContent\<close> is true; when both are false it writes the empty string. The target
  element's children are the parse of that string, and \<^verbatim>\<open>targetContent()\<close> is that string
  whenever the XML library reads it back. One case is apart in XLIFF 2.0, where the state
  is written on the unit's first segment element after the target is written: when no
  segment element comes before the target and the written content itself holds a segment
  element, that element, inside the target, gets the state attribute. A unit whose segment
  element comes before its source and target has it before the target afterwards.
\<close>

theorem C2_useSourceAsTarget_ICU:
  assumes src: "sourceContent lib el = Some s"
    and icu: "isICUMessage lib (Some s)"
  shows
    "let X = (if d \<or> c then s else []);
         W = parseXMLContent lib (Some X)
     in (\<exists>el'. xliff_useSourceAsTarget lib file d c el = (None, el')
            \<and> targetNodes el' = Some W
            \<and> (readsBack lib X \<longrightarrow> targetContent lib el' = Some X))
      \<and> (\<exists>el'. xliff2_useSourceAsTarget lib file d c el = (None, el')
            \<and> targetNodes el'
                = Some (if precedes ''segment'' ''target'' (childNodes el') \<or> \<not> hasElement ''segment'' W
                        then W
                        else updateFirst ''segment''
                               (setAttribute ''state'' (if d then ''final'' else ''initial'')) W)
            \<and> (readsBack lib X
                 \<and> (precedes ''segment'' ''target'' (childNodes el') \<or> \<not> hasElement ''segment'' W)
                \<longrightarrow> targetContent lib el' = Some X)
            \<and> (segmentFirst el \<longrightarrow> precedes ''segment'' ''target'' (childNodes el')))"
proof -
  let ?X = "if d \<or> c then s else []"
  let ?W = "parseXMLContent lib (Some ?X)"
  let ?st = "if d then ''final'' else ''initial''"
  have hs: "hasElement ''source'' (childNodes el) \<or> hasElement ''target'' (childNodes el)"
    using src by (simp add: sourceContent_hasElement)
  have X: "newTargetString lib file d c (sourceContent lib el) = Some ?X"
    using src icu by (simp add: newTargetString_def)
  have A: "\<exists>el'. xliff_useSourceAsTarget lib file d c el = (None, el')
            \<and> targetNodes el' = Some ?W
            \<and> (readsBack lib ?X \<longrightarrow> targetContent lib el' = Some ?X)"
    using xliff_useSourceAsTarget_result [OF hs, of lib "file" d c] unfolding X
    by (auto simp: targetContent_readsBack)
  define el' where "el' = xliff2_setNativeTargetState ?st (xliff2_targetWritten ?W el)"
  note w = xliff2_written_state [OF hs, where W = ?W and st = ?st, folded el'_def]
  have r: "xliff2_useSourceAsTarget lib file d c el = (None, el')"
    using xliff2_useSourceAsTarget_exact [OF hs, of lib "file" d c] unfolding X el'_def .
  have tc: "targetContent lib el' = Some ?X"
    if "readsBack lib ?X \<and> (precedes ''segment'' ''target'' (childNodes el') \<or> \<not> hasElement ''segment'' ?W)"
    using that w(1) by (intro targetContent_readsBack) auto
  have B: "\<exists>el'. xliff2_useSourceAsTarget lib file d c el = (None, el')
            \<and> targetNodes el'
                = Some (if precedes ''segment'' ''target'' (childNodes el') \<or> \<not> hasElement ''segment'' ?W
                        then ?W
                        else updateFirst ''segment'' (setAttribute ''state'' ?st) ?W)
            \<and> (readsBack lib ?X
                 \<and> (precedes ''segment'' ''target'' (childNodes el') \<or> \<not> hasElement ''segment'' ?W)
                \<longrightarrow> targetContent lib el' = Some ?X)
            \<and> (segmentFirst el \<longrightarrow> precedes ''segment'' ''target'' (childNodes el'))"
    using r w(1) tc w(4) by blast
  from A B show ?thesis unfolding Let_def by blast
qed

lemma icuUnit_source:
  "sourceContent plainHelpers icuUnit = Some ''{n, plural, =0 {none} other {some}}''"
  "sourceContent plainHelpers icuUnit2 = Some ''{n, plural, =0 {none} other {some}}''"
  by (simp_all add: sourceContent_def getFirstElementByTagName_def getElementsByTagName_def
      icuUnit_def icuUnit2_def plainHelpers_def)

lemma icuBareUnit2_source:
  "sourceContent plainHelpers icuBareUnit2 = Some ''{n, plural, =0 {none} other {some}}''"
  by (simp add: sourceContent_def getFirstElementByTagName_def getElementsByTagName_def
      icuBareUnit2_def plainHelpers_def)

lemma plural_is_ICU: "isICUMessage plainHelpers (Some ''{n, plural, =0 {none} other {some}}'')"
  by (simp add: plainHelpers_def)

lemma segmentFirst_icuUnit2: "segmentFirst icuUnit2"
  by (simp add: segmentFirst_def precedes_def icuUnit2_def)

theorem C2_useSourceAsTarget_ICU_witness:
  "sourceContent plainHelpers icuUnit = Some ''{n, plural, =0 {none} other {some}}''
   \<and> isICUMessage plainHelpers (Some ''{n, plural, =0 {none} other {some}}'')
   \<and> targetContent plainHelpers
        (snd (xliff_useSourceAsTarget plainHelpers bracketFile False True icuUnit))
       = Some ''{n, plural, =0 {none} other {some}}''
   \<and> targetContent plainHelpers
        (snd (xliff_useSourceAsTarget plainHelpers bracketFile True False icuUnit))
       = Some ''{n, plural, =0 {none} other {some}}''
   \<and> targetContent plainHelpers
        (snd (xliff_useSourceAsTarget plainHelpers bracketFile False False icuUnit)) = Some []
   \<and> segmentFirst icuUnit2
   \<and> targetContent plainHelpers
        (snd (xliff2_useSourceAsTarget plainHelpers bracketFile False True icuUnit2))
       = Some ''{n, plural, =0 {none} other {some}}''
   \<and> targetContent plainHelpers
        (snd (xliff2_useSourceAsTarget plainHelpers bracketFile False False icuUnit2)) = Some []
   \<and> getFirstElementByTagName icuBareUnit2 ''segment'' = None
   \<and> targetContent plainHelpers
        (snd (xliff2_useSourceAsTarget plainHelpers bracketFile False True icuBareUnit2))
       = Some ''{n, plural, =0 {none} other {some}}''"
proof -
  note rb = readsBack_plainHelpers
  note np = plainParse_no_elements
  note t1 = C2_useSourceAsTarget_ICU [OF icuUnit_source(1) plural_is_ICU, of _ _ bracketFile]
  note t2 = C2_useSourceAsTarget_ICU [OF icuUnit_source(2) plural_is_ICU, of _ _ bracketFile]
  have a: "targetContent plainHelpers
        (snd (xliff_useSourceAsTarget plainHelpers bracketFile False True icuUnit))
       = Some ''{n, plural, =0 {none} other {some}}''"
    using t1 [of False True] rb by (auto simp: Let_def)
  have b: "targetContent plainHelpers
        (snd (xliff_useSourceAsTarget plainHelpers bracketFile True False icuUnit))
       = Some ''{n, plural, =0 {none} other {some}}''"
    using t1 [of True False] rb by (auto simp: Let_def)
  have c: "targetContent plainHelpers
        (snd (xliff_useSourceAsTarget plainHelpers bracketFile False False icuUnit)) = Some []"
    using t1 [of False False] rb by (auto simp: Let_def)
  let ?s = "''{n, plural, =0 {none} other {some}}''"
  from t2 [of False True, unfolded Let_def] obtain e2 where
    r2: "xliff2_useSourceAsTarget plainHelpers bracketFile False True icuUnit2 = (None, e2)"
    and c2: "readsBack plainHelpers (if False \<or> True then ?s else [])
         \<and> (precedes ''segment'' ''target'' (childNodes e2)
              \<or> \<not> hasElement ''segment''
                    (parseXMLContent plainHelpers (Some (if False \<or> True then ?s else []))))
         \<longrightarrow> targetContent plainHelpers e2 = Some (if False \<or> True then ?s else [])"
    by blast
  have d: "targetContent plainHelpers
        (snd (xliff2_useSourceAsTarget plainHelpers bracketFile False True icuUnit2))
       = Some ''{n, plural, =0 {none} other {some}}''"
    using r2 c2 rb np by simp
  from t2 [of False False, unfolded Let_def] obtain e3 where
    r3: "xliff2_useSourceAsTarget plainHelpers bracketFile False False icuUnit2 = (None, e3)"
    and c3: "readsBack plainHelpers (if False \<or> False then ?s else [])
         \<and> (precedes ''segment'' ''target'' (childNodes e3)
              \<or> \<not> hasElement ''segment''
                    (parseXMLContent plainHelpers (Some (if False \<or> False then ?s else []))))
         \<longrightarrow> targetContent plainHelpers e3 = Some (if False \<or> False then ?s else [])"
    by blast
  have e: "targetContent plainHelpers
        (snd (xliff2_useSourceAsTarget plainHelpers bracketFile False False icuUnit2)) = Some []"
    using r3 c3 rb np by simp
  note t3 = C2_useSourceAsTarget_ICU [OF icuBareUnit2_source plural_is_ICU, of _ _ bracketFile]
  from t3 [of False True, unfolded Let_def] obtain e4 where
    r4: "xliff2_useSourceAsTarget plainHelpers bracketFile False True icuBareUnit2 = (None, e4)"
    and c4: "readsBack plainHelpers (if False \<or> True then ?s else [])
         \<and> (precedes ''segment'' ''target'' (childNodes e4)
              \<or> \<not> hasElement ''segment''
                    (parseXMLContent plainHelpers (Some (if False \<or> True then ?s else []))))
         \<longrightarrow> targetContent plainHelpers e4 = Some (if False \<or> True then ?s else [])"
    by blast
  have f: "targetContent plainHelpers
        (snd (xliff2_useSourceAsTarget plainHelpers bracketFile False True icuBareUnit2))
       = Some ''{n, plural, =0 {none} other {some}}''"
    using r4 c4 rb np by simp
  have g: "getFirstElementByTagName icuBareUnit2 ''segment'' = None"
    by (simp add: getFirstElementByTagName_def getElementsByTagName_def icuBareUnit2_def)
  from a b c d e f g icuUnit_source(1) plural_is_ICU segmentFirst_icuUnit2
  show ?thesis by blast
qed

text \<open>
  C8, as stated, fails for XLIFF 2.0: \<^verbatim>\<open>translateNative\<close> appends the new target to the
  parent of the source and creates no segment element, and \<^verbatim>\<open>setNativeTargetState\<close> stores
  the state only \<^verbatim>\<open>if (segmentElement)\<close>. After translating the unit
  \<^verbatim>\<open><unit id="1"><source>Hello</source></unit>\<close> there is still no segment element and the
  state is not TRANSLATED.
\<close>

theorem C8_no_segment_created_and_state_not_TRANSLATED:
  "fst (xliff2_translateNative plainHelpers ''Hallo'' bareUnit2) = None
   \<and> getFirstElementByTagName (snd (xliff2_translateNative plainHelpers ''Hallo'' bareUnit2)) ''segment''
       = None
   \<and> xliff2_targetState (snd (xliff2_translateNative plainHelpers ''Hallo'' bareUnit2))
       \<noteq> STATE_TRANSLATED"
  by (simp add: bareUnit2_def plainHelpers_def plainParse_def
      getFirstElementByTagName_def getElementsByTagName_def
      xliff2_translateNative_def xliff2_targetOrCreate_def createElement_def onFirst_def
      hasElement_def xliff2_setTargetState_def xliff2_setNativeTargetState_def
      xliff2_mapStateToNativeState_def xliff2_targetState_def xliff2_nativeTargetState_def
      xliff2_mapNativeStateToState_def STATE_distinct)

text \<open>
  C8, amended: for every trans-unit that has a source or a target element,
  \<^verbatim>\<open>translateNative(translation)\<close> (what \<^verbatim>\<open>translate\<close> does with a native string) returns
  without an error and leaves the unit changed in this way and no other. The content of
  the target element is the translation; a missing target element is created first, in
  XLIFF 1.2 directly after the source element, in XLIFF 2.0 as the last child of the
  parent of the source element. XLIFF 1.2 sets the state attribute of the target to
  \<open>translated\<close>, and the state is afterwards TRANSLATED. XLIFF 2.0 sets the state
  attribute of the unit's first segment element, if the unit then has a segment element,
  and writes no state otherwise; it creates no segment element. The state is afterwards
  TRANSLATED if the unit has a segment element and NEW otherwise; it has one exactly when
  it had one outside its target element before or the translation holds one, and a unit
  whose segment element comes before its source and target has one, before the target.
  One case is apart in XLIFF 2.0: when no segment element comes before the target and the
  translation itself holds a segment element, the state is written on that element,
  inside the target.
\<close>

theorem C8_translateNative:
  assumes "getFirstElementByTagName el ''source'' \<noteq> None
           \<or> getFirstElementByTagName el ''target'' \<noteq> None"
  shows
    "let W = parseXMLContent lib (Some translation)
     in (\<exists>el'. xliff_translateNative lib translation el = (None, el')
          \<and> el' = xliff_targetWritten ''translated'' W el
          \<and> targetNodes el' = Some W
          \<and> (readsBack lib translation \<longrightarrow> targetContent lib el' = Some translation)
          \<and> xliff_targetState el' = STATE_TRANSLATED)
      \<and> (\<exists>el'. xliff2_translateNative lib translation el = (None, el')
          \<and> el' = xliff2_setNativeTargetState ''translated'' (xliff2_targetWritten W el)
          \<and> targetNodes el'
              = Some (if precedes ''segment'' ''target'' (childNodes el') \<or> \<not> hasElement ''segment'' W
                      then W
                      else updateFirst ''segment'' (setAttribute ''state'' ''translated'') W)
          \<and> (readsBack lib translation
               \<and> (precedes ''segment'' ''target'' (childNodes el') \<or> \<not> hasElement ''segment'' W)
              \<longrightarrow> targetContent lib el' = Some translation)
          \<and> xliff2_targetState el'
              = (if hasElement ''segment'' (childNodes el') then STATE_TRANSLATED else STATE_NEW)
          \<and> (hasElement ''segment'' (childNodes el')
               \<longleftrightarrow> hasElement ''segment'' (removeFirst ''target'' (childNodes el))
                   \<or> hasElement ''segment'' W)
          \<and> (\<not> hasElement ''segment'' (childNodes el) \<and> \<not> hasElement ''segment'' W
              \<longrightarrow> \<not> hasElement ''segment'' (childNodes el'))
          \<and> (segmentFirst el \<longrightarrow>
               precedes ''segment'' ''target'' (childNodes el')
               \<and> xliff2_targetState el' = STATE_TRANSLATED))"
proof -
  let ?W = "parseXMLContent lib (Some translation)"
  have hs: "hasElement ''source'' (childNodes el) \<or> hasElement ''target'' (childNodes el)"
    using assms unfolding getFirst_hasElement .
  have A: "\<exists>el'. xliff_translateNative lib translation el = (None, el')
        \<and> el' = xliff_targetWritten ''translated'' ?W el
        \<and> targetNodes el' = Some ?W
        \<and> (readsBack lib translation \<longrightarrow> targetContent lib el' = Some translation)
        \<and> xliff_targetState el' = STATE_TRANSLATED"
    using xliff_translateNative_result [OF hs, of lib translation]
      xliff_translateNative_exact [OF hs, of lib translation]
    by (auto simp: targetContent_readsBack xliff_targetState_native)
  define el' where "el' = xliff2_setNativeTargetState ''translated'' (xliff2_targetWritten ?W el)"
  note w = xliff2_written_state [OF hs, where W = ?W and st = "''translated''", folded el'_def]
  have r: "xliff2_translateNative lib translation el = (None, el')"
    using xliff2_translateNative_exact [OF hs, of lib translation] unfolding el'_def .
  have st: "xliff2_targetState el'
              = (if hasElement ''segment'' (childNodes el') then STATE_TRANSLATED else STATE_NEW)"
    using xliff2_targetState_written [OF w(2)] by (auto simp: STATE_distinct)
  have tc: "targetContent lib el' = Some translation"
    if "readsBack lib translation
        \<and> (precedes ''segment'' ''target'' (childNodes el') \<or> \<not> hasElement ''segment'' ?W)"
    using that w(1) by (intro targetContent_readsBack) auto
  have nw: "\<not> hasElement ''segment'' (childNodes el')"
    if "\<not> hasElement ''segment'' (childNodes el) \<and> \<not> hasElement ''segment'' ?W"
    using that w(3) hasElement_removeFirst [of "''segment''" "''target''" "childNodes el"] by blast
  have sf: "precedes ''segment'' ''target'' (childNodes el')
            \<and> xliff2_targetState el' = STATE_TRANSLATED"
    if "segmentFirst el"
    using w(4) [OF that] st precedes_hasElement [of "''segment''" "''target''" "childNodes el'"]
    by auto
  have B: "\<exists>el'. xliff2_translateNative lib translation el = (None, el')
          \<and> el' = xliff2_setNativeTargetState ''translated'' (xliff2_targetWritten ?W el)
          \<and> targetNodes el'
              = Some (if precedes ''segment'' ''target'' (childNodes el') \<or> \<not> hasElement ''segment'' ?W
                      then ?W
                      else updateFirst ''segment'' (setAttribute ''state'' ''translated'') ?W)
          \<and> (readsBack lib translation
               \<and> (precedes ''segment'' ''target'' (childNodes el') \<or> \<not> hasElement ''segment'' ?W)
              \<longrightarrow> targetContent lib el' = Some translation)
          \<and> xliff2_targetState el'
              = (if hasElement ''segment'' (childNodes el') then STATE_TRANSLATED else STATE_NEW)
          \<and> (hasElement ''segment'' (childNodes el')
               \<longleftrightarrow> hasElement ''segment'' (removeFirst ''target'' (childNodes el))
                   \<or> hasElement ''segment'' ?W)
          \<and> (\<not> hasElement ''segment'' (childNodes el) \<and> \<not> hasElement ''segment'' ?W
              \<longrightarrow> \<not> hasElement ''segment'' (childNodes el'))
          \<and> (segmentFirst el \<longrightarrow>
               precedes ''segment'' ''target'' (childNodes el')
               \<and> xliff2_targetState el' = STATE_TRANSLATED)"
    using r el'_def w(1) tc st w(3) nw sf by blast
  from A B show ?thesis unfolding Let_def by blast
qed

lemma helloUnit_has_source:
  "getFirstElementByTagName helloUnit ''source'' \<noteq> None
   \<or> getFirstElementByTagName helloUnit ''target'' \<noteq> None"
  "getFirstElementByTagName helloUnit2 ''source'' \<noteq> None
   \<or> getFirstElementByTagName helloUnit2 ''target'' \<noteq> None"
  "getFirstElementByTagName bareUnit2 ''source'' \<noteq> None
   \<or> getFirstElementByTagName bareUnit2 ''target'' \<noteq> None"
  by (simp_all add: getFirstElementByTagName_def getElementsByTagName_def
      helloUnit_def helloUnit2_def bareUnit2_def)

lemma looseUnit2_has_source:
  "getFirstElementByTagName looseUnit2 ''source'' \<noteq> None
   \<or> getFirstElementByTagName looseUnit2 ''target'' \<noteq> None"
  by (simp add: getFirstElementByTagName_def getElementsByTagName_def looseUnit2_def)

lemma bareUnit2_no_segment_at_all: "\<not> hasElement ''segment'' (childNodes bareUnit2)"
  by (simp add: bareUnit2_def)

theorem C8_translateNative_witness:
  "getFirstElementByTagName helloUnit ''source'' \<noteq> None
   \<and> snd (xliff_translateNative plainHelpers ''Hallo'' helloUnit)
       = Element ''trans-unit'' [(''id'', ''1'')]
           [Element ''source'' [] [TextNode ''Hello''],
            Element ''target'' [(''state'', ''translated'')] [TextNode ''Hallo'']]
   \<and> targetContent plainHelpers (snd (xliff_translateNative plainHelpers ''Hallo'' helloUnit))
       = Some ''Hallo''
   \<and> xliff_targetState (snd (xliff_translateNative plainHelpers ''Hallo'' helloUnit))
       = STATE_TRANSLATED
   \<and> segmentFirst helloUnit2
   \<and> snd (xliff2_translateNative plainHelpers ''Hallo'' helloUnit2)
       = Element ''unit'' [(''id'', ''1'')]
           [Element ''segment'' [(''state'', ''translated'')]
              [Element ''source'' [] [TextNode ''Hello''],
               Element ''target'' [] [TextNode ''Hallo'']]]
   \<and> targetContent plainHelpers (snd (xliff2_translateNative plainHelpers ''Hallo'' helloUnit2))
       = Some ''Hallo''
   \<and> xliff2_targetState (snd (xliff2_translateNative plainHelpers ''Hallo'' helloUnit2))
       = STATE_TRANSLATED
   \<and> getFirstElementByTagName bareUnit2 ''segment'' = None
   \<and> snd (xliff2_translateNative plainHelpers ''Hallo'' bareUnit2)
       = Element ''unit'' [(''id'', ''1'')]
           [Element ''source'' [] [TextNode ''Hello''],
            Element ''target'' [] [TextNode ''Hallo'']]
   \<and> targetContent plainHelpers (snd (xliff2_translateNative plainHelpers ''Hallo'' bareUnit2))
       = Some ''Hallo''
   \<and> xliff2_targetState (snd (xliff2_translateNative plainHelpers ''Hallo'' bareUnit2))
       = STATE_NEW
   \<and> snd (xliff2_translateNative plainHelpers ''Hallo'' looseUnit2)
       = Element ''unit'' [(''id'', ''1'')]
           [Element ''source'' [] [TextNode ''Hello''],
            Element ''segment'' [(''state'', ''translated'')] [],
            Element ''target'' [] [TextNode ''Hallo'']]
   \<and> xliff2_targetState (snd (xliff2_translateNative plainHelpers ''Hallo'' looseUnit2))
       = STATE_TRANSLATED"
proof -
  note rb = readsBack_plainHelpers
  note np = plainParse_no_elements
  let ?W = "parseXMLContent plainHelpers (Some ''Hallo'')"
  have W: "?W = [TextNode ''Hallo'']" by (simp add: plainHelpers_def plainParse_def)
  note t1 = C8_translateNative [OF helloUnit_has_source(1), of plainHelpers "''Hallo''", unfolded Let_def]
  note t2 = C8_translateNative [OF helloUnit_has_source(2), of plainHelpers "''Hallo''", unfolded Let_def]
  note t3 = C8_translateNative [OF helloUnit_has_source(3), of plainHelpers "''Hallo''", unfolded Let_def]
  note t4 = C8_translateNative [OF looseUnit2_has_source, of plainHelpers "''Hallo''", unfolded Let_def]
  from t1 obtain e1 where
    r1: "xliff_translateNative plainHelpers ''Hallo'' helloUnit = (None, e1)"
    and x1: "e1 = xliff_targetWritten ''translated'' ?W helloUnit"
    and c1: "readsBack plainHelpers ''Hallo'' \<longrightarrow> targetContent plainHelpers e1 = Some ''Hallo''"
    and s1: "xliff_targetState e1 = STATE_TRANSLATED"
    by blast
  have a: "snd (xliff_translateNative plainHelpers ''Hallo'' helloUnit)
       = Element ''trans-unit'' [(''id'', ''1'')]
           [Element ''source'' [] [TextNode ''Hello''],
            Element ''target'' [(''state'', ''translated'')] [TextNode ''Hallo'']]
     \<and> targetContent plainHelpers (snd (xliff_translateNative plainHelpers ''Hallo'' helloUnit))
       = Some ''Hallo''
     \<and> xliff_targetState (snd (xliff_translateNative plainHelpers ''Hallo'' helloUnit))
       = STATE_TRANSLATED"
    using r1 x1 c1 s1 rb
    by (simp add: W xliff_targetWritten_def helloUnit_def)
  from t2 obtain e2 where
    r2: "xliff2_translateNative plainHelpers ''Hallo'' helloUnit2 = (None, e2)"
    and x2: "e2 = xliff2_setNativeTargetState ''translated'' (xliff2_targetWritten ?W helloUnit2)"
    and c2: "readsBack plainHelpers ''Hallo''
         \<and> (precedes ''segment'' ''target'' (childNodes e2) \<or> \<not> hasElement ''segment'' ?W)
         \<longrightarrow> targetContent plainHelpers e2 = Some ''Hallo''"
    and s2: "segmentFirst helloUnit2 \<longrightarrow>
         precedes ''segment'' ''target'' (childNodes e2) \<and> xliff2_targetState e2 = STATE_TRANSLATED"
    by blast
  have b: "snd (xliff2_translateNative plainHelpers ''Hallo'' helloUnit2)
       = Element ''unit'' [(''id'', ''1'')]
           [Element ''segment'' [(''state'', ''translated'')]
              [Element ''source'' [] [TextNode ''Hello''],
               Element ''target'' [] [TextNode ''Hallo'']]]
     \<and> targetContent plainHelpers (snd (xliff2_translateNative plainHelpers ''Hallo'' helloUnit2))
       = Some ''Hallo''
     \<and> xliff2_targetState (snd (xliff2_translateNative plainHelpers ''Hallo'' helloUnit2))
       = STATE_TRANSLATED"
    using r2 x2 c2 s2 rb np segmentFirst_helloUnit2
    by (simp add: W xliff2_targetWritten_def xliff2_setNativeTargetState_def helloUnit2_def
          getFirstElementByTagName_def getElementsByTagName_def onFirst_def)
  from t3 obtain e3 where
    r3: "xliff2_translateNative plainHelpers ''Hallo'' bareUnit2 = (None, e3)"
    and x3: "e3 = xliff2_setNativeTargetState ''translated'' (xliff2_targetWritten ?W bareUnit2)"
    and c3: "readsBack plainHelpers ''Hallo''
         \<and> (precedes ''segment'' ''target'' (childNodes e3) \<or> \<not> hasElement ''segment'' ?W)
         \<longrightarrow> targetContent plainHelpers e3 = Some ''Hallo''"
    and s3: "xliff2_targetState e3
              = (if hasElement ''segment'' (childNodes e3) then STATE_TRANSLATED else STATE_NEW)"
    and h3: "\<not> hasElement ''segment'' (childNodes bareUnit2) \<and> \<not> hasElement ''segment'' ?W
              \<longrightarrow> \<not> hasElement ''segment'' (childNodes e3)"
    by blast
  have c: "snd (xliff2_translateNative plainHelpers ''Hallo'' bareUnit2)
       = Element ''unit'' [(''id'', ''1'')]
           [Element ''source'' [] [TextNode ''Hello''],
            Element ''target'' [] [TextNode ''Hallo'']]
     \<and> targetContent plainHelpers (snd (xliff2_translateNative plainHelpers ''Hallo'' bareUnit2))
       = Some ''Hallo''
     \<and> xliff2_targetState (snd (xliff2_translateNative plainHelpers ''Hallo'' bareUnit2))
       = STATE_NEW"
    using r3 x3 c3 s3 h3 rb np bareUnit2_no_segment_at_all
    by (simp add: W xliff2_targetWritten_def xliff2_setNativeTargetState_def bareUnit2_def
          getFirstElementByTagName_def getElementsByTagName_def onFirst_def)
  from t4 obtain e4 where
    r4: "xliff2_translateNative plainHelpers ''Hallo'' looseUnit2 = (None, e4)"
    and x4: "e4 = xliff2_setNativeTargetState ''translated'' (xliff2_targetWritten ?W looseUnit2)"
    and s4: "xliff2_targetState e4
              = (if hasElement ''segment'' (childNodes e4) then STATE_TRANSLATED else STATE_NEW)"
    and h4: "hasElement ''segment'' (childNodes e4)
              \<longleftrightarrow> hasElement ''segment'' (removeFirst ''target'' (childNodes looseUnit2))
                  \<or> hasElement ''segment'' ?W"
    by blast
  have d: "snd (xliff2_translateNative plainHelpers ''Hallo'' looseUnit2)
       = Element ''unit'' [(''id'', ''1'')]
           [Element ''source'' [] [TextNode ''Hello''],
            Element ''segment'' [(''state'', ''translated'')] [],
            Element ''target'' [] [TextNode ''Hallo'']]
     \<and> xliff2_targetState (snd (xliff2_translateNative plainHelpers ''Hallo'' looseUnit2))
       = STATE_TRANSLATED"
    using r4 x4 s4 h4 looseUnit2_segment(1)
    by (simp add: W xliff2_targetWritten_def xliff2_setNativeTargetState_def looseUnit2_def
          getFirstElementByTagName_def getElementsByTagName_def onFirst_def)
  have s: "getFirstElementByTagName helloUnit ''source'' \<noteq> None"
    by (simp add: getFirstElementByTagName_def getElementsByTagName_def helloUnit_def)
  from a b c d s segmentFirst_helloUnit2 bareUnit2_no_segment
  show ?thesis by blast
qed

subsection \<open>Cloning a unit\<close>

lemma xliff_useSourceAsTarget_no_error:
  assumes "hasElement ''source'' (childNodes el) \<or> hasElement ''target'' (childNodes el)"
  shows "fst (xliff_useSourceAsTarget lib file d c el) = None"
  using xliff_useSourceAsTarget_result [OF assms, of lib "file" d c] by auto

lemma xliff2_useSourceAsTarget_no_error:
  assumes "hasElement ''source'' (childNodes el) \<or> hasElement ''target'' (childNodes el)"
  shows "fst (xliff2_useSourceAsTarget lib file d c el) = None"
proof -
  obtain n a cs where el: "el = Element n a cs"
    using assms by (cases el) (auto)
  with assms obtain cs1 where
    1: "xliff2_targetOrCreate el = (None, Element n a cs1)"
    using xliff2_targetOrCreate_ok [of cs n a "''segment''"] by auto
  show ?thesis
    using 1
    by (cases d; cases c)
       (simp_all add: xliff2_useSourceAsTarget_def Let_def
          xliff2_mapStateToNativeState_def STATE_distinct split: option.splits)
qed

text \<open>
  C9: \<^verbatim>\<open>cloneWithSourceAsTarget(isDefaultLang, copyContent, targetFile)\<close> adds to the store one
  new element, which is a copy of the receiver's element with \<^verbatim>\<open>useSourceAsTarget\<close> applied
  to it (with the prefix and suffix of \<open>targetFile\<close>); the receiver's element and every
  other element of the store is what it was before, so every property read from the
  receiver is unchanged. It returns a unit for the new element with the receiver's id,
  unless \<^verbatim>\<open>useSourceAsTarget\<close> raises an error, which it does not for a unit that has a
  source element.
\<close>

theorem C9_cloneWithSourceAsTarget:
  assumes "unitElement this < length h"
  shows
    "(let r = xliff_cloneWithSourceAsTarget lib this d c targetFile h;
          u = xliff_useSourceAsTarget lib targetFile d c (h ! unitElement this);
          clone = \<lparr> unitElement = length h, unitId = unitId this, unitFile = targetFile \<rparr>
      in snd r = h @ [snd u]
         \<and> snd r ! unitElement this = h ! unitElement this
         \<and> (\<forall>a < length h. snd r ! a = h ! a)
         \<and> fst r = (case fst u of None \<Rightarrow> Inr clone | Some e \<Rightarrow> Inl e)
         \<and> (getFirstElementByTagName (h ! unitElement this) ''source'' \<noteq> None \<longrightarrow> fst r = Inr clone))
     \<and> (let r = xliff2_cloneWithSourceAsTarget lib this d c targetFile h;
          u = xliff2_useSourceAsTarget lib targetFile d c (h ! unitElement this);
          clone = \<lparr> unitElement = length h, unitId = unitId this, unitFile = targetFile \<rparr>
      in snd r = h @ [snd u]
         \<and> snd r ! unitElement this = h ! unitElement this
         \<and> (\<forall>a < length h. snd r ! a = h ! a)
         \<and> fst r = (case fst u of None \<Rightarrow> Inr clone | Some e \<Rightarrow> Inl e)
         \<and> (getFirstElementByTagName (h ! unitElement this) ''source'' \<noteq> None \<longrightarrow> fst r = Inr clone))"
proof -
  let ?el = "h ! unitElement this"
  have n1: "getFirstElementByTagName ?el ''source'' \<noteq> None \<longrightarrow>
      fst (xliff_useSourceAsTarget lib targetFile d c ?el) = None"
    using xliff_useSourceAsTarget_no_error [of ?el lib targetFile d c]
    unfolding getFirst_hasElement by blast
  have n2: "getFirstElementByTagName ?el ''source'' \<noteq> None \<longrightarrow>
      fst (xliff2_useSourceAsTarget lib targetFile d c ?el) = None"
    using xliff2_useSourceAsTarget_no_error [of ?el lib targetFile d c]
    unfolding getFirst_hasElement by blast
  have A: "let r = xliff_cloneWithSourceAsTarget lib this d c targetFile h;
          u = xliff_useSourceAsTarget lib targetFile d c ?el;
          clone = \<lparr> unitElement = length h, unitId = unitId this, unitFile = targetFile \<rparr>
      in snd r = h @ [snd u]
         \<and> snd r ! unitElement this = h ! unitElement this
         \<and> (\<forall>a < length h. snd r ! a = h ! a)
         \<and> fst r = (case fst u of None \<Rightarrow> Inr clone | Some e \<Rightarrow> Inl e)
         \<and> (getFirstElementByTagName ?el ''source'' \<noteq> None \<longrightarrow> fst r = Inr clone)"
    using assms n1
    by (cases "xliff_useSourceAsTarget lib targetFile d c ?el")
       (auto simp: xliff_cloneWithSourceAsTarget_def xliff_useSourceAsTarget_at_def Let_def
          nth_append split: option.splits)
  have B: "let r = xliff2_cloneWithSourceAsTarget lib this d c targetFile h;
          u = xliff2_useSourceAsTarget lib targetFile d c ?el;
          clone = \<lparr> unitElement = length h, unitId = unitId this, unitFile = targetFile \<rparr>
      in snd r = h @ [snd u]
         \<and> snd r ! unitElement this = h ! unitElement this
         \<and> (\<forall>a < length h. snd r ! a = h ! a)
         \<and> fst r = (case fst u of None \<Rightarrow> Inr clone | Some e \<Rightarrow> Inl e)
         \<and> (getFirstElementByTagName ?el ''source'' \<noteq> None \<longrightarrow> fst r = Inr clone)"
    using assms n2
    by (cases "xliff2_useSourceAsTarget lib targetFile d c ?el")
       (auto simp: xliff2_cloneWithSourceAsTarget_def xliff2_useSourceAsTarget_at_def Let_def
          nth_append split: option.splits)
  from A B show ?thesis by blast
qed

theorem C9_cloneWithSourceAsTarget_witness:
  "unitElement helloTransUnit < length [helloUnit]
   \<and> getFirstElementByTagName ([helloUnit] ! unitElement helloTransUnit) ''source'' \<noteq> None
   \<and> fst (xliff_cloneWithSourceAsTarget plainHelpers helloTransUnit False True bracketFile [helloUnit])
       = Inr \<lparr> unitElement = 1, unitId = ''1'', unitFile = bracketFile \<rparr>
   \<and> snd (xliff_cloneWithSourceAsTarget plainHelpers helloTransUnit False True bracketFile [helloUnit]) ! 0
       = helloUnit
   \<and> snd (xliff_cloneWithSourceAsTarget plainHelpers helloTransUnit False True bracketFile [helloUnit]) ! 1
       = snd (xliff_useSourceAsTarget plainHelpers bracketFile False True helloUnit)
   \<and> fst (xliff2_cloneWithSourceAsTarget plainHelpers helloTransUnit False True bracketFile [helloUnit2])
       = Inr \<lparr> unitElement = 1, unitId = ''1'', unitFile = bracketFile \<rparr>
   \<and> snd (xliff2_cloneWithSourceAsTarget plainHelpers helloTransUnit False True bracketFile [helloUnit2]) ! 0
       = helloUnit2"
proof -
  have v: "unitElement helloTransUnit < length [helloUnit]"
    "unitElement helloTransUnit < length [helloUnit2]"
    by (simp_all add: helloTransUnit_def)
  have s: "getFirstElementByTagName ([helloUnit] ! unitElement helloTransUnit) ''source'' \<noteq> None"
    "getFirstElementByTagName ([helloUnit2] ! unitElement helloTransUnit) ''source'' \<noteq> None"
    by (simp_all add: helloTransUnit_def helloUnit_def helloUnit2_def
        getFirstElementByTagName_def getElementsByTagName_def)
  have u: "unitElement helloTransUnit = 0" "unitId helloTransUnit = ''1''"
    by (simp_all add: helloTransUnit_def)
  note t1 = C9_cloneWithSourceAsTarget [OF v(1), of plainHelpers False True bracketFile, unfolded Let_def]
  note t2 = C9_cloneWithSourceAsTarget [OF v(2), of plainHelpers False True bracketFile, unfolded Let_def]
  from t1 s(1) have a1:
    "snd (xliff_cloneWithSourceAsTarget plainHelpers helloTransUnit False True bracketFile [helloUnit])
       = [helloUnit] @ [snd (xliff_useSourceAsTarget plainHelpers bracketFile False True
                               ([helloUnit] ! unitElement helloTransUnit))]"
    and a2: "fst (xliff_cloneWithSourceAsTarget plainHelpers helloTransUnit False True bracketFile [helloUnit])
       = Inr \<lparr> unitElement = length [helloUnit], unitId = unitId helloTransUnit, unitFile = bracketFile \<rparr>"
    by blast+
  from t2 s(2) have b1:
    "snd (xliff2_cloneWithSourceAsTarget plainHelpers helloTransUnit False True bracketFile [helloUnit2])
       = [helloUnit2] @ [snd (xliff2_useSourceAsTarget plainHelpers bracketFile False True
                               ([helloUnit2] ! unitElement helloTransUnit))]"
    and b2: "fst (xliff2_cloneWithSourceAsTarget plainHelpers helloTransUnit False True bracketFile [helloUnit2])
       = Inr \<lparr> unitElement = length [helloUnit2], unitId = unitId helloTransUnit, unitFile = bracketFile \<rparr>"
    by blast+
  have a: "fst (xliff_cloneWithSourceAsTarget plainHelpers helloTransUnit False True bracketFile [helloUnit])
       = Inr \<lparr> unitElement = 1, unitId = ''1'', unitFile = bracketFile \<rparr>
     \<and> snd (xliff_cloneWithSourceAsTarget plainHelpers helloTransUnit False True bracketFile [helloUnit]) ! 0
       = helloUnit
     \<and> snd (xliff_cloneWithSourceAsTarget plainHelpers helloTransUnit False True bracketFile [helloUnit]) ! 1
       = snd (xliff_useSourceAsTarget plainHelpers bracketFile False True helloUnit)"
    unfolding a1 a2 by (simp add: u)
  have b: "fst (xliff2_cloneWithSourceAsTarget plainHelpers helloTransUnit False True bracketFile [helloUnit2])
       = Inr \<lparr> unitElement = 1, unitId = ''1'', unitFile = bracketFile \<rparr>
     \<and> snd (xliff2_cloneWithSourceAsTarget plainHelpers helloTransUnit False True bracketFile [helloUnit2]) ! 0
       = helloUnit2"
    unfolding b1 b2 by (simp add: u)
  from v(1) s(1) a b show ?thesis by blast
qed

subsection \<open>Notes and source references\<close>

lemma descendantElements_Cons:
  "descendantElements (x # xs) = descendantElements [x] @ descendantElements xs"
  by (cases x) simp_all

lemma descendantElements_map:
  "descendantElements (map g ns) = concat (map (\<lambda>n. descendantElements [g n]) ns)"
proof (induction ns)
  case (Cons n ns)
  then show ?case using descendantElements_Cons [of "g n" "map g ns"] by simp
qed simp

lemma xliff_findAll_filter:
  "xliff_findAllAdditionalNoteElements el
     = filter xliff_isAdditionalNote (descendantElements (childNodes el))"
  by (auto simp: xliff_findAllAdditionalNoteElements_def getElementsByTagName_def
      xliff_isAdditionalNote_def intro: filter_cong)

lemma xliff2_findAll_filter:
  "xliff2_findAllAdditionalNoteElements el
     = filter xliff2_isAdditionalNote (descendantElements (childNodes el))"
  by (auto simp: xliff2_findAllAdditionalNoteElements_def getElementsByTagName_def
      xliff2_isAdditionalNote_def intro: filter_cong)

lemma removeEachChild_direct:
  assumes "list_all (\<lambda>c. filter P (descendantElements (childNodes c)) = []) cs"
  shows "removeEachChild P cs = Some (filter (\<lambda>c. \<not> P c) cs)"
  using assms by (induction cs) auto

lemma no_descendant_where:
  assumes "\<And>s. \<not> P (TextNode s)"
    and "list_all (\<lambda>c. \<not> P c \<and> filter P (descendantElements (childNodes c)) = []) cs"
  shows "filter P (descendantElements cs) = []"
  using assms(2)
proof (induction cs)
  case (Cons c cs)
  then show ?case by (cases c) auto
qed simp

lemma xliff_createNote_appendChild:
  "xliff_createNoteElementWithFromAttribute lib f c = appendChild (xliff_noteElement lib f c)"
  by (rule ext) (simp add: xliff_createNoteElementWithFromAttribute_def)

lemma fold_appendChild:
  "fold (\<lambda>x. appendChild (g x)) xs (Element n a cs) = Element n a (cs @ map g xs)"
  by (induction xs arbitrary: cs) simp_all

lemma xliff_setNotes_replaces:
  assumes "checkNotes ns = None" and "directNotes el" and "el = Element n a cs"
  shows "\<exists>el'. xliff_setNotes lib (Some ns) el = Some (None, el')
     \<and> xliff_findAllAdditionalNoteElements el'
        = filter xliff_isAdditionalNote
            (descendantElements (map (\<lambda>note. xliff_noteElement lib (noteFrom note) (noteText note)) ns))"
proof -
  let ?P = xliff_isAdditionalNote
  let ?g = "\<lambda>note. xliff_noteElement lib (noteFrom note) (noteText note)"
  let ?kept = "filter (\<lambda>c. \<not> ?P c) cs"
  have d: "list_all (\<lambda>c. filter ?P (descendantElements (childNodes c)) = []) cs"
    using assms(2,3) by (simp add: directNotes_def)
  then have rm: "removeEachChild ?P cs = Some ?kept"
    by (rule removeEachChild_direct)
  have r: "xliff_setNotes lib (Some ns) el = Some (None, Element n a (?kept @ map ?g ns))"
    using assms(1,3) rm
    by (simp add: xliff_setNotes_def xliff_removeAllAdditionalNoteElements_def
        xliff_createNote_appendChild fold_appendChild)
  have "list_all (\<lambda>c. \<not> ?P c \<and> filter ?P (descendantElements (childNodes c)) = []) ?kept"
    using d by (auto simp: list_all_iff)
  then have "filter ?P (descendantElements ?kept) = []"
    by (intro no_descendant_where) (simp_all add: xliff_isAdditionalNote_def)
  with r show ?thesis
    by (simp add: xliff_findAll_filter descendantElements_append)
qed

lemma removeWhere_none:
  assumes "labelBased P"
  shows "filter P (descendantElements (removeWhere P ns)) = []"
proof (induction ns rule: descendantElements.induct)
  case (3 n a cs ns)
  have "P (Element n a (removeWhere P cs)) = P (Element n a cs)"
    using assms by (auto simp: labelBased_def)
  with 3 show ?case by auto
qed simp_all

lemma removeFirst_none:
  assumes "labelBased P"
  shows "filter P (descendantElements ns) = [] \<Longrightarrow> filter P (descendantElements (removeFirst t ns)) = []"
proof (induction ns rule: descendantElements.induct)
  case (3 n a cs ns)
  have "P (Element n a (removeFirst t cs)) = P (Element n a cs)"
    using assms by (auto simp: labelBased_def)
  with 3 show ?case by (auto split: if_splits)
qed simp_all

lemma outsideFirst_subset: "set (outsideFirst t ns) \<subseteq> set (descendantElements ns)"
  by (induction ns rule: descendantElements.induct) auto

lemma outsideFirst_none:
  "filter P (descendantElements ns) = [] \<Longrightarrow> filter P (outsideFirst t ns) = []"
  using outsideFirst_subset [of t ns] by (auto simp: filter_empty_conv)

lemma outsideFirst_absent: "\<not> hasElement t ns \<Longrightarrow> outsideFirst t ns = descendantElements ns"
  by (induction ns rule: descendantElements.induct) auto

lemma outsideFirst_append_new:
  "\<not> hasElement t ns \<Longrightarrow> outsideFirst t (ns @ [Element t a c]) = descendantElements ns @ [Element t a c]"
  by (induction ns rule: descendantElements.induct) auto

lemma keepsTag_appendChild [simp]: "keepsTag (appendChild c)"
  by (simp add: keepsTag_def)

lemma filter_append_into_first:
  assumes "labelBased P"
  shows "hasElement t ns \<Longrightarrow> filter P (outsideFirst t ns) = [] \<Longrightarrow>
     filter P (descendantElements (updateFirst t (appendChild new) ns))
       = filter P (descendantElements ns) @ filter P (descendantElements [new])
     \<and> filter P (outsideFirst t (updateFirst t (appendChild new) ns)) = []"
proof (induction ns rule: descendantElements.induct)
  case (3 n a cs ns)
  have lb: "\<And>cs'. P (Element n a cs') = P (Element n a cs)"
    using assms by (auto simp: labelBased_def)
  show ?case
  proof (cases "n = t")
    case True
    with 3(4) lb show ?thesis
      by (auto simp: descendantElements_append split: if_splits)
  next
    case nt: False
    show ?thesis
    proof (cases "hasElement t cs")
      case True
      with nt 3(1,4) have "filter P (descendantElements (updateFirst t (appendChild new) cs))
         = filter P (descendantElements cs) @ filter P (descendantElements [new])
         \<and> filter P (outsideFirst t (updateFirst t (appendChild new) cs)) = []"
        by (auto split: if_splits)
      with True nt 3(4) lb show ?thesis
        by (auto simp: hasElement_updateFirst split: if_splits)
    next
      case False
      with nt 3(2,3,4) have "filter P (descendantElements (updateFirst t (appendChild new) ns))
         = filter P (descendantElements ns) @ filter P (descendantElements [new])
         \<and> filter P (outsideFirst t (updateFirst t (appendChild new) ns)) = []"
        by (auto split: if_splits)
      with False nt 3(4) show ?thesis by (auto split: if_splits)
    qed
  qed
qed simp_all

lemma labelBased_xliff2_isAdditionalNote [simp]: "labelBased xliff2_isAdditionalNote"
  by (simp add: labelBased_def xliff2_isAdditionalNote_def getAttribute_def)

lemma xliff2_createNote_step:
  assumes lb: "labelBased P" and nt: "\<And>a c. \<not> P (Element ''notes'' a c)"
    and inv: "filter P (outsideFirst ''notes'' cs) = []"
  shows "\<exists>cs'. xliff2_createNoteElementWithCategoryAttribute lib f c (Element n a cs) = Element n a cs'
     \<and> filter P (descendantElements cs')
        = filter P (descendantElements cs) @ filter P (descendantElements [xliff2_noteElement lib f c])
     \<and> filter P (outsideFirst ''notes'' cs') = []"
proof (cases "hasElement ''notes'' cs")
  case True
  then obtain N where "firstElement ''notes'' cs = Some N"
    by (auto simp: hasElement_firstElement)
  then have "xliff2_createNoteElementWithCategoryAttribute lib f c (Element n a cs)
      = Element n a (updateFirst ''notes'' (appendChild (xliff2_noteElement lib f c)) cs)"
    by (simp add: xliff2_createNoteElementWithCategoryAttribute_def getFirst_firstElement onFirst_def)
  with filter_append_into_first [OF lb True inv] show ?thesis by simp
next
  case False
  let ?cs1 = "cs @ [Element ''notes'' [] []]"
  from False have "firstElement ''notes'' cs = None"
    by (simp add: hasElement_firstElement)
  then have r: "xliff2_createNoteElementWithCategoryAttribute lib f c (Element n a cs)
      = Element n a (updateFirst ''notes'' (appendChild (xliff2_noteElement lib f c)) ?cs1)"
    by (simp add: xliff2_createNoteElementWithCategoryAttribute_def getFirst_firstElement onFirst_def
        createElement_def)
  have h1: "hasElement ''notes'' ?cs1"
    by (simp add: hasElement_tagsOf tagsOf_append)
  have all: "filter P (descendantElements cs) = []"
    using inv False by (simp add: outsideFirst_absent)
  have inv1: "filter P (outsideFirst ''notes'' ?cs1) = []"
    using False all nt by (simp add: outsideFirst_append_new)
  have d1: "filter P (descendantElements ?cs1) = filter P (descendantElements cs)"
    using nt by (simp add: descendantElements_append)
  from filter_append_into_first [OF lb h1 inv1] r d1 show ?thesis by simp
qed

lemma xliff2_createNote_fold:
  assumes lb: "labelBased P" and nt: "\<And>a c. \<not> P (Element ''notes'' a c)"
  shows "filter P (outsideFirst ''notes'' cs) = [] \<Longrightarrow>
     \<exists>cs'. fold (\<lambda>note. xliff2_createNoteElementWithCategoryAttribute lib (noteFrom note) (noteText note))
              ns (Element n a cs) = Element n a cs'
       \<and> filter P (descendantElements cs')
          = filter P (descendantElements cs)
            @ filter P (descendantElements
                 (map (\<lambda>note. xliff2_noteElement lib (noteFrom note) (noteText note)) ns))"
proof (induction ns arbitrary: cs)
  case Nil
  then show ?case by simp
next
  case (Cons x xs)
  from xliff2_createNote_step [OF lb nt Cons.prems, of lib "noteFrom x" "noteText x" n a]
  obtain cs1 where 1: "xliff2_createNoteElementWithCategoryAttribute lib (noteFrom x) (noteText x)
        (Element n a cs) = Element n a cs1"
    and 2: "filter P (descendantElements cs1)
        = filter P (descendantElements cs)
          @ filter P (descendantElements [xliff2_noteElement lib (noteFrom x) (noteText x)])"
    and 3: "filter P (outsideFirst ''notes'' cs1) = []"
    by blast
  from Cons.IH [OF 3] 1 2 show ?case
    using descendantElements_Cons [of "xliff2_noteElement lib (noteFrom x) (noteText x)"
        "map (\<lambda>note. xliff2_noteElement lib (noteFrom note) (noteText note)) xs"]
    by auto
qed

lemma xliff2_removeAll_none:
  "\<exists>cs1. xliff2_removeAllAdditionalNoteElements (Element n a cs) = Element n a cs1
     \<and> filter xliff2_isAdditionalNote (descendantElements cs1) = []"
proof -
  let ?cs0 = "removeWhere xliff2_isAdditionalNote cs"
  have 0: "filter xliff2_isAdditionalNote (descendantElements ?cs0) = []"
    by (simp add: removeWhere_none)
  then have "filter xliff2_isAdditionalNote (descendantElements (removeFirst ''notes'' ?cs0)) = []"
    by (intro removeFirst_none) simp_all
  with 0 show ?thesis
    by (auto simp: xliff2_removeAllAdditionalNoteElements_def xliff2_removeNotesElementIfEmpty_def
        split: option.splits)
qed

lemma xliff2_setNotes_replaces:
  assumes "checkNotes ns = None" and "el = Element n a cs"
  shows "\<exists>el'. xliff2_setNotes lib (Some ns) el = (None, el')
     \<and> xliff2_findAllAdditionalNoteElements el'
        = filter xliff2_isAdditionalNote
            (descendantElements (map (\<lambda>note. xliff2_noteElement lib (noteFrom note) (noteText note)) ns))"
proof -
  obtain cs1 where 1: "xliff2_removeAllAdditionalNoteElements (Element n a cs) = Element n a cs1"
    and 2: "filter xliff2_isAdditionalNote (descendantElements cs1) = []"
    using xliff2_removeAll_none by blast
  have inv: "filter xliff2_isAdditionalNote (outsideFirst ''notes'' cs1) = []"
    using 2 by (rule outsideFirst_none)
  have nt: "\<And>a c. \<not> xliff2_isAdditionalNote (Element ''notes'' a c)"
    by (simp add: xliff2_isAdditionalNote_def)
  from xliff2_createNote_fold [OF _ nt inv, of lib ns n a]
  obtain cs' where 3: "fold (\<lambda>note. xliff2_createNoteElementWithCategoryAttribute lib
                          (noteFrom note) (noteText note)) ns (Element n a cs1) = Element n a cs'"
    and 4: "filter xliff2_isAdditionalNote (descendantElements cs')
          = filter xliff2_isAdditionalNote (descendantElements cs1)
            @ filter xliff2_isAdditionalNote (descendantElements
                 (map (\<lambda>note. xliff2_noteElement lib (noteFrom note) (noteText note)) ns))"
    by auto
  show ?thesis
    using assms 1 2 3 4
    by (simp add: xliff2_setNotes_def xliff2_findAll_filter)
qed

lemma checkNotes_reserved:
  "checkNotes ns = (if list_ex reservedOrigin ns then Some ValidationError else None)"
  by (simp add: checkNotes_def reservedOrigin_def list_ex_iff)

lemma xliff_noteElement_shape:
  "\<exists>a cs. xliff_noteElement lib f c = Element ''note'' a cs
     \<and> map_of a ''from'' = (if truthy f then f else None)"
  by (auto simp: xliff_noteElement_def createElement_def Let_def truthy_def update_conv')

lemma xliff2_noteElement_shape:
  "\<exists>a cs. xliff2_noteElement lib f c = Element ''note'' a cs
     \<and> map_of a ''category'' = (if truthy f then f else None)"
  by (auto simp: xliff2_noteElement_def createElement_def Let_def truthy_def update_conv')

lemma filter_no_tag:
  "\<not> hasElement t ns \<Longrightarrow> (\<And>e. P e \<Longrightarrow> tagName e = t) \<Longrightarrow> filter P (descendantElements ns) = []"
  by (auto simp: hasElement_def filter_empty_conv)

lemma xliff_created_notes:
  assumes "\<not> list_ex reservedOrigin ns"
    and "list_all (\<lambda>note. \<not> hasElement ''note''
           (childNodes (xliff_noteElement lib (noteFrom note) (noteText note)))) ns"
  shows "filter xliff_isAdditionalNote
           (descendantElements (map (\<lambda>note. xliff_noteElement lib (noteFrom note) (noteText note)) ns))
         = map (\<lambda>note. xliff_noteElement lib (noteFrom note) (noteText note)) ns"
  using assms
proof (induction ns)
  case (Cons x xs)
  let ?e = "xliff_noteElement lib (noteFrom x) (noteText x)"
  obtain a cs where e: "?e = Element ''note'' a cs"
    and f: "map_of a ''from'' = (if truthy (noteFrom x) then noteFrom x else None)"
    using xliff_noteElement_shape by blast
  have P: "xliff_isAdditionalNote ?e"
    using Cons.prems(1) f
    by (auto simp: e xliff_isAdditionalNote_def getAttribute_def reservedOrigin_def)
  have "\<not> hasElement ''note'' cs" using Cons.prems(2) e by simp
  then have "filter xliff_isAdditionalNote (descendantElements cs) = []"
    by (rule filter_no_tag) (simp add: xliff_isAdditionalNote_def)
  with P e Cons show ?case by (simp add: descendantElements_append)
qed simp

lemma xliff2_created_notes:
  assumes "\<not> list_ex reservedOrigin ns"
    and "list_all (\<lambda>note. \<not> hasElement ''note''
           (childNodes (xliff2_noteElement lib (noteFrom note) (noteText note)))) ns"
  shows "filter xliff2_isAdditionalNote
           (descendantElements (map (\<lambda>note. xliff2_noteElement lib (noteFrom note) (noteText note)) ns))
         = map (\<lambda>note. xliff2_noteElement lib (noteFrom note) (noteText note)) ns"
  using assms
proof (induction ns)
  case (Cons x xs)
  let ?e = "xliff2_noteElement lib (noteFrom x) (noteText x)"
  obtain a cs where e: "?e = Element ''note'' a cs"
    and f: "map_of a ''category'' = (if truthy (noteFrom x) then noteFrom x else None)"
    using xliff2_noteElement_shape by blast
  have P: "xliff2_isAdditionalNote ?e"
    using Cons.prems(1) f
    by (auto simp: e xliff2_isAdditionalNote_def getAttribute_def reservedOrigin_def)
  have "\<not> hasElement ''note'' cs" using Cons.prems(2) e by simp
  then have "filter xliff2_isAdditionalNote (descendantElements cs) = []"
    by (rule filter_no_tag) (simp add: xliff2_isAdditionalNote_def)
  with P e Cons show ?case by (simp add: descendantElements_append)
qed simp

text \<open>
  \<^verbatim>\<open>setNotes\<close> checks the supplied notes before it writes: if the origin of some supplied
  note is \<open>description\<close> or \<open>meaning\<close>, it raises \<open>ValidationError\<close> and the tree of the
  unit is the one before the call, so \<^verbatim>\<open>notes()\<close>, \<^verbatim>\<open>description()\<close> and \<^verbatim>\<open>meaning()\<close> return
  what they returned before. If no origin collides, XLIFF 2.0 returns without an error for
  every unit, and the additional note elements of the unit are afterwards the note
  elements below the newly created ones and nothing else: none of the notes from before
  is left. Where no note text parses to markup with a \<open>note\<close> element in it, they are
  exactly the created elements, in the order of the list. XLIFF 1.2 does the same for a
  unit whose additional notes are all children of the unit's element.
\<close>

lemma setNotes_checks_then_replaces:
  "(list_ex reservedOrigin ns \<longrightarrow>
      xliff_setNotes lib (Some ns) el = Some (Some ValidationError, el)
      \<and> xliff2_setNotes lib (Some ns) el = (Some ValidationError, el))
   \<and> (\<not> list_ex reservedOrigin ns \<and> \<not> is_TextNode el \<and> directNotes el \<longrightarrow>
       (\<exists>el'. xliff_setNotes lib (Some ns) el = Some (None, el')
          \<and> xliff_findAllAdditionalNoteElements el'
             = filter xliff_isAdditionalNote (descendantElements
                 (map (\<lambda>note. xliff_noteElement lib (noteFrom note) (noteText note)) ns))
          \<and> (list_all (\<lambda>note. \<not> hasElement ''note''
                 (childNodes (xliff_noteElement lib (noteFrom note) (noteText note)))) ns \<longrightarrow>
              xliff_findAllAdditionalNoteElements el'
              = map (\<lambda>note. xliff_noteElement lib (noteFrom note) (noteText note)) ns)))
   \<and> (\<not> list_ex reservedOrigin ns \<and> \<not> is_TextNode el \<longrightarrow>
       (\<exists>el'. xliff2_setNotes lib (Some ns) el = (None, el')
          \<and> xliff2_findAllAdditionalNoteElements el'
             = filter xliff2_isAdditionalNote (descendantElements
                 (map (\<lambda>note. xliff2_noteElement lib (noteFrom note) (noteText note)) ns))
          \<and> (list_all (\<lambda>note. \<not> hasElement ''note''
                 (childNodes (xliff2_noteElement lib (noteFrom note) (noteText note)))) ns \<longrightarrow>
              xliff2_findAllAdditionalNoteElements el'
              = map (\<lambda>note. xliff2_noteElement lib (noteFrom note) (noteText note)) ns)))"
proof (intro conjI impI)
  assume "list_ex reservedOrigin ns"
  then show "xliff_setNotes lib (Some ns) el = Some (Some ValidationError, el)"
    and "xliff2_setNotes lib (Some ns) el = (Some ValidationError, el)"
    by (simp_all add: xliff_setNotes_def xliff2_setNotes_def checkNotes_reserved)
next
  assume h: "\<not> list_ex reservedOrigin ns \<and> \<not> is_TextNode el \<and> directNotes el"
  then obtain n a cs where el: "el = Element n a cs" by (cases el) auto
  from h have ok: "checkNotes ns = None" by (simp add: checkNotes_reserved)
  from xliff_setNotes_replaces [OF ok _ el, of lib] h
  obtain el' where 1: "xliff_setNotes lib (Some ns) el = Some (None, el')"
    and 2: "xliff_findAllAdditionalNoteElements el'
        = filter xliff_isAdditionalNote (descendantElements
            (map (\<lambda>note. xliff_noteElement lib (noteFrom note) (noteText note)) ns))"
    by blast
  with xliff_created_notes [of ns lib] h
  show "\<exists>el'. xliff_setNotes lib (Some ns) el = Some (None, el')
          \<and> xliff_findAllAdditionalNoteElements el'
             = filter xliff_isAdditionalNote (descendantElements
                 (map (\<lambda>note. xliff_noteElement lib (noteFrom note) (noteText note)) ns))
          \<and> (list_all (\<lambda>note. \<not> hasElement ''note''
                 (childNodes (xliff_noteElement lib (noteFrom note) (noteText note)))) ns \<longrightarrow>
              xliff_findAllAdditionalNoteElements el'
              = map (\<lambda>note. xliff_noteElement lib (noteFrom note) (noteText note)) ns)"
    by auto
next
  assume h: "\<not> list_ex reservedOrigin ns \<and> \<not> is_TextNode el"
  then obtain n a cs where el: "el = Element n a cs" by (cases el) auto
  from h have ok: "checkNotes ns = None" by (simp add: checkNotes_reserved)
  from xliff2_setNotes_replaces [OF ok el, of lib]
  obtain el' where 1: "xliff2_setNotes lib (Some ns) el = (None, el')"
    and 2: "xliff2_findAllAdditionalNoteElements el'
        = filter xliff2_isAdditionalNote (descendantElements
            (map (\<lambda>note. xliff2_noteElement lib (noteFrom note) (noteText note)) ns))"
    by blast
  with xliff2_created_notes [of ns lib] h
  show "\<exists>el'. xliff2_setNotes lib (Some ns) el = (None, el')
          \<and> xliff2_findAllAdditionalNoteElements el'
             = filter xliff2_isAdditionalNote (descendantElements
                 (map (\<lambda>note. xliff2_noteElement lib (noteFrom note) (noteText note)) ns))
          \<and> (list_all (\<lambda>note. \<not> hasElement ''note''
                 (childNodes (xliff2_noteElement lib (noteFrom note) (noteText note)))) ns \<longrightarrow>
              xliff2_findAllAdditionalNoteElements el'
              = map (\<lambda>note. xliff2_noteElement lib (noteFrom note) (noteText note)) ns)"
    by auto
qed

text \<open>
  The unit \<open>notedUnit\<close>, whose notes are children of its element, and the same unit in
  XLIFF 2.0.
\<close>

lemma setNotes_checks_then_replaces_example:
  "xliff_setNotes plainHelpers (Some [remark, badNote]) notedUnit = Some (Some ValidationError, notedUnit)
   \<and> xliff2_setNotes plainHelpers (Some [remark, badNote]) notedUnit2 = (Some ValidationError, notedUnit2)
   \<and> xliff_notes plainHelpers notedUnit
       = [\<lparr> noteFrom = Some ''reviewer'', noteText = Some ''old remark'' \<rparr>]
   \<and> (\<exists>el'. xliff_setNotes plainHelpers (Some [remark]) notedUnit = Some (None, el')
          \<and> xliff_notes plainHelpers el' = [remark])
   \<and> (\<exists>el'. xliff2_setNotes plainHelpers (Some [remark]) notedUnit2 = (None, el')
          \<and> xliff2_notes plainHelpers el' = [remark])"
proof -
  have c: "list_ex reservedOrigin [remark, badNote]"
    by (simp add: reservedOrigin_def badNote_def)
  have nc: "\<not> list_ex reservedOrigin [remark]"
    by (simp add: reservedOrigin_def remark_def)
  have e1: "\<not> is_TextNode notedUnit" "\<not> is_TextNode notedUnit2"
    by (simp_all add: notedUnit_def notedUnit2_def)
  have d1: "directNotes notedUnit"
    by (simp add: directNotes_def notedUnit_def)
  have old: "xliff_notes plainHelpers notedUnit
       = [\<lparr> noteFrom = Some ''reviewer'', noteText = Some ''old remark'' \<rparr>]"
    by (simp add: xliff_notes_def xliff_findAllAdditionalNoteElements_def getElementsByTagName_def
        notedUnit_def getAttribute_def plainHelpers_def)
  have n1: "xliff_noteElement plainHelpers (noteFrom remark) (noteText remark)
      = Element ''note'' [(''from'', ''translator''), (''priority'', ''1'')] [TextNode ''new remark'']"
    by (simp add: xliff_noteElement_def remark_def truthy_def createElement_def
        plainHelpers_def plainParse_def)
  have n2: "xliff2_noteElement plainHelpers (noteFrom remark) (noteText remark)
      = Element ''note'' [(''category'', ''translator'')] [TextNode ''new remark'']"
    by (simp add: xliff2_noteElement_def remark_def truthy_def createElement_def
        plainHelpers_def plainParse_def)
  note t1 = setNotes_checks_then_replaces [of "[remark, badNote]" plainHelpers notedUnit]
  note t2 = setNotes_checks_then_replaces [of "[remark, badNote]" plainHelpers notedUnit2]
  note t3 = setNotes_checks_then_replaces [of "[remark]" plainHelpers notedUnit]
  note t4 = setNotes_checks_then_replaces [of "[remark]" plainHelpers notedUnit2]
  have a: "xliff_setNotes plainHelpers (Some [remark, badNote]) notedUnit = Some (Some ValidationError, notedUnit)"
    using t1 c by blast
  have b: "xliff2_setNotes plainHelpers (Some [remark, badNote]) notedUnit2 = (Some ValidationError, notedUnit2)"
    using t2 c by blast
  from t3 nc e1(1) d1 obtain el' where
    r1: "xliff_setNotes plainHelpers (Some [remark]) notedUnit = Some (None, el')"
    and f1: "list_all (\<lambda>note. \<not> hasElement ''note''
                 (childNodes (xliff_noteElement plainHelpers (noteFrom note) (noteText note)))) [remark] \<longrightarrow>
          xliff_findAllAdditionalNoteElements el'
           = map (\<lambda>note. xliff_noteElement plainHelpers (noteFrom note) (noteText note)) [remark]"
    by blast
  from f1 have "xliff_findAllAdditionalNoteElements el'
      = [Element ''note'' [(''from'', ''translator''), (''priority'', ''1'')] [TextNode ''new remark'']]"
    by (simp add: n1)
  then have g1: "xliff_notes plainHelpers el' = [remark]"
    by (simp add: xliff_notes_def getAttribute_def plainHelpers_def remark_def)
  from t4 nc e1(2) obtain el2 where
    r2: "xliff2_setNotes plainHelpers (Some [remark]) notedUnit2 = (None, el2)"
    and f2: "list_all (\<lambda>note. \<not> hasElement ''note''
                 (childNodes (xliff2_noteElement plainHelpers (noteFrom note) (noteText note)))) [remark] \<longrightarrow>
          xliff2_findAllAdditionalNoteElements el2
           = map (\<lambda>note. xliff2_noteElement plainHelpers (noteFrom note) (noteText note)) [remark]"
    by blast
  from f2 have "xliff2_findAllAdditionalNoteElements el2
      = [Element ''note'' [(''category'', ''translator'')] [TextNode ''new remark'']]"
    by (simp add: n2)
  then have g2: "xliff2_notes plainHelpers el2 = [remark]"
    by (simp add: xliff2_notes_def getAttribute_def plainHelpers_def remark_def)
  from a b old r1 g1 r2 g2 show ?thesis by blast
qed


lemma labelBased_xliff2_isLocationNote [simp]: "labelBased xliff2_isLocationNote"
  by (simp add: labelBased_def xliff2_isLocationNote_def getAttribute_def)

lemma location_filter:
  "filter (\<lambda>e. getAttribute e ''category'' = Some ''location'') (xliff2_findAllAdditionalNoteElements el)
     = filter xliff2_isLocationNote (descendantElements (childNodes el))"
  by (auto simp: xliff2_findAllAdditionalNoteElements_def getElementsByTagName_def
      xliff2_isLocationNote_def intro: filter_cong)

lemma location_filter':
  "filter (\<lambda>e. getAttribute e ''category'' = Some ''location'') (getElementsByTagName el ''note'')
     = filter xliff2_isLocationNote (descendantElements (childNodes el))"
  by (auto simp: getElementsByTagName_def xliff2_isLocationNote_def intro: filter_cong)

lemma length_removeWhere:
  assumes "labelBased A" and "\<And>e. L e \<Longrightarrow> A e"
  shows "length (filter A (descendantElements (removeWhere L ns))) + length (filter L (descendantElements ns))
           \<le> length (filter A (descendantElements ns))"
proof (induction ns rule: descendantElements.induct)
  case (3 n a cs ns)
  have lb: "A (Element n a (removeWhere L cs)) = A (Element n a cs)"
    using assms(1) by (auto simp: labelBased_def)
  have sub: "length (filter L (descendantElements cs)) \<le> length (filter A (descendantElements cs))"
  proof -
    have "filter L (descendantElements cs) = filter L (filter A (descendantElements cs))"
      using assms(2) by (auto intro: filter_cong)
    then show ?thesis by (metis length_filter_le)
  qed
  show ?case
  proof (cases "L (Element n a cs)")
    case True
    with assms(2) have "A (Element n a cs)" by blast
    with True 3 sub show ?thesis by simp
  next
    case False
    with 3 lb show ?thesis by simp
  qed
qed simp_all

lemma length_removeFirst:
  assumes "labelBased A"
  shows "length (filter A (descendantElements (removeFirst t ns)))
           \<le> length (filter A (descendantElements ns))"
proof (induction ns rule: descendantElements.induct)
  case (3 n a cs ns)
  have lb: "A (Element n a (removeFirst t cs)) = A (Element n a cs)"
    using assms(1) by (auto simp: labelBased_def)
  with 3 show ?case by auto
qed simp_all

lemma length_append_into_first:
  assumes "labelBased A"
  shows "hasElement t ns \<Longrightarrow>
     length (filter A (descendantElements (updateFirst t (appendChild new) ns)))
       = length (filter A (descendantElements ns)) + length (filter A (descendantElements [new]))"
proof (induction ns rule: descendantElements.induct)
  case (3 n a cs ns)
  have lb: "\<And>cs'. A (Element n a cs') = A (Element n a cs)"
    using assms by (auto simp: labelBased_def)
  from 3 lb show ?case
    by (auto simp: descendantElements_append)
qed simp_all

lemma fold_onFirst:
  "fold (\<lambda>x. onFirst t (g x)) xs (Element n a cs) = Element n a (fold (\<lambda>x. updateFirst t (g x)) xs cs)"
  by (induction xs arbitrary: cs) (simp_all add: onFirst_def)

lemma fold_append_into_first:
  assumes "labelBased P"
  shows "hasElement t cs \<Longrightarrow> filter P (outsideFirst t cs) = [] \<Longrightarrow>
     filter P (descendantElements (fold (\<lambda>x. updateFirst t (appendChild (g x))) xs cs))
       = filter P (descendantElements cs) @ filter P (descendantElements (map g xs))"
proof (induction xs arbitrary: cs)
  case (Cons x xs)
  let ?cs1 = "updateFirst t (appendChild (g x)) cs"
  from filter_append_into_first [OF assms Cons.prems, of "g x"]
  have 1: "filter P (descendantElements ?cs1)
       = filter P (descendantElements cs) @ filter P (descendantElements [g x])"
    and 2: "filter P (outsideFirst t ?cs1) = []" by simp_all
  have 3: "hasElement t ?cs1" using Cons.prems(1) by (simp add: hasElement_updateFirst)
  from Cons.IH [OF 3 2] 1 show ?case
    using descendantElements_Cons [of "g x" "map g xs"] by simp
qed simp

lemma fold_length_append_into_first:
  assumes "labelBased A"
  shows "hasElement t cs \<Longrightarrow>
     length (filter A (descendantElements (fold (\<lambda>x. updateFirst t (appendChild (g x))) xs cs)))
       = length (filter A (descendantElements cs)) + length (filter A (descendantElements (map g xs)))"
proof (induction xs arbitrary: cs)
  case (Cons x xs)
  let ?cs1 = "updateFirst t (appendChild (g x)) cs"
  have 3: "hasElement t ?cs1" using Cons.prems(1) by (simp add: hasElement_updateFirst)
  from Cons.IH [OF 3] length_append_into_first [OF assms Cons.prems, of "g x"]
  show ?case
    using descendantElements_Cons [of "g x" "map g xs"] by simp
qed simp

lemma locationNotes_created:
  "filter xliff2_isLocationNote (descendantElements (map (xliff2_locationNote lib) refs))
     = map (xliff2_locationNote lib) refs"
  by (induction refs)
     (simp_all add: xliff2_locationNote_def createElement_def xliff2_isLocationNote_def getAttribute_def)

lemma locationNotes_created_additional:
  "filter xliff2_isAdditionalNote (descendantElements (map (xliff2_locationNote lib) refs))
     = map (xliff2_locationNote lib) refs"
  by (induction refs)
     (simp_all add: xliff2_locationNote_def createElement_def xliff2_isAdditionalNote_def getAttribute_def)

lemma xliff2_setSourceReferences_result:
  assumes el: "el = Element n a cs"
  shows "\<exists>cs'. xliff2_setSourceReferences lib refs el = Element n a cs'
      \<and> filter xliff2_isLocationNote (descendantElements cs') = map (xliff2_locationNote lib) refs
      \<and> length (filter xliff2_isAdditionalNote (descendantElements cs'))
          + length (filter xliff2_isLocationNote (descendantElements cs))
          \<le> length (filter xliff2_isAdditionalNote (descendantElements cs)) + length refs"
proof -
  let ?L = xliff2_isLocationNote and ?A = xliff2_isAdditionalNote
  let ?cs1 = "removeWhere ?L cs"
  let ?g = "xliff2_locationNote lib"
  have LA: "\<And>e. ?L e \<Longrightarrow> ?A e"
    by (simp add: xliff2_isLocationNote_def xliff2_isAdditionalNote_def)
  have nL: "\<And>a c. \<not> ?L (Element ''notes'' a c)"
    by (simp add: xliff2_isLocationNote_def)
  have nA: "\<And>a c. \<not> ?A (Element ''notes'' a c)"
    by (simp add: xliff2_isAdditionalNote_def)
  have l1: "filter ?L (descendantElements ?cs1) = []" by (simp add: removeWhere_none)
  have a1: "length (filter ?A (descendantElements ?cs1)) + length (filter ?L (descendantElements cs))
      \<le> length (filter ?A (descendantElements cs))"
    by (intro length_removeWhere) (simp_all add: LA)
  have e1: "xliff2_removeAllSourceReferences el = Element n a ?cs1"
    by (simp add: el xliff2_removeAllSourceReferences_def)
  show ?thesis
  proof (cases "firstElement ''notes'' ?cs1")
    case None
    then have nh: "\<not> hasElement ''notes'' ?cs1" by (simp add: hasElement_firstElement)
    let ?cs2 = "Element ''notes'' [] [] # ?cs1"
    have r: "xliff2_setSourceReferences lib refs el
        = Element n a (fold (\<lambda>x. updateFirst ''notes'' (appendChild (?g x))) refs ?cs2)"
      using None
      by (simp add: xliff2_setSourceReferences_def e1 Let_def getFirst_firstElement fold_onFirst
          createElement_def)
    have h2: "hasElement ''notes'' ?cs2" by simp
    have o2: "filter ?L (outsideFirst ''notes'' ?cs2) = []"
      using l1 nL by simp
    have L: "filter ?L (descendantElements (fold (\<lambda>x. updateFirst ''notes'' (appendChild (?g x))) refs ?cs2))
        = map ?g refs"
      using fold_append_into_first [OF _ h2 o2, of ?g refs] l1 nL
      by (simp add: locationNotes_created)
    have A: "length (filter ?A (descendantElements (fold (\<lambda>x. updateFirst ''notes'' (appendChild (?g x))) refs ?cs2)))
        = length (filter ?A (descendantElements ?cs1)) + length refs"
      using fold_length_append_into_first [OF _ h2, of ?A ?g refs] nA
      by (simp add: locationNotes_created_additional)
    from r L A a1 show ?thesis by simp
  next
    case (Some N)
    then have h1: "hasElement ''notes'' ?cs1" by (simp add: hasElement_firstElement)
    show ?thesis
    proof (cases "refs = [] \<and> childNodes N = []")
      case True
      then have r: "xliff2_setSourceReferences lib refs el = Element n a (removeFirst ''notes'' ?cs1)"
        using Some
        by (simp add: xliff2_setSourceReferences_def e1 Let_def getFirst_firstElement)
      have L: "filter ?L (descendantElements (removeFirst ''notes'' ?cs1)) = []"
        using l1 by (intro removeFirst_none) simp_all
      have A: "length (filter ?A (descendantElements (removeFirst ''notes'' ?cs1)))
          \<le> length (filter ?A (descendantElements ?cs1))"
        by (intro length_removeFirst) simp
      from r L A a1 True show ?thesis by simp
    next
      case False
      then have r: "xliff2_setSourceReferences lib refs el
          = Element n a (fold (\<lambda>x. updateFirst ''notes'' (appendChild (?g x))) refs ?cs1)"
        using Some
        by (auto simp: xliff2_setSourceReferences_def e1 Let_def getFirst_firstElement fold_onFirst)
      have o1: "filter ?L (outsideFirst ''notes'' ?cs1) = []"
        using l1 by (rule outsideFirst_none)
      have L: "filter ?L (descendantElements (fold (\<lambda>x. updateFirst ''notes'' (appendChild (?g x))) refs ?cs1))
          = map ?g refs"
        using fold_append_into_first [OF _ h1 o1, of ?g refs] l1
        by (simp add: locationNotes_created)
      have A: "length (filter ?A (descendantElements (fold (\<lambda>x. updateFirst ''notes'' (appendChild (?g x))) refs ?cs1)))
          = length (filter ?A (descendantElements ?cs1)) + length refs"
        using fold_length_append_into_first [OF _ h1, of ?A ?g refs]
        by (simp add: locationNotes_created_additional)
      from r L A a1 show ?thesis by simp
    qed
  qed
qed

lemma xliff2_notes_length:
  "length (xliff2_notes lib el) = length (filter xliff2_isAdditionalNote (descendantElements (childNodes el)))"
  by (simp add: xliff2_notes_def xliff2_findAll_filter)

lemma xliff2_notes_location_length:
  "length (filter (\<lambda>note. noteFrom note = Some ''location'') (xliff2_notes lib el))
     = length (filter xliff2_isLocationNote (descendantElements (childNodes el)))"
proof -
  have "filter (\<lambda>note. noteFrom note = Some ''location'') (xliff2_notes lib el)
      = map (\<lambda>elem. \<lparr> noteFrom = getAttribute elem ''category'', noteText = getPCDATA lib elem \<rparr>)
          (filter (\<lambda>e. getAttribute e ''category'' = Some ''location'')
             (xliff2_findAllAdditionalNoteElements el))"
    by (simp add: xliff2_notes_def filter_map comp_def)
  then show ?thesis by (simp add: location_filter)
qed

lemma natToString_numeral:
  "natToString (numeral k) n =
     (if n < 10 then [digitOf n] else natToString (pred_numeral k) (n div 10) @ [digitOf (n mod 10)])"
  by (simp add: numeral_eq_Suc)

text \<open>
  C10, as stated, fails in its last part: \<^verbatim>\<open>setSourceReferences\<close> removes the location notes
  and then appends a location note for each reference it is given. Given the reference
  that the unit already has, it leaves \<^verbatim>\<open>notes()\<close> as it was, although a location note
  exists.
\<close>

theorem C10_same_references_leave_notes_unchanged:
  "xliff2_notes plainHelpers locatedUnit2
     = [\<lparr> noteFrom = Some ''location'', noteText = Some ''app/a.ts:7'' \<rparr>]
   \<and> xliff2_notes plainHelpers
        (xliff2_setSourceReferences plainHelpers
           [\<lparr> sourcefile = ''app/a.ts'', linenumber = Number 7 \<rparr>] locatedUnit2)
     = xliff2_notes plainHelpers locatedUnit2"
  by (simp add: locatedUnit2_def xliff2_notes_def xliff2_findAllAdditionalNoteElements_def
      getElementsByTagName_def getAttribute_def plainHelpers_def
      xliff2_setSourceReferences_def xliff2_removeAllSourceReferences_def xliff2_isLocationNote_def
      getFirstElementByTagName_def onFirst_def xliff2_locationNote_def createElement_def
      plainNumberToString_def digitOf_def natToString_numeral)

text \<open>
  C10, amended: in XLIFF 2.0 a note of origin \<open>location\<close> is accepted by \<^verbatim>\<open>checkNotes\<close>,
  and \<^verbatim>\<open>sourceReferences()\<close> reads exactly the elements of origin \<open>location\<close> among those
  that \<^verbatim>\<open>notes()\<close> returns. After \<^verbatim>\<open>setSourceReferences(refs)\<close> the notes of origin \<open>location\<close>
  are the ones created for \<open>refs\<close>: all earlier ones are removed. The call removes
  at least as many notes as there were location notes and adds one for each reference, so
  it changes \<^verbatim>\<open>notes()\<close> whenever fewer references are given than location notes existed,
  in particular for \<^verbatim>\<open>setSourceReferences([])\<close> on a unit with a location note.
\<close>

theorem C10_location_notes_shared:
  "checkNotes [\<lparr> noteFrom = Some ''location'', noteText = t \<rparr>] = None
   \<and> xliff2_sourceReferences lib el
       = parseEach lib (filter (\<lambda>e. getAttribute e ''category'' = Some ''location'')
                          (xliff2_findAllAdditionalNoteElements el))
   \<and> (\<not> is_TextNode el \<longrightarrow>
        filter (\<lambda>e. getAttribute e ''category'' = Some ''location'')
          (xliff2_findAllAdditionalNoteElements (xliff2_setSourceReferences lib refs el))
          = map (xliff2_locationNote lib) refs
        \<and> length (xliff2_notes lib (xliff2_setSourceReferences lib refs el))
            + length (filter (\<lambda>note. noteFrom note = Some ''location'') (xliff2_notes lib el))
           \<le> length (xliff2_notes lib el) + length refs
        \<and> (length refs < length (filter (\<lambda>note. noteFrom note = Some ''location'') (xliff2_notes lib el))
             \<longrightarrow> xliff2_notes lib (xliff2_setSourceReferences lib refs el) \<noteq> xliff2_notes lib el))"
proof (intro conjI impI)
  show "checkNotes [\<lparr> noteFrom = Some ''location'', noteText = t \<rparr>] = None"
    by (simp add: checkNotes_def)
  show "xliff2_sourceReferences lib el
       = parseEach lib (filter (\<lambda>e. getAttribute e ''category'' = Some ''location'')
                          (xliff2_findAllAdditionalNoteElements el))"
    by (simp add: xliff2_sourceReferences_def location_filter location_filter')
next
  assume "\<not> is_TextNode el"
  then obtain n a cs where el: "el = Element n a cs" by (cases el) auto
  from xliff2_setSourceReferences_result [OF el, of lib refs]
  obtain cs' where r: "xliff2_setSourceReferences lib refs el = Element n a cs'"
    and L: "filter xliff2_isLocationNote (descendantElements cs') = map (xliff2_locationNote lib) refs"
    and A: "length (filter xliff2_isAdditionalNote (descendantElements cs'))
          + length (filter xliff2_isLocationNote (descendantElements cs))
          \<le> length (filter xliff2_isAdditionalNote (descendantElements cs)) + length refs"
    by blast
  show 1: "filter (\<lambda>e. getAttribute e ''category'' = Some ''location'')
          (xliff2_findAllAdditionalNoteElements (xliff2_setSourceReferences lib refs el))
          = map (xliff2_locationNote lib) refs"
    using r L by (simp add: location_filter)
  show 2: "length (xliff2_notes lib (xliff2_setSourceReferences lib refs el))
            + length (filter (\<lambda>note. noteFrom note = Some ''location'') (xliff2_notes lib el))
           \<le> length (xliff2_notes lib el) + length refs"
    using r A by (simp add: xliff2_notes_length xliff2_notes_location_length el)
  assume "length refs < length (filter (\<lambda>note. noteFrom note = Some ''location'') (xliff2_notes lib el))"
  with 2 have "length (xliff2_notes lib (xliff2_setSourceReferences lib refs el))
      < length (xliff2_notes lib el)" by linarith
  then show "xliff2_notes lib (xliff2_setSourceReferences lib refs el) \<noteq> xliff2_notes lib el"
    by auto
qed

theorem C10_location_notes_shared_witness:
  "\<not> is_TextNode notedUnit2
   \<and> xliff2_notes plainHelpers notedUnit2
       = [\<lparr> noteFrom = Some ''location'', noteText = Some ''app/a.ts:7'' \<rparr>,
          \<lparr> noteFrom = Some ''reviewer'', noteText = Some ''old remark'' \<rparr>]
   \<and> xliff2_sourceReferences plainHelpers notedUnit2
       = Inr [\<lparr> sourcefile = ''app/a.ts'', linenumber = Number 7 \<rparr>]
   \<and> length ([] :: sourceRef list)
       < length (filter (\<lambda>note. noteFrom note = Some ''location'') (xliff2_notes plainHelpers notedUnit2))
   \<and> xliff2_notes plainHelpers (xliff2_setSourceReferences plainHelpers [] notedUnit2)
       \<noteq> xliff2_notes plainHelpers notedUnit2
   \<and> filter (\<lambda>e. getAttribute e ''category'' = Some ''location'')
        (xliff2_findAllAdditionalNoteElements (xliff2_setSourceReferences plainHelpers [] notedUnit2))
       = []"
proof -
  note t = C10_location_notes_shared [of _ plainHelpers notedUnit2 "[]"]
  have e: "\<not> is_TextNode notedUnit2" by (simp add: notedUnit2_def)
  have fa: "xliff2_findAllAdditionalNoteElements notedUnit2
      = [Element ''note'' [(''category'', ''location'')] [TextNode ''app/a.ts:7''],
         Element ''note'' [(''category'', ''reviewer'')] [TextNode ''old remark'']]"
    by (simp add: xliff2_findAllAdditionalNoteElements_def getElementsByTagName_def
        notedUnit2_def getAttribute_def)
  have n: "xliff2_notes plainHelpers notedUnit2
       = [\<lparr> noteFrom = Some ''location'', noteText = Some ''app/a.ts:7'' \<rparr>,
          \<lparr> noteFrom = Some ''reviewer'', noteText = Some ''old remark'' \<rparr>]"
    by (simp add: xliff2_notes_def fa getAttribute_def plainHelpers_def)
  have "xliff2_sourceReferences plainHelpers notedUnit2
      = parseEach plainHelpers [Element ''note'' [(''category'', ''location'')] [TextNode ''app/a.ts:7'']]"
    using t by (simp add: fa getAttribute_def)
  then have s: "xliff2_sourceReferences plainHelpers notedUnit2
       = Inr [\<lparr> sourcefile = ''app/a.ts'', linenumber = Number 7 \<rparr>]"
    by (simp add: plainHelpers_def xliff2_parseSourceAndPos_def lastIndexOf_def
        plainParseInt_def digitValue_def)
  have l: "length ([] :: sourceRef list)
       < length (filter (\<lambda>note. noteFrom note = Some ''location'') (xliff2_notes plainHelpers notedUnit2))"
    by (simp add: n)
  from t e l have c: "xliff2_notes plainHelpers (xliff2_setSourceReferences plainHelpers [] notedUnit2)
       \<noteq> xliff2_notes plainHelpers notedUnit2"
    by blast
  from t e have d: "filter (\<lambda>e. getAttribute e ''category'' = Some ''location'')
        (xliff2_findAllAdditionalNoteElements (xliff2_setSourceReferences plainHelpers [] notedUnit2))
       = []"
    by simp
  from e n s l c d show ?thesis by blast
qed

subsection \<open>The message parser\<close>

text \<open>
  Reading a number back from its decimal form, and recognizing the markers that
  \<open>emitMarker\<close> writes.
\<close>


lemma stringToNat_snoc:
  "stringToNat acc (xs @ [c]) = 10 * stringToNat acc xs + digitValue c"
  by (induction xs arbitrary: acc) simp_all

lemma digitValue_digitOf_all: "\<forall>d<10. digitValue (digitOf d) = d"
  by (simp add: numeral_eq_Suc All_less_Suc digitOf_def digitValue_def)

lemma digitValue_digitOf: "d < 10 \<Longrightarrow> digitValue (digitOf d) = d"
  using digitValue_digitOf_all by blast

lemma stringToNat_decimal: "stringToNat 0 (decimal n) = n"
proof (induction n rule: decimal.induct)
  case (1 n)
  show ?case
  proof (cases "n < 10")
    case True
    then show ?thesis
      by (subst decimal.simps) (simp add: digitValue_digitOf)
  next
    case False
    with 1 have "stringToNat 0 (decimal (n div 10)) = n div 10" by simp
    with False show ?thesis
      by (subst decimal.simps) (simp add: stringToNat_snoc digitValue_digitOf)
  qed
qed

lemma indexFromName_numbered: "indexFromName base (numbered base n) = n"
  by (simp add: indexFromName_def numbered_def stringToNat_decimal)

lemma startsWith_append [simp]: "startsWith p (p @ s)"
  by (induction p) simp_all

lemma startsWith_numbered [simp]: "startsWith base (numbered base k)"
  by (simp add: numbered_def) (metis append_Nil2 startsWith_append)

lemma recognize_Placeholder:
  "recognizePlaceholderElement (numbered ''INTERPOLATION'' n) ex = Interpolation n"
  by (simp add: recognizePlaceholderElement_def indexFromName_numbered)

lemma recognize_IcuRef:
  "recognizePlaceholderElement (numbered ''ICU'' n) ex = IcuReference n"
proof -
  have "\<not> startsWith ''INTERPOLATION'' (numbered ''ICU'' n)"
    by (simp add: numbered_def)
  then show ?thesis
    by (simp add: recognizePlaceholderElement_def indexFromName_numbered)
qed

lemma startsWith_iff: "startsWith p s \<longleftrightarrow> (\<exists>r. s = p @ r)"
proof (induction p s rule: startsWith.induct)
  case (3 p ps c cs)
  then show ?case by auto
qed simp_all

lemma recognize_TagStart:
  assumes "startsWith ''START_'' base"
  shows "recognizePlaceholderElement (numbered base k) (CHR ''<'' # name @ ''>'')
     = TagMarker StartTag name"
proof -
  obtain sy where b: "base = ''START_'' @ sy"
    using assms startsWith_iff by blast
  have "\<not> startsWith ''INTERPOLATION'' (numbered base k)"
    "\<not> startsWith ''ICU'' (numbered base k)"
    "startsWith ''START_'' (numbered base k)"
    by (simp_all add: numbered_def b)
  then show ?thesis
    by (simp add: recognizePlaceholderElement_def)
qed

lemma recognize_TagEnd:
  assumes "startsWith ''CLOSE_'' base"
  shows "recognizePlaceholderElement (numbered base k) (CHR ''<'' # CHR ''/'' # name @ ''>'')
     = TagMarker EndTag name"
proof -
  obtain sy where b: "base = ''CLOSE_'' @ sy"
    using assms startsWith_iff by blast
  have "\<not> startsWith ''INTERPOLATION'' (numbered base k)"
    "\<not> startsWith ''ICU'' (numbered base k)"
    "\<not> startsWith ''START_'' (numbered base k)"
    "startsWith ''CLOSE_'' (numbered base k)"
    by (simp_all add: numbered_def b)
  then show ?thesis
    by (simp add: recognizePlaceholderElement_def)
qed

lemma recognize_TagEmpty:
  "recognizePlaceholderElement (numbered (symbolicNameFor name) k) (CHR ''<'' # name @ ''>'')
     = TagMarker EmptyTag name"
proof -
  have "\<not> startsWith ''INTERPOLATION'' (numbered (symbolicNameFor name) k)"
    "\<not> startsWith ''ICU'' (numbered (symbolicNameFor name) k)"
    "\<not> startsWith ''START_'' (numbered (symbolicNameFor name) k)"
    "\<not> startsWith ''CLOSE_'' (numbered (symbolicNameFor name) k)"
    by (simp_all add: numbered_def symbolicNameFor_def)
  then show ?thesis
    by (simp add: recognizePlaceholderElement_def)
qed

lemma parse_emitAll:
  "nested stack m \<Longrightarrow> parseNodes stack (emitAll seen m) = Inr m"
proof (induction m arbitrary: stack seen)
  case Nil
  then show ?case by simp
next
  case (Cons p ps)
  show ?case
  proof (cases p)
    case (Text s)
    with Cons show ?thesis by simp
  next
    case (Placeholder n)
    with Cons show ?thesis by (simp add: recognize_Placeholder)
  next
    case (TagStart name)
    with Cons show ?thesis by (simp add: recognize_TagStart Let_def)
  next
    case (TagEnd name)
    with Cons show ?thesis
      by (cases stack) (simp_all add: recognize_TagEnd Let_def)
  next
    case (TagEmpty name)
    with Cons show ?thesis by (simp add: recognize_TagEmpty Let_def)
  next
    case (IcuRef n)
    with Cons show ?thesis by (simp add: recognize_IcuRef)
  qed
qed

lemma displayOf_cons:
  "displayOf (map_sum id (Cons p) r) = map_sum id ((@) (partDisplay p)) (displayOf r)"
  by (cases r) (simp_all add: displayOf_def asDisplayString_def)

lemma display_xmlNodes:
  "displayOf (parseNodes stack (xmlNodes ns)) = displayOf (parseNodes stack ns)"
proof (induction ns arbitrary: stack)
  case Nil
  then show ?case by simp
next
  case (Cons x ns)
  show ?case
  proof (cases x)
    case (NativeText s)
    show ?thesis
    proof (cases "s = []")
      case True
      with NativeText Cons show ?thesis
        by (simp add: displayOf_cons) (cases "displayOf (parseNodes stack ns)"; simp)
    next
      case False
      show ?thesis
      proof (cases "xmlNodes ns")
        case Nil
        with False NativeText Cons [of stack] show ?thesis
          by (simp add: displayOf_cons)
      next
        case (Cons y r)
        show ?thesis
        proof (cases y)
          case (NativeText t)
          have "displayOf (parseNodes stack (NativeText (s @ t) # r))
              = map_sum id ((@) s) (displayOf (parseNodes stack (NativeText t # r)))"
            by (cases "displayOf (parseNodes stack r)") (simp_all add: displayOf_cons)
          with False \<open>x = NativeText s\<close> Cons NativeText Cons.IH [of stack] show ?thesis
            by (simp add: displayOf_cons)
        next
          case (Ph name ex)
          with False \<open>x = NativeText s\<close> Cons Cons.IH [of stack] show ?thesis
            by (simp add: displayOf_cons)
        qed
      qed
    qed
  next
    case (Ph name ex)
    with Cons show ?thesis
      by (simp add: displayOf_cons split: recognized.splits markerKind.splits list.splits)
  qed
qed

text \<open>
  A wrong close marker stops the parser: the first one with its own name, any later one
  with the name of the first.
\<close>

lemma parse_wrong_close_first:
  "noWrongClose stack pre \<Longrightarrow> closesWrongly (openTags stack pre) x \<Longrightarrow>
   \<exists>tag. closedName x = Some tag \<and>
     parseNodes stack (pre @ x # post) = Inl (MarkupError (''unexpected close tag '' @ tag))"
proof (induction pre arbitrary: stack)
  case Nil
  then show ?case
    by (cases x)
       (auto simp: closesWrongly_def closedName_def
             split: recognized.splits markerKind.splits list.splits option.splits)
next
  case (Cons y pre)
  show ?case
  proof (cases y)
    case (NativeText s)
    with Cons.prems Cons.IH [of stack] show ?thesis by auto
  next
    case (Ph name ex)
    show ?thesis
    proof (cases "recognizePlaceholderElement name ex")
      case (Interpolation n)
      with Ph Cons.prems Cons.IH [of stack] show ?thesis by auto
    next
      case (IcuReference n)
      with Ph Cons.prems Cons.IH [of stack] show ?thesis by auto
    next
      case (TagMarker kind tag)
      show ?thesis
      proof (cases kind)
        case StartTag
        with TagMarker Ph Cons.prems Cons.IH [of "tag # stack"] show ?thesis by auto
      next
        case EndTag
        with TagMarker Ph Cons.prems have ok: "\<exists>rest. stack = tag # rest"
          by (cases stack) (auto simp: closesWrongly_def closedName_def)
        then obtain rest where st: "stack = tag # rest" by blast
        with EndTag TagMarker Ph Cons.prems Cons.IH [of rest] show ?thesis by auto
      next
        case EmptyTag
        with TagMarker Ph Cons.prems Cons.IH [of stack] show ?thesis by auto
      qed
    qed
  qed
qed

lemma parse_wrong_close_earlier:
  "\<not> noWrongClose stack pre \<Longrightarrow>
   \<exists>tag. parseNodes stack (pre @ rest) = Inl (MarkupError (''unexpected close tag '' @ tag))"
proof (induction pre arbitrary: stack)
  case Nil
  then show ?case by simp
next
  case (Cons y pre)
  show ?case
  proof (cases "closesWrongly stack y")
    case True
    have "noWrongClose stack []" by simp
    with True parse_wrong_close_first [of stack "[]" y "pre @ rest"] show ?thesis by auto
  next
    case False
    with Cons.prems have later: "\<not> noWrongClose (openTags stack [y]) pre" by simp
    show ?thesis
    proof (cases y)
      case (NativeText s)
      with later Cons.IH [of stack] show ?thesis by auto
    next
      case (Ph name ex)
      show ?thesis
      proof (cases "recognizePlaceholderElement name ex")
        case (Interpolation n)
        with Ph later Cons.IH [of stack] show ?thesis by auto
      next
        case (IcuReference n)
        with Ph later Cons.IH [of stack] show ?thesis by auto
      next
        case (TagMarker kind tag)
        show ?thesis
        proof (cases kind)
          case StartTag
          with TagMarker Ph later Cons.IH [of "tag # stack"] show ?thesis by auto
        next
          case EndTag
          with TagMarker Ph False have "\<exists>r. stack = tag # r"
            by (cases stack) (auto simp: closesWrongly_def closedName_def)
          then obtain r where st: "stack = tag # r" by blast
          with EndTag TagMarker Ph later Cons.IH [of r] show ?thesis by auto
        next
          case EmptyTag
          with TagMarker Ph later Cons.IH [of stack] show ?thesis by auto
        qed
      qed
    qed
  qed
qed

lemma recognize_closeBold:
  "recognizePlaceholderElement ''CLOSE_BOLD_TEXT'' ''</b>'' = TagMarker EndTag ''b''"
  by (simp add: recognizePlaceholderElement_def)

lemma recognize_startBold:
  "recognizePlaceholderElement ''START_BOLD_TEXT'' ''<b>'' = TagMarker StartTag ''b''"
  by (simp add: recognizePlaceholderElement_def)

lemma recognize_startStrange:
  "recognizePlaceholderElement ''START_TAG_STRANGE'' ''<strange>'' = TagMarker StartTag ''strange''"
  by (simp add: recognizePlaceholderElement_def)

lemma decimal_digit: "n < 10 \<Longrightarrow> decimal n = [digitOf n]"
  by (simp add: decimal.simps [of n])

lemma asNativeString_swappedSample:
  "asNativeString swappedSample =
     [Ph ''INTERPOLATION_1'' ''INTERPOLATION_1'', NativeText '': a placeholder: '',
      Ph ''INTERPOLATION'' ''INTERPOLATION'']"
  by (simp add: asNativeString_def swappedSample_def numbered_def decimal_digit digitOf_def)

lemma asNativeString_nestedSample:
  "asNativeString nestedSample =
     [Ph ''START_BOLD_TEXT'' ''<b>'', Ph ''START_ITALIC_TEXT'' ''<i>'',
      Ph ''START_TAG_STRANGE'' ''<strange>'', NativeText ''Placeholder '',
      Ph ''INTERPOLATION'' ''INTERPOLATION'',
      Ph ''CLOSE_TAG_STRANGE'' ''</strange>'', Ph ''CLOSE_ITALIC_TEXT'' ''</i>'',
      Ph ''CLOSE_BOLD_TEXT'' ''</b>'']"
  by (simp add: asNativeString_def nestedSample_def numbered_def symbolicNameFor_def
                upperChar_def Let_def)

text \<open>
  C6 (nesting enforcement). Let a fragment hold a marker \<open>x\<close> that closes a tag while no
  tag is open, or while the most recently opened tag has another name (the open tags
  counted over the markers \<open>pre\<close> before it). Then parsing the fragment raises a
  \<open>MarkupError\<close> whose message is \<^verbatim>\<open>unexpected close tag\<close> and a name, and returns no
  message, whatever follows the marker. When no marker before \<open>x\<close> closes wrongly, the
  name is the tag name of \<open>x\<close>.
\<close>

theorem C6_unexpected_close_tag:
  assumes "closesWrongly (openTags [] pre) x"
  shows "(\<exists>tag. createNormalizedMessageFromXML (pre @ x # post)
            = Inl (MarkupError (''unexpected close tag '' @ tag)))
       \<and> (noWrongClose [] pre \<longrightarrow>
            (\<exists>tag. closedName x = Some tag \<and>
               createNormalizedMessageFromXML (pre @ x # post)
                 = Inl (MarkupError (''unexpected close tag '' @ tag))))"
proof (cases "noWrongClose [] pre")
  case True
  with assms parse_wrong_close_first [of "[]" pre x post] show ?thesis
    unfolding createNormalizedMessageFromXML_def by blast
next
  case False
  with parse_wrong_close_earlier [of "[]" pre "x # post"] show ?thesis
    unfolding createNormalizedMessageFromXML_def by blast
qed

text \<open>
  The markers of the test case: \<^verbatim>\<open>b\<close> and \<^verbatim>\<open>strange\<close> are open, the marker closes \<^verbatim>\<open>b\<close>,
  and the error is \<^verbatim>\<open>unexpected close tag b\<close>.
\<close>

theorem C6_unexpected_close_tag_witness:
  "closesWrongly (openTags [] boldStrange) closeBold
   \<and> noWrongClose [] boldStrange
   \<and> closedName closeBold = Some ''b''
   \<and> createNormalizedMessageFromXML (boldStrange @ closeBold # [])
       = Inl (MarkupError ''unexpected close tag b'')"
proof -
  have a: "closesWrongly (openTags [] boldStrange) closeBold"
    by (simp add: boldStrange_def closeBold_def closesWrongly_def closedName_def
                  recognize_closeBold recognize_startBold recognize_startStrange)
  have b: "noWrongClose [] boldStrange"
    by (simp add: boldStrange_def closesWrongly_def closedName_def
                  recognize_startBold recognize_startStrange)
  have c: "closedName closeBold = Some ''b''"
    by (simp add: closeBold_def closedName_def recognize_closeBold)
  from C6_unexpected_close_tag [OF a, of "[]"] b c
  have "createNormalizedMessageFromXML (boldStrange @ closeBold # [])
       = Inl (MarkupError ''unexpected close tag b'')"
    by auto
  with a b c show ?thesis by blast
qed

text \<open>
  C1 (round-trip law). For every normalized message whose tags are properly nested,
  parsing its native encoding gives the message back; and parsing the native encoding
  as the XML document holds it, then rendering the result, gives the display string of
  the message. The message stands for the parsed display string \<open>s\<close>, which is its
  display string.
\<close>

theorem C1_round_trip:
  assumes "nested [] m"
  shows "createNormalizedMessageFromXML (asNativeString m) = Inr m
       \<and> displayOf (createNormalizedMessageFromXML (xmlNodes (asNativeString m)))
           = Inr (asDisplayString m)"
proof -
  have "parseNodes [] (emitAll [] m) = Inr m"
    using assms by (rule parse_emitAll)
  moreover from this
  have "displayOf (parseNodes [] (xmlNodes (emitAll [] m))) = Inr (asDisplayString m)"
    unfolding display_xmlNodes by (simp add: displayOf_def)
  ultimately show ?thesis
    by (simp add: createNormalizedMessageFromXML_def asNativeString_def)
qed

text \<open>
  The messages \<^verbatim>\<open><b><i><strange>Placeholder {{0}}</strange></i></b>\<close> and
  \<^verbatim>\<open>{{1}}: a placeholder: {{0}}\<close> of the test cases.
\<close>

theorem C1_round_trip_witness:
  "nested [] nestedSample
   \<and> createNormalizedMessageFromXML (asNativeString nestedSample) = Inr nestedSample
   \<and> displayOf (createNormalizedMessageFromXML (xmlNodes (asNativeString nestedSample)))
       = Inr ''<b><i><strange>Placeholder {{0}}</strange></i></b>''
   \<and> nested [] swappedSample
   \<and> displayOf (createNormalizedMessageFromXML (xmlNodes (asNativeString swappedSample)))
       = Inr ''{{1}}: a placeholder: {{0}}''"
proof -
  have n: "nested [] nestedSample"
    by (simp add: nestedSample_def)
  have d: "asDisplayString nestedSample = ''<b><i><strange>Placeholder {{0}}</strange></i></b>''"
    by (simp add: nestedSample_def asDisplayString_def decimal_digit digitOf_def)
  have n': "nested [] swappedSample"
    by (simp add: swappedSample_def)
  have d': "asDisplayString swappedSample = ''{{1}}: a placeholder: {{0}}''"
    by (simp add: swappedSample_def asDisplayString_def decimal_digit digitOf_def)
  from C1_round_trip [OF n] C1_round_trip [OF n'] n n' d d' show ?thesis by simp
qed

end
